(* ===== verification/Prelude.thy ===== *)
theory Prelude imports Main "HOL-Library.Word"
begin

text \<open>
  Prelude of the MascotApp verification library: the representation of the Go values
  every component shares, and the generic lemmas their proofs rest on.

  \<^item> A Go \<^verbatim>\<open>byte\<close> is a HOL \<^typ>\<open>char\<close> (a type of exactly 256 values), so a Go
    \<^verbatim>\<open>string\<close> and a \<^verbatim>\<open>[]byte\<close> are the same \<^typ>\<open>char list\<close>, and Go's conversions
    between the two are the identity.
  \<^item> A \<^verbatim>\<open>uuid.UUID\<close>, which is \<^verbatim>\<open>[16]byte\<close> in Go, is a 128-bit word; its bytes are the
    big-endian base-256 digits. \<^verbatim>\<open>uuid.Nil\<close> is the word 0.
  \<^item> A \<^verbatim>\<open>time.Time\<close> is the integer number of nanoseconds since the Unix epoch.
  \<^item> Positional notation (\<open>digits_be\<close>, \<open>undigits\<close>) is shared by the uuid bytes, the
    base64 and base32 codecs, the TOTP counter and its zero-padded decimal code.
\<close>

section \<open>Types\<close>

type_synonym byte = char
type_synonym bytes = "char list"
type_synonym uuid = "128 word"
type_synonym time = int

definition uuid_nil :: uuid where
  "uuid_nil = 0"

text \<open>Facts that unfold a component's plumbing; each theory adds its own.\<close>

named_theorems plumbing

section \<open>Positional notation\<close>

text \<open>\<open>digits_be k b n\<close> are the last \<open>k\<close> digits of \<open>n\<close> in base \<open>b\<close>, most significant first.\<close>

fun digits_be :: "nat \<Rightarrow> nat \<Rightarrow> nat \<Rightarrow> nat list" where
  "digits_be 0 b n = []"
| "digits_be (Suc k) b n = digits_be k b (n div b) @ [n mod b]"

definition undigits :: "nat \<Rightarrow> nat list \<Rightarrow> nat" where
  "undigits b ds = foldl (\<lambda>a d. a * b + d) 0 ds"

lemma undigits_Nil [simp]: "undigits b [] = 0"
  by (simp add: undigits_def)

lemma undigits_snoc [simp]: "undigits b (ds @ [d]) = undigits b ds * b + d"
  by (simp add: undigits_def)

lemma length_digits_be [simp]: "length (digits_be k b n) = k"
  by (induction k arbitrary: n) auto

lemma digits_be_less: "0 < b \<Longrightarrow> d \<in> set (digits_be k b n) \<Longrightarrow> d < b"
  by (induction k arbitrary: n) auto

lemma undigits_digits_be: "undigits b (digits_be k b n) = n mod b ^ k"
proof (induction k arbitrary: n)
  case 0
  then show ?case by simp
next
  case (Suc k)
  have "n mod b ^ Suc k = b * (n div b mod b ^ k) + n mod b"
    by (simp add: mod_mult2_eq)
  with Suc show ?case by simp
qed

lemma digits_be_undigits:
  "\<forall>d \<in> set ds. d < b \<Longrightarrow> digits_be (length ds) b (undigits b ds) = ds"
proof (induction ds rule: rev_induct)
  case Nil
  then show ?case by simp
next
  case (snoc d ds)
  from snoc.prems have "0 < b" "d < b" by auto
  with snoc show ?case by simp
qed

lemma digits_be_inj:
  assumes "digits_be k b m = digits_be k b n" and "m < b ^ k" and "n < b ^ k"
  shows "m = n"
proof -
  have "m mod b ^ k = n mod b ^ k"
    using assms(1) by (metis undigits_digits_be)
  with assms(2,3) show ?thesis by simp
qed

lemma undigits_less: "\<forall>d \<in> set ds. d < b \<Longrightarrow> undigits b ds < b ^ length ds"
proof (induction ds rule: rev_induct)
  case Nil
  then show ?case by simp
next
  case (snoc d ds)
  then have le: "undigits b ds + 1 \<le> b ^ length ds" and d: "d < b" by auto
  have "(undigits b ds + 1) * b \<le> b ^ length ds * b"
    using le by (rule mult_right_mono) simp
  with d show ?case by (simp add: algebra_simps)
qed

section \<open>Bytes of a uuid\<close>

definition byte_of :: "nat \<Rightarrow> byte" where
  "byte_of n = char_of n"

definition nat_of_byte :: "byte \<Rightarrow> nat" where
  "nat_of_byte c = of_char c"

lemma nat_of_byte_less [simp]: "nat_of_byte c < 256"
  by (simp add: nat_of_byte_def)

lemma byte_of_nat_of_byte [simp]: "byte_of (nat_of_byte c) = c"
  by (simp add: byte_of_def nat_of_byte_def)

lemma nat_of_byte_byte_of [simp]: "nat_of_byte (byte_of n) = n mod 256"
  by (simp add: byte_of_def nat_of_byte_def)

lemma nat_of_byte_inj [simp]: "nat_of_byte a = nat_of_byte b \<longleftrightarrow> a = b"
  by (simp add: nat_of_byte_def)

lemma map_byte_of_nat_of_byte [simp]: "map (byte_of \<circ> nat_of_byte) xs = xs"
  by (induction xs) auto

lemma map_nat_of_byte_byte_of:
  "\<forall>d \<in> set ds. d < 256 \<Longrightarrow> map nat_of_byte (map byte_of ds) = ds"
  by (induction ds) auto

text \<open>Big-endian bytes of a number: \<^verbatim>\<open>binary.BigEndian.PutUint64\<close>, and the array behind a uuid.\<close>

definition bytes_be :: "nat \<Rightarrow> nat \<Rightarrow> bytes" where
  "bytes_be k n = map byte_of (digits_be k 256 n)"

definition nat_of_bytes :: "bytes \<Rightarrow> nat" where
  "nat_of_bytes bs = undigits 256 (map nat_of_byte bs)"

lemma length_bytes_be [simp]: "length (bytes_be k n) = k"
  by (simp add: bytes_be_def)

lemma nat_of_bytes_be: "nat_of_bytes (bytes_be k n) = n mod 256 ^ k"
proof -
  have "map nat_of_byte (map byte_of (digits_be k 256 n)) = digits_be k 256 n"
    by (rule map_nat_of_byte_byte_of) (auto dest: digits_be_less [rotated])
  then show ?thesis by (simp add: nat_of_bytes_def bytes_be_def undigits_digits_be)
qed

lemma bytes_be_nat_of_bytes: "bytes_be (length bs) (nat_of_bytes bs) = bs"
proof -
  have "\<forall>d \<in> set (map nat_of_byte bs). d < 256" by auto
  from digits_be_undigits [OF this] show ?thesis
    by (simp add: nat_of_bytes_def bytes_be_def)
qed

text \<open>The Go expression \<^verbatim>\<open>u[:]\<close> on a \<^verbatim>\<open>uuid.UUID\<close>.\<close>

definition uuid_bytes :: "uuid \<Rightarrow> bytes" where
  "uuid_bytes u = bytes_be 16 (unat u)"

lemma length_uuid_bytes [simp]: "length (uuid_bytes u) = 16"
  by (simp add: uuid_bytes_def)

lemma nat_of_uuid_bytes: "nat_of_bytes (uuid_bytes u) = unat u"
proof -
  have "unat u < 2 ^ 128" using unsigned_less [of u] by simp
  then show ?thesis by (simp add: uuid_bytes_def nat_of_bytes_be)
qed

lemma uuid_bytes_inj [simp]: "uuid_bytes u = uuid_bytes v \<longleftrightarrow> u = v"
  by (metis nat_of_uuid_bytes unsigned_word_eqI)

section \<open>Go slices\<close>

text \<open>\<^verbatim>\<open>xs[lo:hi]\<close> and \<^verbatim>\<open>xs[i]\<close>; \<open>None\<close> is the run-time panic out of range.\<close>

definition go_slice :: "nat \<Rightarrow> nat \<Rightarrow> 'a list \<Rightarrow> 'a list option" where
  "go_slice lo hi xs = (if lo \<le> hi \<and> hi \<le> length xs then Some (take (hi - lo) (drop lo xs)) else None)"

definition go_index :: "nat \<Rightarrow> 'a list \<Rightarrow> 'a option" where
  "go_index i xs = (if i < length xs then Some (xs ! i) else None)"

section \<open>ASCII text\<close>

definition is_ascii :: "string \<Rightarrow> bool" where
  "is_ascii s \<longleftrightarrow> list_all (\<lambda>c. nat_of_byte c < 128) s"

lemma is_ascii_simps [simp]:
  "is_ascii []" "is_ascii (c # s) \<longleftrightarrow> nat_of_byte c < 128 \<and> is_ascii s"
  "is_ascii (s @ t) \<longleftrightarrow> is_ascii s \<and> is_ascii t"
  by (simp_all add: is_ascii_def)

lemma is_ascii_set: "is_ascii s \<longleftrightarrow> (\<forall>c \<in> set s. nat_of_byte c < 128)"
  by (simp add: is_ascii_def list_all_iff)

section \<open>Options and lists\<close>

lemma length_filter_zero_iff: "length (filter P xs) = 0 \<longleftrightarrow> (\<forall>x \<in> set xs. \<not> P x)"
  by (auto simp: filter_empty_conv)

lemma length_filter_mono:
  "(\<And>x. P x \<Longrightarrow> Q x) \<Longrightarrow> length (filter P xs) \<le> length (filter Q xs)"
  by (induction xs) auto

lemma distinct_map_filterI: "distinct (map f xs) \<Longrightarrow> distinct (map f (filter P xs))"
  by (rule distinct_map_filter)

text \<open>Two members of a list with distinct keys and the same key are the same member.\<close>

lemma distinct_map_key:
  "distinct (map f xs) \<Longrightarrow> x \<in> set xs \<Longrightarrow> y \<in> set xs \<Longrightarrow> f x = f y \<Longrightarrow> x = y"
  by (auto simp: distinct_map dest: inj_onD)

end
