(* ===== verification/TxScope.thy ===== *)
theory TxScope imports Prelude
begin

text \<open>
  The transaction wrappers of \<^verbatim>\<open>internal/db\<close>: \<^verbatim>\<open>WithTenant\<close> and \<^verbatim>\<open>WithPublic\<close>
  (\<^verbatim>\<open>tenant.go\<close>), \<^verbatim>\<open>WithAuthUser\<close> and \<^verbatim>\<open>WithAuthLookup\<close> (\<^verbatim>\<open>auth.go\<close>). As in the Go
  code they depend on an interface (\<^verbatim>\<open>Beginner\<close>, \<^verbatim>\<open>TxBeginner\<close>, \<^verbatim>\<open>pgx.Tx\<close>), which is the
  record \<open>beginner\<close> here: the pgx driver and the database behind it are not part of the
  repository, so they are an argument. The locale \<open>tx_driver\<close> states the documented
  behaviour the wrappers rely on, and their contract is proved once inside it.
\<close>

section \<open>The interface\<close>

datatype db_err = ConnLost | TxClosed | TxAborted | ReadOnlyTx | InsufficientPrivilege
  | UniqueViolation string | ForeignKeyViolation string | CheckViolation string | NotNullViolation string
  | BadScope | BadText | BadJson | NegativeLimit | SyntaxError | UndefinedRole string | UndefinedParameter string

datatype access_mode = ReadWrite | ReadOnly

text \<open>
  The two scope statements of the package are both
  \<^verbatim>\<open>SELECT set_config(name, $1, is_local)\<close>: the parameter's name and the third argument.
\<close>

datatype set_config = SetConfig (guc_name: string) (is_local: bool)

definition setScopeSQL :: set_config where
  "setScopeSQL = SetConfig ''app.shelter_id'' True"

definition setAuthScopeSQL :: set_config where
  "setAuthScopeSQL = SetConfig ''app.user_id'' True"

record 'w beginner =
  begin_tx :: "access_mode \<Rightarrow> 'w \<Rightarrow> db_err option \<times> 'w"
  exec_config :: "set_config \<Rightarrow> string \<Rightarrow> 'w \<Rightarrow> db_err option \<times> 'w"
  commit_tx :: "'w \<Rightarrow> db_err option \<times> 'w"
  rollback_tx :: "'w \<Rightarrow> 'w"

text \<open>How a Go call ends: it returns an error (\<open>None\<close> is \<^verbatim>\<open>nil\<close>), or it panics.\<close>

datatype 'e call = Return "'e option" | Panic

datatype 'e tx_error = ErrNoTenant | ErrNoAuthUser
  | BeginFailed db_err | ScopeFailed db_err | CommitFailed db_err | Callback 'e

section \<open>The wrappers\<close>

text \<open>The deferred function: roll back on a panic and on a non-nil error, and re-raise the panic.\<close>

definition deferred_rollback ::
  "'w beginner \<Rightarrow> 'e tx_error call \<times> 'w \<Rightarrow> 'e tx_error call \<times> 'w" where
  "deferred_rollback d r =
     (case r of
        (Panic, w) \<Rightarrow> (Panic, rollback_tx d w)
      | (Return (Some e), w) \<Rightarrow> (Return (Some e), rollback_tx d w)
      | (Return None, w) \<Rightarrow> (Return None, w))"

text \<open>The tail all four wrappers share: run the callback, then commit.\<close>

definition run_and_commit ::
  "'w beginner \<Rightarrow> ('w \<Rightarrow> 'e call \<times> 'w) \<Rightarrow> 'w \<Rightarrow> 'e tx_error call \<times> 'w" where
  "run_and_commit d fn w =
     (case fn w of
        (Panic, w1) \<Rightarrow> (Panic, w1)
      | (Return (Some e), w1) \<Rightarrow> (Return (Some (Callback e)), w1)
      | (Return None, w1) \<Rightarrow>
          (case commit_tx d w1 of
             (Some e, w2) \<Rightarrow> (Return (Some (CommitFailed e)), w2)
           | (None, w2) \<Rightarrow> (Return None, w2)))"

definition WithTenant ::
  "(uuid \<Rightarrow> string) \<Rightarrow> 'w beginner \<Rightarrow> uuid \<Rightarrow> ('w \<Rightarrow> 'e call \<times> 'w) \<Rightarrow> 'w
   \<Rightarrow> 'e tx_error call \<times> 'w" where
  "WithTenant str d shelterID fn w =
     (if shelterID = uuid_nil then (Return (Some ErrNoTenant), w)
      else (case begin_tx d ReadWrite w of
              (Some e, w1) \<Rightarrow> (Return (Some (BeginFailed e)), w1)
            | (None, w1) \<Rightarrow>
                deferred_rollback d
                  (case exec_config d setScopeSQL (str shelterID) w1 of
                     (Some e, w2) \<Rightarrow> (Return (Some (ScopeFailed e)), w2)
                   | (None, w2) \<Rightarrow> run_and_commit d fn w2)))"

definition WithAuthUser ::
  "(uuid \<Rightarrow> string) \<Rightarrow> 'w beginner \<Rightarrow> uuid \<Rightarrow> ('w \<Rightarrow> 'e call \<times> 'w) \<Rightarrow> 'w
   \<Rightarrow> 'e tx_error call \<times> 'w" where
  "WithAuthUser str d userID fn w =
     (if userID = uuid_nil then (Return (Some ErrNoAuthUser), w)
      else (case begin_tx d ReadWrite w of
              (Some e, w1) \<Rightarrow> (Return (Some (BeginFailed e)), w1)
            | (None, w1) \<Rightarrow>
                deferred_rollback d
                  (case exec_config d setAuthScopeSQL (str userID) w1 of
                     (Some e, w2) \<Rightarrow> (Return (Some (ScopeFailed e)), w2)
                   | (None, w2) \<Rightarrow> run_and_commit d fn w2)))"

definition WithPublic ::
  "'w beginner \<Rightarrow> ('w \<Rightarrow> 'e call \<times> 'w) \<Rightarrow> 'w \<Rightarrow> 'e tx_error call \<times> 'w" where
  "WithPublic d fn w =
     (case begin_tx d ReadOnly w of
        (Some e, w1) \<Rightarrow> (Return (Some (BeginFailed e)), w1)
      | (None, w1) \<Rightarrow> deferred_rollback d (run_and_commit d fn w1))"

definition WithAuthLookup ::
  "'w beginner \<Rightarrow> ('w \<Rightarrow> 'e call \<times> 'w) \<Rightarrow> 'w \<Rightarrow> 'e tx_error call \<times> 'w" where
  "WithAuthLookup d fn w =
     (case begin_tx d ReadOnly w of
        (Some e, w1) \<Rightarrow> (Return (Some (BeginFailed e)), w1)
      | (None, w1) \<Rightarrow> deferred_rollback d (run_and_commit d fn w1))"

text \<open>
  The two scope-setting wrappers differ in their refusal and in their statement only; the common
  shape carries the proof of both contracts, and so do the two read-only wrappers.
\<close>

definition with_scope ::
  "'e tx_error \<Rightarrow> set_config \<Rightarrow> (uuid \<Rightarrow> string) \<Rightarrow> 'w beginner \<Rightarrow> uuid \<Rightarrow> ('w \<Rightarrow> 'e call \<times> 'w) \<Rightarrow> 'w
   \<Rightarrow> 'e tx_error call \<times> 'w" where
  "with_scope err cfg str d u fn w =
     (if u = uuid_nil then (Return (Some err), w)
      else (case begin_tx d ReadWrite w of
              (Some e, w1) \<Rightarrow> (Return (Some (BeginFailed e)), w1)
            | (None, w1) \<Rightarrow>
                deferred_rollback d
                  (case exec_config d cfg (str u) w1 of
                     (Some e, w2) \<Rightarrow> (Return (Some (ScopeFailed e)), w2)
                   | (None, w2) \<Rightarrow> run_and_commit d fn w2)))"

lemma WithTenant_scope [plumbing]: "WithTenant = with_scope ErrNoTenant setScopeSQL"
  by (intro ext) (simp add: WithTenant_def with_scope_def)

lemma WithAuthUser_scope [plumbing]: "WithAuthUser = with_scope ErrNoAuthUser setAuthScopeSQL"
  by (intro ext) (simp add: WithAuthUser_def with_scope_def)

lemma WithAuthLookup_public [plumbing]: "WithAuthLookup = WithPublic"
  by (intro ext) (simp add: WithAuthLookup_def WithPublic_def)

section \<open>Outcomes\<close>

text \<open>The call was turned away before the callback ran.\<close>

definition refused :: "'e tx_error call \<Rightarrow> bool" where
  "refused r \<longleftrightarrow> (case r of
      Return (Some ErrNoTenant) \<Rightarrow> True | Return (Some ErrNoAuthUser) \<Rightarrow> True
    | Return (Some (BeginFailed _)) \<Rightarrow> True | Return (Some (ScopeFailed _)) \<Rightarrow> True
    | _ \<Rightarrow> False)"

text \<open>
  The callback ran once, from \<open>w1\<close>, and the stored data says what the caller was told: all of
  the callback's work after \<^verbatim>\<open>nil\<close>, none of it after the callback's own error or its panic,
  and one of the two when the commit itself failed.
\<close>

definition commit_or_nothing ::
  "('w \<Rightarrow> 'd) \<Rightarrow> ('w \<Rightarrow> 'd) \<Rightarrow> ('w \<Rightarrow> 'e call \<times> 'w) \<Rightarrow> 'w \<Rightarrow> 'w \<Rightarrow> 'e tx_error call \<Rightarrow> 'w \<Rightarrow> bool"
where
  "commit_or_nothing stored pending fn w w1 r w' \<longleftrightarrow>
     (case r of
        Panic \<Rightarrow> fst (fn w1) = Panic \<and> stored w' = stored w
      | Return None \<Rightarrow> fst (fn w1) = Return None \<and> stored w' = pending (snd (fn w1))
      | Return (Some (Callback e)) \<Rightarrow> fst (fn w1) = Return (Some e) \<and> stored w' = stored w
      | Return (Some (CommitFailed _)) \<Rightarrow> fst (fn w1) = Return None
          \<and> (stored w' = stored w \<or> stored w' = pending (snd (fn w1)))
      | Return (Some _) \<Rightarrow> False)"

lemma commit_or_nothing_kept:
  "commit_or_nothing stored pending fn w w1 r w' \<Longrightarrow>
   r = Return None \<or> stored w' = stored w \<or> (\<exists>e. r = Return (Some (CommitFailed e)))"
  by (auto simp: commit_or_nothing_def split: call.splits option.splits tx_error.splits)

section \<open>What the driver promises\<close>

text \<open>
  Observations of a connection: whether a transaction is open, the data as committed, the data
  as the open transaction sees it, the setting a policy reads now, and the setting it would read
  once the open transaction has ended. A lost commit acknowledgement is allowed for: after a
  failed commit the data is either the old or the pending one.
\<close>

locale tx_driver =
  fixes d :: "'w beginner"
    and idle :: "'w \<Rightarrow> bool"
    and in_tx :: "'w \<Rightarrow> bool"
    and stored :: "'w \<Rightarrow> 'd" and pending :: "'w \<Rightarrow> 'd"
    and setting :: "'w \<Rightarrow> string \<Rightarrow> string option"
    and base :: "'w \<Rightarrow> string \<Rightarrow> string option"
  assumes begin_ok: "begin_tx d m w = (None, w') \<Longrightarrow> idle w \<Longrightarrow>
      in_tx w' \<and> stored w' = stored w \<and> pending w' = stored w \<and> base w' = base w \<and> setting w' = base w"
    and begin_fail: "begin_tx d m w = (Some e, w') \<Longrightarrow> idle w \<Longrightarrow>
      idle w' \<and> stored w' = stored w \<and> base w' = base w"
    and exec_ok: "exec_config d (SetConfig n True) v w = (None, w') \<Longrightarrow> in_tx w \<Longrightarrow> v \<noteq> [] \<Longrightarrow>
      in_tx w' \<and> stored w' = stored w \<and> pending w' = pending w \<and> base w' = base w
      \<and> setting w' = (setting w)(n := Some v)"
    and exec_fail: "exec_config d (SetConfig n True) v w = (Some e, w') \<Longrightarrow> in_tx w \<Longrightarrow>
      in_tx w' \<and> stored w' = stored w \<and> base w' = base w"
    and commit_ok: "commit_tx d w = (None, w') \<Longrightarrow> in_tx w \<Longrightarrow>
      idle w' \<and> stored w' = pending w \<and> base w' = base w"
    and commit_fail: "commit_tx d w = (Some e, w') \<Longrightarrow> in_tx w \<Longrightarrow>
      idle w' \<and> (stored w' = stored w \<or> stored w' = pending w) \<and> base w' = base w"
    and rollback_open: "in_tx w \<Longrightarrow>
      idle (rollback_tx d w) \<and> stored (rollback_tx d w) = stored w \<and> base (rollback_tx d w) = base w"
    and rollback_closed: "idle w \<Longrightarrow> rollback_tx d w = w"
begin

text \<open>
  A callback holds only the transaction: it runs statements in it, and neither ends it nor
  changes what the connection reverts to.
\<close>

definition confined :: "('w \<Rightarrow> 'e call \<times> 'w) \<Rightarrow> bool" where
  "confined fn \<longleftrightarrow> (\<forall>w r w'. in_tx w \<longrightarrow> fn w = (r, w') \<longrightarrow>
     in_tx w' \<and> stored w' = stored w \<and> base w' = base w)"

lemma confinedD: "confined fn \<Longrightarrow> in_tx w \<Longrightarrow> fn w = (r, w') \<Longrightarrow>
  in_tx w' \<and> stored w' = stored w \<and> base w' = base w"
  unfolding confined_def by blast

lemma deferred_run_and_commit:
  assumes "confined fn" and "in_tx w"
    and "deferred_rollback d (run_and_commit d fn w) = (r, w')"
  shows "idle w' \<and> base w' = base w \<and> commit_or_nothing stored pending fn w w r w'"
proof -
  obtain r1 w1 where fn: "fn w = (r1, w1)" by force
  then have c: "in_tx w1" "stored w1 = stored w" "base w1 = base w"
    using confinedD [OF assms(1,2) fn] by auto
  obtain ce w2 where cm: "commit_tx d w1 = (ce, w2)" by force
  from fn c cm assms(3) rollback_open [OF c(1)] commit_ok [of w1 w2] commit_fail [of w1 _ w2]
    rollback_closed [of w2]
  show ?thesis
    by (cases r1; cases ce)
      (auto simp: commit_or_nothing_def deferred_rollback_def run_and_commit_def
        split: option.splits call.splits)
qed

text \<open>The contract of the wrappers that set a scope, and of those that set none.\<close>

lemma with_scope_contract:
  assumes fn: "confined fn" and idle: "idle w" and str: "str u \<noteq> []"
    and err: "refused (Return (Some err))"
    and run: "with_scope err (SetConfig n True) str d u fn w = (r, w')"
  shows "idle w' \<and> base w' = base w \<and>
    (stored w' = stored w \<and> refused r \<or>
     (\<exists>w1. in_tx w1 \<and> pending w1 = stored w \<and> stored w1 = stored w
        \<and> setting w1 = (base w)(n := Some (str u))
        \<and> commit_or_nothing stored pending fn w w1 r w'))"
proof (cases "u = uuid_nil")
  case True
  with run idle err show ?thesis by (auto simp: with_scope_def)
next
  case False
  obtain be w1 where b: "begin_tx d ReadWrite w = (be, w1)" by force
  show ?thesis
  proof (cases be)
    case (Some e)
    with b False run begin_fail [of ReadWrite w e w1] idle show ?thesis
      by (auto simp: with_scope_def refused_def)
  next
    case None
    with b begin_ok [of ReadWrite w w1] idle
    have w1: "in_tx w1" "stored w1 = stored w" "pending w1 = stored w" "base w1 = base w"
      "setting w1 = base w" by auto
    obtain ee w2 where x: "exec_config d (SetConfig n True) (str u) w1 = (ee, w2)" by force
    show ?thesis
    proof (cases ee)
      case (Some e)
      with x exec_fail [of n "str u" w1 e w2] w1
      have "in_tx w2" "stored w2 = stored w" "base w2 = base w"
        by auto
      moreover from Some None x b run False
      have "r = Return (Some (ScopeFailed e))" "w' = rollback_tx d w2"
        by (auto simp: with_scope_def deferred_rollback_def)
      ultimately show ?thesis using rollback_open [of w2] by (auto simp: refused_def)
    next
      assume ee: "ee = None"
      with x exec_ok [of n "str u" w1 w2] w1 str
      have w2: "in_tx w2" "stored w2 = stored w" "pending w2 = stored w" "base w2 = base w"
        "setting w2 = (base w)(n := Some (str u))"
        by auto
      from ee None x b run False have "deferred_rollback d (run_and_commit d fn w2) = (r, w')"
        by (simp add: with_scope_def)
      from deferred_run_and_commit [OF fn w2(1) this] w2 show ?thesis
        by (auto simp: commit_or_nothing_def split: call.splits option.splits tx_error.splits)
    qed
  qed
qed

lemma WithPublic_contract:
  assumes fn: "confined fn" and idle: "idle w"
    and run: "WithPublic d fn w = (r, w')"
  shows "idle w' \<and> base w' = base w \<and>
    (stored w' = stored w \<and> refused r \<or>
     (\<exists>w1. begin_tx d ReadOnly w = (None, w1) \<and> setting w1 = base w
        \<and> commit_or_nothing stored pending fn w w1 r w'))"
proof -
  obtain be w1 where b: "begin_tx d ReadOnly w = (be, w1)" by force
  show ?thesis
  proof (cases be)
    case (Some e)
    with b run begin_fail [of ReadOnly w e w1] idle show ?thesis
      by (auto simp: WithPublic_def refused_def)
  next
    case None
    with b begin_ok [of ReadOnly w w1] idle
    have w1: "in_tx w1" "stored w1 = stored w" "base w1 = base w" "setting w1 = base w" by auto
    from None b run have "deferred_rollback d (run_and_commit d fn w1) = (r, w')"
      by (simp add: WithPublic_def)
    from deferred_run_and_commit [OF fn w1(1) this] None b w1 show ?thesis
      by (auto simp: commit_or_nothing_def split: call.splits option.splits tx_error.splits)
  qed
qed

end

section \<open>A driver beside other state\<close>

text \<open>
  A callback may write to something beside the connection, such as the reply of a request: the
  driver leaves that alone, and keeps its promises on the pair.
\<close>

definition beside :: "('e \<times> 'w) \<Rightarrow> 'r \<Rightarrow> 'e \<times> 'r \<times> 'w" where
  "beside x r = (fst x, r, snd x)"

definition paired :: "'w beginner \<Rightarrow> ('r \<times> 'w) beginner" where
  "paired d = \<lparr>begin_tx = (\<lambda>m (r, w). beside (begin_tx d m w) r),
     exec_config = (\<lambda>cfg v (r, w). beside (exec_config d cfg v w) r),
     commit_tx = (\<lambda>(r, w). beside (commit_tx d w) r),
     rollback_tx = (\<lambda>(r, w). (r, rollback_tx d w))\<rparr>"

context tx_driver begin

lemma paired_driver:
  "tx_driver (paired d :: ('r \<times> 'w) beginner) (\<lambda>x. idle (snd x)) (\<lambda>x. in_tx (snd x)) (\<lambda>x. stored (snd x))
     (\<lambda>x. pending (snd x)) (\<lambda>x. setting (snd x)) (\<lambda>x. base (snd x))"
proof (unfold_locales, goal_cases)
  case (1 m x x')
  then show ?case using begin_ok [of m "snd x" "snd x'"]
    by (cases x; cases x') (auto simp: paired_def beside_def prod_eq_iff)
next
  case (2 m x e x')
  then show ?case using begin_fail [of m "snd x" e "snd x'"]
    by (cases x; cases x') (auto simp: paired_def beside_def prod_eq_iff)
next
  case (3 n v x x')
  then show ?case using exec_ok [of n v "snd x" "snd x'"]
    by (cases x; cases x') (auto simp: paired_def beside_def prod_eq_iff)
next
  case (4 n v x e x')
  then show ?case using exec_fail [of n v "snd x" e "snd x'"]
    by (cases x; cases x') (auto simp: paired_def beside_def prod_eq_iff)
next
  case (5 x x')
  then show ?case using commit_ok [of "snd x" "snd x'"]
    by (cases x; cases x') (auto simp: paired_def beside_def prod_eq_iff)
next
  case (6 x e x')
  then show ?case using commit_fail [of "snd x" e "snd x'"]
    by (cases x; cases x') (auto simp: paired_def beside_def prod_eq_iff)
next
  case (7 x)
  then show ?case using rollback_open [of "snd x"] by (cases x) (auto simp: paired_def)
next
  case (8 x)
  then show ?case using rollback_closed [of "snd x"] by (cases x) (auto simp: paired_def)
qed

end

end
