(* ===== verification/PgConn.thy ===== *)
theory PgConn imports TxScope
begin

text \<open>
  A connection of the pool as PostgreSQL and pgx document it: the provider of the
  \<open>tx_driver\<close> interface, and the place the statements of the query layer run in. It has the
  committed data and the open transaction's copy of it, the session-level and
  transaction-local run-time settings (GUCs), the aborted state after a failed statement, the
  advisory locks held to the end of the transaction, and a script of infrastructure faults
  (a connection lost before a statement, a commit acknowledgement lost after it).
\<close>

datatype fault = NoFault | Refuse | LoseAck

record 'd pgconn =
  data :: 'd
  work :: "'d option"
  ro :: bool
  aborted :: bool
  session_guc :: "string \<Rightarrow> string option"
  local_guc :: "string \<Rightarrow> string option"
  staged_guc :: "string \<Rightarrow> string option"
  xact_locks :: "string list"
  clock :: time
  faults :: "fault list"

text \<open>A connection fresh from the pool.\<close>

definition idle_conn :: "'d \<Rightarrow> time \<Rightarrow> fault list \<Rightarrow> 'd pgconn" where
  "idle_conn db now fs =
     \<lparr>data = db, work = None, ro = False, aborted = False,
      session_guc = (\<lambda>_. None), local_guc = (\<lambda>_. None), staged_guc = (\<lambda>_. None),
      xact_locks = [], clock = now, faults = fs\<rparr>"

section \<open>Settings\<close>

text \<open>
  \<^verbatim>\<open>nullif(current_setting(name, true), '')\<close>, as every policy of the schema reads its scope:
  an unset parameter is \<^verbatim>\<open>NULL\<close>, and one whose transaction-local value was reverted is the
  empty string.
\<close>

definition nullif_empty :: "string option \<Rightarrow> string option" where
  "nullif_empty v = (if v = Some [] then None else v)"

definition guc_value :: "('d, 'z) pgconn_scheme \<Rightarrow> string \<Rightarrow> string option" where
  "guc_value c = session_guc c ++ staged_guc c ++ local_guc c"

definition current_setting :: "('d, 'z) pgconn_scheme \<Rightarrow> string \<Rightarrow> string option" where
  "current_setting c n = nullif_empty (guc_value c n)"

definition session_setting :: "('d, 'z) pgconn_scheme \<Rightarrow> string \<Rightarrow> string option" where
  "session_setting c n = nullif_empty (session_guc c n)"

section \<open>Statements that drive the transaction\<close>

definition take_fault :: "('d, 'z) pgconn_scheme \<Rightarrow> fault \<times> ('d, 'z) pgconn_scheme" where
  "take_fault c = (case faults c of [] \<Rightarrow> (NoFault, c) | f # fs \<Rightarrow> (f, c\<lparr>faults := fs\<rparr>))"

text \<open>
  The end of a transaction: locks are released, local settings revert, and a parameter the
  session never set is left as the empty string.
\<close>

definition reverted :: "('d, 'z) pgconn_scheme \<Rightarrow> string \<Rightarrow> string option" where
  "reverted c n =
     (if session_guc c n = None \<and> local_guc c n \<noteq> None then Some [] else session_guc c n)"

definition close_tx :: "('d, 'z) pgconn_scheme \<Rightarrow> ('d, 'z) pgconn_scheme" where
  "close_tx c = c\<lparr>work := None, ro := False, aborted := False,
     session_guc := reverted c, local_guc := (\<lambda>_. None), staged_guc := (\<lambda>_. None),
     xact_locks := []\<rparr>"

definition pg_begin ::
  "access_mode \<Rightarrow> ('d, 'z) pgconn_scheme \<Rightarrow> db_err option \<times> ('d, 'z) pgconn_scheme" where
  "pg_begin m c =
     (case take_fault c of (f, c1) \<Rightarrow>
        if f \<noteq> NoFault then (Some ConnLost, c1)
        else (None, c1\<lparr>work := Some (data c1), ro := (m = ReadOnly), aborted := False,
               local_guc := (\<lambda>_. None), staged_guc := (\<lambda>_. None), xact_locks := []\<rparr>))"

definition pg_exec_config ::
  "set_config \<Rightarrow> string \<Rightarrow> ('d, 'z) pgconn_scheme \<Rightarrow> db_err option \<times> ('d, 'z) pgconn_scheme" where
  "pg_exec_config cfg v c =
     (case take_fault c of (f, c1) \<Rightarrow>
        if work c1 = None then (Some TxClosed, c1)
        else if aborted c1 then (Some TxAborted, c1)
        else if f \<noteq> NoFault then (Some ConnLost, c1\<lparr>aborted := True\<rparr>)
        else if is_local cfg
        then (None, c1\<lparr>local_guc := (local_guc c1)(guc_name cfg \<mapsto> v)\<rparr>)
        else (None, c1\<lparr>local_guc := (local_guc c1)(guc_name cfg := None),
                       staged_guc := (staged_guc c1)(guc_name cfg \<mapsto> v)\<rparr>))"

definition pg_commit ::
  "('d, 'z) pgconn_scheme \<Rightarrow> db_err option \<times> ('d, 'z) pgconn_scheme" where
  "pg_commit c =
     (case take_fault c of (f, c1) \<Rightarrow>
        (case work c1 of
           None \<Rightarrow> (Some TxClosed, c1)
         | Some db \<Rightarrow>
             if aborted c1 then (Some TxAborted, close_tx c1)
             else if f = Refuse then (Some ConnLost, close_tx c1)
             else ((if f = LoseAck then Some ConnLost else None),
                   close_tx (c1\<lparr>data := db, session_guc := session_guc c1 ++ staged_guc c1\<rparr>))))"

definition pg_rollback :: "('d, 'z) pgconn_scheme \<Rightarrow> ('d, 'z) pgconn_scheme" where
  "pg_rollback c = (if work c = None then c else close_tx c)"

definition pg_driver :: "('d, 'z) pgconn_scheme beginner" where
  "pg_driver = \<lparr>begin_tx = pg_begin, exec_config = pg_exec_config,
                commit_tx = pg_commit, rollback_tx = pg_rollback\<rparr>"

section \<open>The driver keeps its promises\<close>

definition pg_idle :: "('d, 'z) pgconn_scheme \<Rightarrow> bool" where
  "pg_idle c \<longleftrightarrow> work c = None"

text \<open>An open transaction in which no session-level setting is waiting for the commit.\<close>

definition pg_open :: "('d, 'z) pgconn_scheme \<Rightarrow> bool" where
  "pg_open c \<longleftrightarrow> work c \<noteq> None \<and> (\<forall>n. staged_guc c n = None)"

definition pg_pending :: "('d, 'z) pgconn_scheme \<Rightarrow> 'd" where
  "pg_pending c = (case work c of None \<Rightarrow> data c | Some db \<Rightarrow> db)"

lemma take_fault_fields [simp]:
  "take_fault c = (f, c1) \<Longrightarrow> data c1 = data c" "take_fault c = (f, c1) \<Longrightarrow> work c1 = work c"
  "take_fault c = (f, c1) \<Longrightarrow> session_guc c1 = session_guc c"
  "take_fault c = (f, c1) \<Longrightarrow> local_guc c1 = local_guc c"
  "take_fault c = (f, c1) \<Longrightarrow> staged_guc c1 = staged_guc c"
  "take_fault c = (f, c1) \<Longrightarrow> aborted c1 = aborted c"
  "take_fault c = (f, c1) \<Longrightarrow> ro c1 = ro c"
  "take_fault c = (f, c1) \<Longrightarrow> xact_locks c1 = xact_locks c"
  "take_fault c = (f, c1) \<Longrightarrow> clock c1 = clock c"
  "take_fault c = (f, c1) \<Longrightarrow> pgconn.more c1 = pgconn.more c"
  by (auto simp: take_fault_def split: list.splits)

lemma reverted_setting: "nullif_empty (reverted c n) = session_setting c n"
  by (simp add: reverted_def nullif_empty_def session_setting_def)

lemma close_tx_fields [simp]:
  "data (close_tx c) = data c" "work (close_tx c) = None"
  "session_guc (close_tx c) = reverted c" "clock (close_tx c) = clock c"
  "pgconn.more (close_tx c) = pgconn.more c" "faults (close_tx c) = faults c"
  by (simp_all add: close_tx_def)

lemma session_setting_close_tx [simp]: "session_setting (close_tx c) = session_setting c"
  by (rule ext) (simp add: session_setting_def [of "close_tx c"] reverted_setting)

lemma current_setting_local:
  assumes "local_guc c' = (local_guc c)(n \<mapsto> v)" and "staged_guc c' = staged_guc c"
    and "session_guc c' = session_guc c" and "v \<noteq> []"
  shows "current_setting c' = (current_setting c)(n := Some v)"
proof -
  from assms have "guc_value c' = (guc_value c)(n \<mapsto> v)" by (simp add: guc_value_def)
  with assms(4) show ?thesis by (auto simp: current_setting_def nullif_empty_def fun_eq_iff)
qed

lemma session_setting_cong: "session_guc c' = session_guc c \<Longrightarrow> session_setting c' = session_setting c"
  by (simp add: session_setting_def fun_eq_iff)

interpretation pg: tx_driver
  "pg_driver :: ('d, 'z) pgconn_scheme beginner"
  pg_idle pg_open data pg_pending current_setting session_setting
proof (unfold_locales, goal_cases)
  case (1 m w w')
  then show ?case
    by (auto simp: pg_driver_def pg_begin_def pg_idle_def pg_open_def pg_pending_def fun_eq_iff
        current_setting_def guc_value_def session_setting_def map_add_def split: prod.splits if_splits)
next
  case (2 m w e w')
  then show ?case
    by (auto simp: pg_driver_def pg_begin_def pg_idle_def fun_eq_iff session_setting_def
        split: prod.splits if_splits)
next
  case (3 n v w w')
  then obtain c1 where c1: "take_fault w = (NoFault, c1)"
    and w': "w' = c1\<lparr>local_guc := (local_guc c1)(n \<mapsto> v)\<rparr>" and "work w \<noteq> None"
    by (auto simp: pg_driver_def pg_exec_config_def split: prod.splits if_splits)
  with 3 show ?case
    using current_setting_local [of w' w n v] session_setting_cong [of w' w]
    by (auto simp: pg_open_def pg_pending_def)
next
  case (4 n v w e w')
  then show ?case
    by (auto simp: pg_driver_def pg_exec_config_def pg_open_def fun_eq_iff session_setting_def
        split: prod.splits if_splits)
next
  case (5 w w')
  then show ?case
    by (auto simp: pg_driver_def pg_commit_def pg_open_def pg_idle_def pg_pending_def fun_eq_iff
        session_setting_def reverted_setting map_add_def
        split: prod.splits if_splits option.splits)
next
  case (6 w e w')
  then show ?case
    by (auto simp: pg_driver_def pg_commit_def pg_open_def pg_idle_def pg_pending_def fun_eq_iff
        session_setting_def reverted_setting map_add_def
        split: prod.splits if_splits option.splits)
next
  case (7 w)
  then show ?case
    by (auto simp: pg_driver_def pg_rollback_def pg_open_def pg_idle_def)
next
  case (8 w)
  then show ?case by (simp add: pg_driver_def pg_rollback_def pg_idle_def)
qed

section \<open>Runs of the scope-setting wrappers\<close>

text \<open>The connection the callback of a wrapper starts from.\<close>

definition scoped_start :: "string \<Rightarrow> string \<Rightarrow> ('d, 'z) pgconn_scheme \<Rightarrow> ('d, 'z) pgconn_scheme \<Rightarrow> bool" where
  "scoped_start n v c c1 \<longleftrightarrow> data c1 = data c \<and> work c1 = Some (data c) \<and> ro c1 = False
     \<and> aborted c1 = False \<and> session_guc c1 = session_guc c \<and> local_guc c1 = [n \<mapsto> v]
     \<and> staged_guc c1 = (\<lambda>_. None) \<and> xact_locks c1 = [] \<and> clock c1 = clock c
     \<and> pgconn.more c1 = pgconn.more c"

lemma scoped_start_open: "scoped_start n v c c1 \<Longrightarrow> pg_open c1"
  by (simp add: scoped_start_def pg_open_def)

lemma scoped_start_setting:
  assumes "scoped_start n v c c1"
  shows "current_setting c1 m = (if m = n then nullif_empty (Some v) else session_setting c m)"
  using assms by (simp add: scoped_start_def current_setting_def guc_value_def session_setting_def map_add_def)

lemma pg_begin_None: "pg_begin m c = (None, c') \<Longrightarrow>
    \<exists>c1. take_fault c = (NoFault, c1) \<and> c' = c1\<lparr>work := Some (data c1), ro := (m = ReadOnly),
      aborted := False, local_guc := (\<lambda>_. None), staged_guc := (\<lambda>_. None), xact_locks := []\<rparr>"
  by (auto simp: pg_begin_def split: prod.splits if_splits)

lemma pg_exec_None: "pg_exec_config (SetConfig n True) v c = (None, c') \<Longrightarrow>
    \<exists>c1. take_fault c = (NoFault, c1) \<and> c' = c1\<lparr>local_guc := (local_guc c1)(n \<mapsto> v)\<rparr>"
  by (auto simp: pg_exec_config_def split: prod.splits if_splits)

lemma pg_scope_enters:
  assumes run: "with_scope err (SetConfig n True) str pg_driver u fn c = (r, c')"
    and err: "refused (Return (Some err))"
  shows "refused r \<or>
    (\<exists>c1. scoped_start n (str u) c c1 \<and> deferred_rollback pg_driver (run_and_commit pg_driver fn c1) = (r, c'))"
proof (cases "u = uuid_nil")
  case True
  with run err show ?thesis by (auto simp: with_scope_def)
next
  case False
  obtain be c1 where b: "pg_begin ReadWrite c = (be, c1)" by force
  obtain ee c2 where x: "pg_exec_config (SetConfig n True) (str u) c1 = (ee, c2)" by force
  show ?thesis
  proof (cases "be = None \<and> ee = None")
    case True
    with b x have "scoped_start n (str u) c c2"
      by (auto simp: scoped_start_def fun_upd_def dest!: pg_begin_None pg_exec_None)
    with True b x False run show ?thesis
      by (auto simp: with_scope_def pg_driver_def)
  next
    case bad: False
    with b x False run show ?thesis
      by (auto simp: with_scope_def pg_driver_def refused_def deferred_rollback_def split: option.splits prod.splits)
  qed
qed

lemma pg_commit_None: "pg_commit c = (None, c') \<Longrightarrow>
    \<exists>db. work c = Some db \<and> data c' = db \<and> work c' = None \<and> pgconn.more c' = pgconn.more c"
  by (auto simp: pg_commit_def split: prod.splits option.splits if_splits)

lemma pg_run_committed:
  assumes "deferred_rollback pg_driver (run_and_commit pg_driver fn c1) = (Return None, c')"
  shows "\<exists>c2 db. fn c1 = (Return None, c2) \<and> work c2 = Some db \<and> data c' = db \<and> pg_idle c'
    \<and> pgconn.more c' = pgconn.more c2"
proof -
  from assms obtain c2 c3 where "fn c1 = (Return None, c2)" "pg_commit c2 = (None, c3)" "c' = c3"
    by (auto simp: deferred_rollback_def run_and_commit_def pg_driver_def
        split: prod.splits option.splits call.splits)
  with pg_commit_None [of c2 c3] show ?thesis by (auto simp: pg_idle_def)
qed

lemma pg_commit_any: "pg_commit c = (e, c') \<Longrightarrow> work c \<noteq> None \<Longrightarrow>
    work c' = None \<and> pgconn.more c' = pgconn.more c
    \<and> (data c' = data c \<and> e \<noteq> None \<or> work c = Some (data c'))"
  by (auto simp: pg_commit_def split: prod.splits option.splits if_splits)

lemma pg_run_any:
  assumes run: "deferred_rollback pg_driver (run_and_commit pg_driver fn c1) = (r, c')"
    and fn: "fn c1 = (r1, c2)" and c2: "data c2 = data c1" "work c2 \<noteq> None"
  shows "pg_idle c' \<and> (data c' = data c1 \<and> r \<noteq> Return None
    \<or> r1 = Return None \<and> work c2 = Some (data c') \<and> pgconn.more c' = pgconn.more c2)"
proof (cases "r1 = Return None")
  case True
  obtain e c3 where cm: "pg_commit c2 = (e, c3)" by force
  from pg_commit_any [OF cm c2(2)] run fn True cm c2 show ?thesis
    by (cases e) (auto simp: deferred_rollback_def run_and_commit_def pg_driver_def pg_idle_def
        pg_rollback_def)
next
  case False
  with run fn c2 show ?thesis
    by (auto simp: deferred_rollback_def run_and_commit_def pg_driver_def pg_idle_def pg_rollback_def
        split: call.splits option.splits)
qed

text \<open>Without faults the wrapper runs its callback, and commits when it returns nil.\<close>

lemma pg_scope_healthy:
  assumes "faults c = []" and "u \<noteq> uuid_nil"
  shows "\<exists>c1. scoped_start n (str u) c c1 \<and> faults c1 = []
    \<and> with_scope err (SetConfig n True) str pg_driver u fn c
      = deferred_rollback pg_driver (run_and_commit pg_driver fn c1)"
  by (rule exI [of _ "c\<lparr>work := Some (data c), ro := False, aborted := False,
      staged_guc := (\<lambda>_. None), xact_locks := [], local_guc := [n \<mapsto> str u]\<rparr>"])
    (use assms in \<open>simp add: with_scope_def pg_driver_def pg_begin_def pg_exec_config_def
       take_fault_def scoped_start_def\<close>)

lemma pg_commit_healthy:
  assumes "fn c1 = (Return None, c2)" and "work c2 = Some db" and "\<not> aborted c2" and "faults c2 = []"
  shows "\<exists>c'. deferred_rollback pg_driver (run_and_commit pg_driver fn c1) = (Return None, c')
    \<and> data c' = db \<and> pg_idle c' \<and> pgconn.more c' = pgconn.more c2"
  using assms by (simp add: deferred_rollback_def run_and_commit_def pg_driver_def pg_commit_def
      take_fault_def pg_rollback_def pg_idle_def)

end
