(* ===== verification/TxProps.thy ===== *)
theory TxProps imports PgConn
begin

text \<open>
  What the four transaction wrappers of \<^verbatim>\<open>internal/db\<close> guarantee on a pooled connection:
  the scope a callback runs under, that nothing of it outlives the transaction, and that the
  callback's work is stored completely or not at all. The proofs are the lemmas of
  \<open>tx_driver\<close>, read off its interpretation on the connection model.
\<close>

text \<open>C6: A request for a tenant either is turned away with nothing stored, or runs its callback
  exactly once under that tenant's scope and no other setting of its own, and then stores all of
  the callback's work or none of it; afterwards the connection is idle and unscoped.\<close>

theorem WithTenant_contract:
  assumes "pg.confined fn" and "pg_idle c" and "str shelterID \<noteq> []"
    and "WithTenant str pg_driver shelterID fn c = (r, c')"
  shows "pg_idle c' \<and> session_setting c' = session_setting c \<and>
    (data c' = data c \<and> refused r \<or>
     (\<exists>c1. pg_pending c1 = data c \<and> current_setting c1 = (session_setting c)(''app.shelter_id'' \<mapsto> str shelterID)
        \<and> commit_or_nothing data pg_pending fn c c1 r c'))"
  using pg.with_scope_contract [where str = str, OF assms(1-3), of ErrNoTenant "''app.shelter_id''" r c'] assms(4)
  by (auto simp: WithTenant_scope setScopeSQL_def refused_def)

text \<open>The same for the auth door, whose scope is the user and never a shelter.\<close>

theorem WithAuthUser_contract:
  assumes "pg.confined fn" and "pg_idle c" and "str userID \<noteq> []"
    and "WithAuthUser str pg_driver userID fn c = (r, c')"
  shows "pg_idle c' \<and> session_setting c' = session_setting c \<and>
    (data c' = data c \<and> refused r \<or>
     (\<exists>c1. pg_pending c1 = data c \<and> current_setting c1 = (session_setting c)(''app.user_id'' \<mapsto> str userID)
        \<and> commit_or_nothing data pg_pending fn c c1 r c'))"
  using pg.with_scope_contract [where str = str, OF assms(1-3), of ErrNoAuthUser "''app.user_id''" r c'] assms(4)
  by (auto simp: WithAuthUser_scope setAuthScopeSQL_def refused_def)

text \<open>Without a tenant, or without a user, the wrappers that need one return their error and
  touch nothing, whatever driver and callback they are given: no transaction is ever begun.\<close>

theorem no_scope_without_identity:
  "WithTenant str d uuid_nil fn w = (Return (Some ErrNoTenant), w)
   \<and> WithAuthUser str d uuid_nil fn w = (Return (Some ErrNoAuthUser), w)"
  by (simp add: WithTenant_def WithAuthUser_def)

section \<open>A pooled connection over its lifetime\<close>

datatype ('w, 'e) pool_call = TenantCall uuid "'w \<Rightarrow> 'e call \<times> 'w" | AuthCall uuid "'w \<Rightarrow> 'e call \<times> 'w"
  | PublicCall "'w \<Rightarrow> 'e call \<times> 'w" | LookupCall "'w \<Rightarrow> 'e call \<times> 'w"

fun callback_of :: "('w, 'e) pool_call \<Rightarrow> 'w \<Rightarrow> 'e call \<times> 'w" where
  "callback_of (TenantCall u fn) = fn"
| "callback_of (AuthCall u fn) = fn"
| "callback_of (PublicCall fn) = fn"
| "callback_of (LookupCall fn) = fn"

fun make_call :: "(uuid \<Rightarrow> string) \<Rightarrow> 'w beginner \<Rightarrow> ('w, 'e) pool_call \<Rightarrow> 'w \<Rightarrow> 'e tx_error call \<times> 'w" where
  "make_call str d (TenantCall u fn) w = WithTenant str d u fn w"
| "make_call str d (AuthCall u fn) w = WithAuthUser str d u fn w"
| "make_call str d (PublicCall fn) w = WithPublic d fn w"
| "make_call str d (LookupCall fn) w = WithAuthLookup d fn w"

primrec make_calls :: "(uuid \<Rightarrow> string) \<Rightarrow> 'w beginner \<Rightarrow> ('w, 'e) pool_call list \<Rightarrow> 'w \<Rightarrow> 'w" where
  "make_calls str d [] w = w"
| "make_calls str d (k # ks) w = make_calls str d ks (snd (make_call str d k w))"

lemma make_call_clean:
  assumes "pg.confined (callback_of k)" and "pg_idle c" and "\<And>u. str u \<noteq> []"
    and "make_call str pg_driver k c = (r, c')"
  shows "pg_idle c' \<and> session_setting c' = session_setting c"
proof (cases k)
  case (TenantCall u fn)
  with assms pg.with_scope_contract [of fn c str u ErrNoTenant "''app.shelter_id''" r c'] show ?thesis
    by (auto simp: WithTenant_scope setScopeSQL_def refused_def)
next
  case (AuthCall u fn)
  with assms pg.with_scope_contract [of fn c str u ErrNoAuthUser "''app.user_id''" r c'] show ?thesis
    by (auto simp: WithAuthUser_scope setAuthScopeSQL_def refused_def)
next
  case (PublicCall fn)
  with assms pg.WithPublic_contract [of fn c r c'] show ?thesis by auto
next
  case (LookupCall fn)
  with assms pg.WithPublic_contract [of fn c r c'] show ?thesis by (auto simp: WithAuthLookup_public)
qed

lemma make_calls_clean:
  assumes "\<forall>k \<in> set ks. pg.confined (callback_of k)" and "pg_idle c" and "\<And>u. str u \<noteq> []"
  shows "pg_idle (make_calls str pg_driver ks c)
    \<and> session_setting (make_calls str pg_driver ks c) = session_setting c"
  using assms(1,2)
proof (induction ks arbitrary: c)
  case (Cons k ks)
  obtain r c1 where k: "make_call str pg_driver k c = (r, c1)" by force
  from make_call_clean [OF _ Cons.prems(2) assms(3) k] Cons.prems(1)
  have "pg_idle c1" "session_setting c1 = session_setting c" by auto
  with Cons k show ?case by simp
qed simp

text \<open>C7: However many calls a pooled connection has served, for whatever tenants and users and with
  whatever failures and panics, no scope is left on it: the next public read starts its
  transaction with no tenant and no user set at all.\<close>

theorem pooled_connection_never_leaks:
  assumes "\<forall>k \<in> set ks. pg.confined (callback_of k)" and "\<And>u. str u \<noteq> []"
    and "pg.confined fn" and "WithPublic pg_driver fn (make_calls str pg_driver ks (idle_conn db now fs)) = (r, c')"
  shows "refused r \<or> (\<exists>c1. current_setting c1 = (\<lambda>_. None)
      \<and> commit_or_nothing data pg_pending fn (make_calls str pg_driver ks (idle_conn db now fs)) c1 r c')"
proof -
  have "pg_idle (idle_conn db now fs)" and "session_setting (idle_conn db now fs) = (\<lambda>_. None)"
    by (simp_all add: idle_conn_def pg_idle_def session_setting_def nullif_empty_def fun_eq_iff)
  with make_calls_clean [where str = str, OF assms(1) _ assms(2), of "idle_conn db now fs"]
    pg.WithPublic_contract [OF assms(3) _ assms(4)]
  show ?thesis by auto
qed

section \<open>Worked examples\<close>

text \<open>A callback that writes one value into its transaction, and one that panics after writing.\<close>

definition write_value :: "nat \<Rightarrow> nat pgconn \<Rightarrow> unit call \<times> nat pgconn" where
  "write_value n c = (Return None, c\<lparr>work := map_option (\<lambda>_. n) (work c)\<rparr>)"

definition write_and_panic :: "nat \<Rightarrow> nat pgconn \<Rightarrow> unit call \<times> nat pgconn" where
  "write_and_panic n c = (Panic, c\<lparr>work := map_option (\<lambda>_. n) (work c)\<rparr>)"

lemma write_confined: "pg.confined (write_value n)" "pg.confined (write_and_panic n)"
  unfolding pg.confined_def write_value_def write_and_panic_def
  by (auto simp: pg_open_def intro: session_setting_cong)

lemma fresh_conn [simp]: "pg_idle (idle_conn db t fs)" "data (idle_conn db t fs) = db"
  by (simp_all add: idle_conn_def pg_idle_def)

theorem WithTenant_contract_witness:
  "pg_idle (snd (WithTenant uuid_bytes pg_driver 3 (write_value 9) (idle_conn 4 0 [NoFault, NoFault, LoseAck])))"
  using WithTenant_contract [OF write_confined(1) fresh_conn(1) _ surjective_pairing, of uuid_bytes 3]
  by (metis length_0_conv length_uuid_bytes zero_neq_numeral)

theorem WithAuthUser_contract_witness:
  "data (snd (WithAuthUser uuid_bytes pg_driver 3 (write_and_panic 9) (idle_conn 4 0 []))) = 4"
proof -
  have panic: "fst (WithAuthUser uuid_bytes pg_driver 3 (write_and_panic 9) (idle_conn 4 0 [])) = Panic"
    by (simp add: WithAuthUser_def uuid_nil_def pg_driver_def pg_begin_def pg_exec_config_def idle_conn_def
        take_fault_def deferred_rollback_def run_and_commit_def write_and_panic_def setAuthScopeSQL_def)
  have ne: "uuid_bytes 3 \<noteq> []" by (metis length_0_conv length_uuid_bytes zero_neq_numeral)
  from WithAuthUser_contract [where str = uuid_bytes, OF write_confined(2) fresh_conn(1) ne surjective_pairing,
      of 9 4 0 "[]"]
  show ?thesis unfolding panic by (auto simp: refused_def commit_or_nothing_def)
qed

theorem pooled_connection_never_leaks_witness:
  "\<exists>c1. current_setting c1 = (\<lambda>_. None) \<and> commit_or_nothing data pg_pending (write_value 9)
      (make_calls uuid_bytes pg_driver [TenantCall 3 (write_value 9)] (idle_conn 4 0 [])) c1 (Return None)
      (snd (WithPublic pg_driver (write_value 9)
        (make_calls uuid_bytes pg_driver [TenantCall 3 (write_value 9)] (idle_conn 4 0 []))))"
proof -
  let ?c = "make_calls uuid_bytes pg_driver [TenantCall 3 (write_value 9)] (idle_conn 4 0 [])"
  have ok: "fst (WithPublic pg_driver (write_value 9) ?c) = Return None"
    by (simp add: WithPublic_def WithTenant_def uuid_nil_def pg_driver_def pg_begin_def pg_exec_config_def
        idle_conn_def take_fault_def deferred_rollback_def run_and_commit_def write_value_def
        setScopeSQL_def pg_commit_def close_tx_def)
  have ne: "uuid_bytes u \<noteq> []" for u by (metis length_0_conv length_uuid_bytes zero_neq_numeral)
  from pooled_connection_never_leaks [where str = uuid_bytes and db = 4 and now = 0 and fs = "[]"
      and ks = "[TenantCall 3 (write_value 9)]", OF _ ne write_confined(1) surjective_pairing, of 9] write_confined
  show ?thesis unfolding ok by (auto simp: refused_def)
qed

end
