(* ===== verification/AuthStore.thy ===== *)
theory AuthStore imports PgConn
begin

text \<open>
  The tables behind the auth door and the statements of \<^verbatim>\<open>sqlcgen/auth.sql.go\<close>, one
  definition per query, with the row-level policies, constraints and indexes the migrations put
  on them (00002, 00013, 00014, 00017): \<^verbatim>\<open>refresh_tokens\<close> is read and written through
  \<^verbatim>\<open>user_id = nullif(current_setting('app.user_id', true), '')::uuid\<close>, carries a unique
  \<^verbatim>\<open>token_hash\<close> and at most one live row per \<^verbatim>\<open>family_id\<close>;
  \<^verbatim>\<open>totp_recovery_codes\<close> is scoped the same way and carries a unique \<^verbatim>\<open>code_hash\<close>.
  A NULL column is \<open>None\<close>; \<^verbatim>\<open>now()\<close> is the transaction's clock.
\<close>

section \<open>Rows\<close>

record refresh_token =
  rt_id :: uuid
  rt_user_id :: uuid
  token_hash :: bytes
  family_id :: uuid
  expires_at :: "time option"
  revoked_at :: "time option"
  replaced_by :: "uuid option"
  rt_user_agent :: "string option"
  rt_ip_hash :: "bytes option"
  rt_created_at :: "time option"

record recovery_row =
  rc_id :: uuid
  rc_user_id :: uuid
  code_hash :: bytes
  used_at :: "time option"
  rc_created_at :: "time option"

record authdb =
  refresh_tokens :: "refresh_token list"
  recovery_codes :: "recovery_row list"
  user_ids :: "uuid list"

definition live :: "refresh_token \<Rightarrow> bool" where
  "live r \<longleftrightarrow> revoked_at r = None"

definition unused :: "recovery_row \<Rightarrow> bool" where
  "unused r \<longleftrightarrow> used_at r = None"

section \<open>Running a statement\<close>

text \<open>
  A statement needs an open, unaborted transaction. Any error, of the infrastructure or of the
  statement itself, aborts the transaction; \<open>writes\<close> marks statements a read-only transaction
  refuses.
\<close>

definition run_stmt ::
  "bool \<Rightarrow> ('d \<Rightarrow> db_err + 'a \<times> 'd) \<Rightarrow> ('d, 'z) pgconn_scheme \<Rightarrow> (db_err + 'a) \<times> ('d, 'z) pgconn_scheme"
where
  "run_stmt writes f c =
     (case take_fault c of (flt, c1) \<Rightarrow>
        (case work c1 of
           None \<Rightarrow> (Inl TxClosed, c1)
         | Some db \<Rightarrow>
             if aborted c1 then (Inl TxAborted, c1)
             else if flt \<noteq> NoFault then (Inl ConnLost, c1\<lparr>aborted := True\<rparr>)
             else if writes \<and> ro c1 then (Inl ReadOnlyTx, c1\<lparr>aborted := True\<rparr>)
             else (case f db of
                     Inl e \<Rightarrow> (Inl e, c1\<lparr>aborted := True\<rparr>)
                   | Inr (a, db') \<Rightarrow> (Inr a, c1\<lparr>work := Some db'\<rparr>))))"

text \<open>The scope the \<^verbatim>\<open>app_auth\<close> policies compare with; \<open>cast\<close> is PostgreSQL's \<^verbatim>\<open>::uuid\<close>.\<close>

definition auth_scope :: "(string \<Rightarrow> uuid option) \<Rightarrow> ('d, 'z) pgconn_scheme \<Rightarrow> db_err + uuid option" where
  "auth_scope cast c =
     (case current_setting c ''app.user_id'' of
        None \<Rightarrow> Inr None
      | Some v \<Rightarrow> (case cast v of None \<Rightarrow> Inl BadScope | Some u \<Rightarrow> Inr (Some u)))"

definition run_auth ::
  "(string \<Rightarrow> uuid option) \<Rightarrow> bool \<Rightarrow> (uuid option \<Rightarrow> 'd \<Rightarrow> db_err + 'a \<times> 'd)
   \<Rightarrow> ('d, 'z) pgconn_scheme \<Rightarrow> (db_err + 'a) \<times> ('d, 'z) pgconn_scheme" where
  "run_auth cast writes f c =
     run_stmt writes (\<lambda>db. case auth_scope cast c of Inl e \<Rightarrow> Inl e | Inr s \<Rightarrow> f s db) c"

section \<open>refresh_tokens\<close>

text \<open>Policy \<^verbatim>\<open>auth_own_sessions\<close>: a comparison with NULL is not true.\<close>

definition own_session :: "uuid option \<Rightarrow> refresh_token \<Rightarrow> bool" where
  "own_session s r \<longleftrightarrow> s = Some (rt_user_id r)"

definition sql_GetRefreshTokenByHash ::
  "bytes \<Rightarrow> uuid option \<Rightarrow> authdb \<Rightarrow> db_err + refresh_token option \<times> authdb" where
  "sql_GetRefreshTokenByHash h s db =
     Inr (find (\<lambda>r. own_session s r \<and> token_hash r = h) (refresh_tokens db), db)"

definition sql_InsertRefreshToken ::
  "refresh_token \<Rightarrow> uuid option \<Rightarrow> authdb \<Rightarrow> db_err + unit \<times> authdb" where
  "sql_InsertRefreshToken r s db =
     (if \<not> own_session s r then Inl InsufficientPrivilege
      else if rt_id r \<in> set (map rt_id (refresh_tokens db))
      then Inl (UniqueViolation ''refresh_tokens_pkey'')
      else if token_hash r \<in> set (map token_hash (refresh_tokens db))
      then Inl (UniqueViolation ''refresh_tokens_token_hash_key'')
      else if live r \<and> family_id r \<in> set (map family_id (filter live (refresh_tokens db)))
      then Inl (UniqueViolation ''one_live_token_per_family'')
      else if rt_user_id r \<notin> set (user_ids db)
      then Inl (ForeignKeyViolation ''refresh_tokens_user_id_fkey'')
      else Inr ((), db\<lparr>refresh_tokens := refresh_tokens db @ [r]\<rparr>))"

text \<open>An UPDATE over the visible rows that match: the rows affected, and the table after.\<close>

definition update_tokens ::
  "(refresh_token \<Rightarrow> bool) \<Rightarrow> (refresh_token \<Rightarrow> refresh_token) \<Rightarrow> authdb \<Rightarrow> nat \<times> authdb" where
  "update_tokens P f db =
     (length (filter P (refresh_tokens db)),
      db\<lparr>refresh_tokens := map (\<lambda>r. if P r then f r else r) (refresh_tokens db)\<rparr>)"

definition sql_RevokeRefreshTokenFamily ::
  "time \<Rightarrow> uuid \<Rightarrow> uuid option \<Rightarrow> authdb \<Rightarrow> db_err + nat \<times> authdb" where
  "sql_RevokeRefreshTokenFamily now fam s db =
     Inr (update_tokens (\<lambda>r. own_session s r \<and> family_id r = fam \<and> live r)
            (\<lambda>r. r\<lparr>revoked_at := Some now\<rparr>) db)"

definition sql_RevokeRefreshTokenIfLive ::
  "time \<Rightarrow> uuid \<Rightarrow> uuid option \<Rightarrow> authdb \<Rightarrow> db_err + nat \<times> authdb" where
  "sql_RevokeRefreshTokenIfLive now i s db =
     Inr (update_tokens (\<lambda>r. own_session s r \<and> rt_id r = i \<and> live r)
            (\<lambda>r. r\<lparr>revoked_at := Some now\<rparr>) db)"

definition sql_SetRefreshTokenReplacedBy ::
  "uuid \<Rightarrow> uuid \<Rightarrow> uuid option \<Rightarrow> authdb \<Rightarrow> db_err + unit \<times> authdb" where
  "sql_SetRefreshTokenReplacedBy i by_id s db =
     (let P = (\<lambda>r. own_session s r \<and> rt_id r = i) in
      if filter P (refresh_tokens db) \<noteq> [] \<and> by_id \<notin> set (map rt_id (refresh_tokens db))
      then Inl (ForeignKeyViolation ''refresh_tokens_replaced_by_fkey'')
      else Inr ((), snd (update_tokens P (\<lambda>r. r\<lparr>replaced_by := Some by_id\<rparr>) db)))"

text \<open>The query methods, each one statement on the connection of the open transaction.\<close>

definition GetRefreshTokenByHash where
  "GetRefreshTokenByHash cast h c = run_auth cast False (sql_GetRefreshTokenByHash h) c"

definition InsertRefreshToken where
  "InsertRefreshToken cast r c = run_auth cast True (sql_InsertRefreshToken r) c"

definition RevokeRefreshTokenFamily where
  "RevokeRefreshTokenFamily cast fam c =
     run_auth cast True (sql_RevokeRefreshTokenFamily (clock c) fam) c"

definition RevokeRefreshTokenIfLive where
  "RevokeRefreshTokenIfLive cast i c =
     run_auth cast True (sql_RevokeRefreshTokenIfLive (clock c) i) c"

definition SetRefreshTokenReplacedBy where
  "SetRefreshTokenReplacedBy cast i by_id c =
     run_auth cast True (sql_SetRefreshTokenReplacedBy i by_id) c"

text \<open>\<^verbatim>\<open>pg_advisory_xact_lock\<close>: one connection alone never waits; the lock is held to the end.\<close>

definition LockRefreshTokenFamily ::
  "string \<Rightarrow> ('d, 'z) pgconn_scheme \<Rightarrow> (db_err + unit) \<times> ('d, 'z) pgconn_scheme" where
  "LockRefreshTokenFamily key c =
     (case run_stmt False (\<lambda>db. Inr ((), db)) c of
        (Inl e, c1) \<Rightarrow> (Inl e, c1)
      | (Inr _, c1) \<Rightarrow> (Inr (), c1\<lparr>xact_locks := key # xact_locks c1\<rparr>))"

section \<open>totp_recovery_codes\<close>

definition own_code :: "uuid option \<Rightarrow> recovery_row \<Rightarrow> bool" where
  "own_code s r \<longleftrightarrow> s = Some (rc_user_id r)"

definition sql_DeleteRecoveryCodesForUser ::
  "uuid \<Rightarrow> uuid option \<Rightarrow> authdb \<Rightarrow> db_err + nat \<times> authdb" where
  "sql_DeleteRecoveryCodesForUser u s db =
     (let P = (\<lambda>r. own_code s r \<and> rc_user_id r = u) in
      Inr (length (filter P (recovery_codes db)),
           db\<lparr>recovery_codes := filter (\<lambda>r. \<not> P r) (recovery_codes db)\<rparr>))"

definition sql_InsertRecoveryCode ::
  "recovery_row \<Rightarrow> uuid option \<Rightarrow> authdb \<Rightarrow> db_err + unit \<times> authdb" where
  "sql_InsertRecoveryCode r s db =
     (if \<not> own_code s r then Inl InsufficientPrivilege
      else if rc_id r \<in> set (map rc_id (recovery_codes db))
      then Inl (UniqueViolation ''totp_recovery_codes_pkey'')
      else if code_hash r \<in> set (map code_hash (recovery_codes db))
      then Inl (UniqueViolation ''totp_recovery_codes_code_hash_key'')
      else if rc_user_id r \<notin> set (user_ids db)
      then Inl (ForeignKeyViolation ''totp_recovery_codes_user_id_fkey'')
      else Inr ((), db\<lparr>recovery_codes := recovery_codes db @ [r]\<rparr>))"

definition sql_RedeemRecoveryCode ::
  "time \<Rightarrow> bytes \<Rightarrow> uuid option \<Rightarrow> authdb \<Rightarrow> db_err + nat \<times> authdb" where
  "sql_RedeemRecoveryCode now h s db =
     (let P = (\<lambda>r. own_code s r \<and> code_hash r = h \<and> unused r) in
      Inr (length (filter P (recovery_codes db)),
           db\<lparr>recovery_codes :=
             map (\<lambda>r. if P r then r\<lparr>used_at := Some now\<rparr> else r) (recovery_codes db)\<rparr>))"

definition sql_GetRecoveryCodeByHash ::
  "bytes \<Rightarrow> uuid option \<Rightarrow> authdb \<Rightarrow> db_err + recovery_row option \<times> authdb" where
  "sql_GetRecoveryCodeByHash h s db = Inr (find (\<lambda>r. own_code s r \<and> code_hash r = h) (recovery_codes db), db)"

definition GetRecoveryCodeByHash where
  "GetRecoveryCodeByHash cast h c = run_auth cast False (sql_GetRecoveryCodeByHash h) c"

definition DeleteRecoveryCodesForUser where
  "DeleteRecoveryCodesForUser cast u c = run_auth cast True (sql_DeleteRecoveryCodesForUser u) c"

definition InsertRecoveryCode where
  "InsertRecoveryCode cast r c = run_auth cast True (sql_InsertRecoveryCode r) c"

definition RedeemRecoveryCode_sql where
  "RedeemRecoveryCode_sql cast h c = run_auth cast True (sql_RedeemRecoveryCode (clock c) h) c"

lemma own_session_Some [simp]: "own_session (Some u) r \<longleftrightarrow> rt_user_id r = u"
  by (auto simp: own_session_def)

lemma own_code_Some [simp]: "own_code (Some u) r \<longleftrightarrow> rc_user_id r = u"
  by (auto simp: own_code_def)

section \<open>What the constraints keep\<close>

text \<open>The invariant of the two tables: keys unique, one live token per family, links resolved.\<close>

definition tokens_ok :: "refresh_token list \<Rightarrow> bool" where
  "tokens_ok ts \<longleftrightarrow> distinct (map rt_id ts) \<and> distinct (map token_hash ts)
     \<and> distinct (map family_id (filter live ts))
     \<and> (\<forall>r \<in> set ts. \<forall>i. replaced_by r = Some i \<longrightarrow> i \<in> set (map rt_id ts))"

definition codes_ok :: "recovery_row list \<Rightarrow> bool" where
  "codes_ok cs \<longleftrightarrow> distinct (map rc_id cs) \<and> distinct (map code_hash cs)"

definition authdb_ok :: "authdb \<Rightarrow> bool" where
  "authdb_ok db \<longleftrightarrow> tokens_ok (refresh_tokens db) \<and> codes_ok (recovery_codes db)"

lemma map_update_same:
  "(\<And>r. g (f r) = g r) \<Longrightarrow> map g (map (\<lambda>r. if P r then f r else r) ts) = map g ts"
  by (induction ts) auto

lemma filter_live_revoked:
  "filter live (map (\<lambda>r. if P r then r\<lparr>revoked_at := Some n\<rparr> else r) ts)
   = filter (\<lambda>r. \<not> P r) (filter live ts)"
  by (induction ts) (auto simp: live_def)

lemma filter_live_relinked:
  "filter live (map (\<lambda>r. if P r then r\<lparr>replaced_by := i\<rparr> else r) ts)
   = map (\<lambda>r. if P r then r\<lparr>replaced_by := i\<rparr> else r) (filter live ts)"
  by (induction ts) (auto simp: live_def)

lemma tokens_ok_revoke:
  assumes "tokens_ok ts"
  shows "tokens_ok (map (\<lambda>r. if P r then r\<lparr>revoked_at := Some n\<rparr> else r) ts)"
proof -
  let ?f = "\<lambda>r. if P r then r\<lparr>revoked_at := Some n\<rparr> else r"
  have "map rt_id (map ?f ts) = map rt_id ts" "map token_hash (map ?f ts) = map token_hash ts"
    by (rule map_update_same; simp)+
  moreover have "distinct (map family_id (filter (\<lambda>r. \<not> P r) (filter live ts)))"
    using assms by (simp add: tokens_ok_def distinct_map_filterI del: filter_filter)
  ultimately show ?thesis
    using assms unfolding tokens_ok_def filter_live_revoked
    by (auto simp del: map_map split: if_splits)
qed

lemma tokens_ok_relink:
  assumes "tokens_ok ts" and "i \<in> set (map rt_id ts)"
  shows "tokens_ok (map (\<lambda>r. if P r then r\<lparr>replaced_by := Some i\<rparr> else r) ts)"
proof -
  let ?f = "\<lambda>r. if P r then r\<lparr>replaced_by := Some i\<rparr> else r"
  have "map rt_id (map ?f ts) = map rt_id ts" "map token_hash (map ?f ts) = map token_hash ts"
    and "map family_id (map ?f (filter live ts)) = map family_id (filter live ts)"
    by (rule map_update_same; simp)+
  then show ?thesis
    using assms unfolding tokens_ok_def filter_live_relinked
    by (auto simp del: map_map split: if_splits)
qed

lemma tokens_ok_insert:
  assumes "tokens_ok ts" and "rt_id r \<notin> set (map rt_id ts)"
    and "token_hash r \<notin> set (map token_hash ts)"
    and "live r \<Longrightarrow> family_id r \<notin> set (map family_id (filter live ts))" and "replaced_by r = None"
  shows "tokens_ok (ts @ [r])"
  using assms unfolding tokens_ok_def by auto

end
