(* ===== verification/AuthStmts.thy ===== *)
theory AuthStmts imports AuthStore
begin

text \<open>
  How the code sequences statements, and what a statement may do to its connection: the frame
  (which parts no statement touches), the effect of a successful statement inside
  \<^verbatim>\<open>WithAuthUser\<close>, and the success of a statement on a healthy connection. The proofs about
  the auth door use these facts instead of the connection's details.
\<close>

section \<open>Sequencing\<close>

text \<open>Go's \<^verbatim>\<open>if err != nil { return ... }\<close> after a call that threads the connection.\<close>

definition and_then ::
  "('e + 'a) \<times> 'w \<Rightarrow> ('a \<Rightarrow> 'w \<Rightarrow> ('e + 'b) \<times> 'w) \<Rightarrow> ('e + 'b) \<times> 'w" where
  "and_then m k = (case m of (Inl e, w) \<Rightarrow> (Inl e, w) | (Inr a, w) \<Rightarrow> k a w)"

definition wrapped :: "('e \<Rightarrow> 'f) \<Rightarrow> ('e + 'a) \<times> 'w \<Rightarrow> ('f + 'a) \<times> 'w" where
  "wrapped f m = (case m of (Inl e, w) \<Rightarrow> (Inl (f e), w) | (Inr a, w) \<Rightarrow> (Inr a, w))"

lemma and_then_simps [simp]:
  "and_then (Inl e, w) k = (Inl e, w)" "and_then (Inr a, w) k = k a w"
  by (simp_all add: and_then_def)

lemma wrapped_simps [simp]:
  "wrapped f (Inl e, w) = (Inl (f e), w)" "wrapped f (Inr a, w) = (Inr a, w)"
  by (simp_all add: wrapped_def)

lemma and_then_Inr:
  "and_then m k = (Inr b, w') \<longleftrightarrow> (\<exists>a w. m = (Inr a, w) \<and> k a w = (Inr b, w'))"
  by (auto simp: and_then_def split: prod.splits sum.splits)

lemma wrapped_Inr: "wrapped f m = (Inr a, w) \<longleftrightarrow> m = (Inr a, w)"
  by (auto simp: wrapped_def split: prod.splits sum.splits)

section \<open>Statements on a connection\<close>

text \<open>What no statement touches: stored data, settings, clock, and whether a transaction is open.\<close>

definition same_session :: "('d, 'z) pgconn_scheme \<Rightarrow> ('d, 'z) pgconn_scheme \<Rightarrow> bool" where
  "same_session c c' \<longleftrightarrow> data c' = data c \<and> (work c' = None \<longleftrightarrow> work c = None) \<and> ro c' = ro c
     \<and> session_guc c' = session_guc c \<and> local_guc c' = local_guc c \<and> staged_guc c' = staged_guc c
     \<and> clock c' = clock c \<and> pgconn.more c' = pgconn.more c"

lemma same_session_refl [simp]: "same_session c c"
  by (simp add: same_session_def)

lemma same_session_trans [trans]:
  "same_session a b \<Longrightarrow> same_session b c \<Longrightarrow> same_session a c"
  by (simp add: same_session_def)

lemma same_session_scope:
  assumes "same_session c c'"
  shows "auth_scope cast c' = auth_scope cast c"
proof -
  from assms have "guc_value c' = guc_value c" by (simp add: same_session_def guc_value_def)
  then show ?thesis by (simp add: auth_scope_def current_setting_def)
qed

lemma same_session_clock: "same_session c c' \<Longrightarrow> clock c' = clock c"
  by (simp add: same_session_def)

lemma run_stmt_frame: "run_stmt b f c = (r, c') \<Longrightarrow> same_session c c'"
  by (auto simp: run_stmt_def same_session_def split: prod.splits option.splits if_splits sum.splits)

lemma run_stmt_Inl: "run_stmt b f c = (Inl e, c') \<Longrightarrow> work c' = work c"
  by (auto simp: run_stmt_def split: prod.splits option.splits if_splits sum.splits)

lemma run_stmt_Inr: "run_stmt b f c = (Inr a, c') \<Longrightarrow>
  \<exists>db db'. work c = Some db \<and> f db = Inr (a, db') \<and> work c' = Some db'"
  by (auto simp: run_stmt_def split: prod.splits option.splits if_splits sum.splits)

lemma run_auth_frame: "run_auth cast b f c = (r, c') \<Longrightarrow> same_session c c'"
  unfolding run_auth_def by (rule run_stmt_frame)

lemma run_auth_Inl: "run_auth cast b f c = (Inl e, c') \<Longrightarrow> work c' = work c"
  unfolding run_auth_def by (rule run_stmt_Inl)

lemma run_auth_Inr:
  assumes "run_auth cast b f c = (Inr a, c')" and "auth_scope cast c = Inr s" and "work c = Some db"
  shows "\<exists>db'. f s db = Inr (a, db') \<and> work c' = Some db'"
  using run_stmt_Inr [OF assms(1) [unfolded run_auth_def]] assms(2,3) by auto

lemma lock_frame: "LockRefreshTokenFamily k c = (r, c') \<Longrightarrow> same_session c c' \<and> work c' = work c"
proof -
  assume run: "LockRefreshTokenFamily k c = (r, c')"
  obtain r1 c1 where s: "run_stmt False (\<lambda>db. Inr ((), db)) c = (r1, c1)" by force
  have "work c1 = work c"
    using run_stmt_Inl [of False "\<lambda>db. Inr ((), db)" c _ c1] s
    by (cases r1) (auto dest: run_stmt_Inr)
  with run s run_stmt_frame [OF s] show ?thesis
    by (cases r1) (auto simp: LockRefreshTokenFamily_def same_session_def)
qed

lemmas query_defs = GetRefreshTokenByHash_def InsertRefreshToken_def RevokeRefreshTokenFamily_def
  RevokeRefreshTokenIfLive_def SetRefreshTokenReplacedBy_def

text \<open>A connection inside \<^verbatim>\<open>WithAuthUser\<close>: an open transaction scoped to one user.\<close>

definition in_scope :: "(string \<Rightarrow> uuid option) \<Rightarrow> uuid \<Rightarrow> ('d, 'z) pgconn_scheme \<Rightarrow> 'd \<Rightarrow> bool" where
  "in_scope cast u c db \<longleftrightarrow> auth_scope cast c = Inr (Some u) \<and> work c = Some db"

lemma in_scope_step:
  assumes "in_scope cast u c db" and "run_auth cast b f c = (Inr a, c')"
  shows "\<exists>db'. f (Some u) db = Inr (a, db') \<and> in_scope cast u c' db' \<and> clock c' = clock c"
proof -
  have fr: "same_session c c'" using run_auth_frame [OF assms(2)] .
  from assms run_auth_Inr [of cast b f c a c' "Some u" db] obtain db'
    where "f (Some u) db = Inr (a, db')" "work c' = Some db'" by (auto simp: in_scope_def)
  with assms fr same_session_scope [OF fr, of cast] show ?thesis
    by (auto simp: in_scope_def same_session_clock)
qed

lemma in_scope_lock:
  "in_scope cast u c db \<Longrightarrow> LockRefreshTokenFamily k c = (r, c') \<Longrightarrow>
   in_scope cast u c' db \<and> clock c' = clock c"
  using lock_frame [of k c r c'] same_session_scope [of c c' cast]
  by (auto simp: in_scope_def same_session_clock)

section \<open>Composed operations\<close>

definition framed :: "(('d, 'z) pgconn_scheme \<Rightarrow> ('e + 'a) \<times> ('d, 'z) pgconn_scheme) \<Rightarrow> bool" where
  "framed m \<longleftrightarrow> (\<forall>c r c'. m c = (r, c') \<longrightarrow> same_session c c')"

lemma framedD: "framed m \<Longrightarrow> m c = (r, c') \<Longrightarrow> same_session c c'"
  unfolding framed_def by blast

named_theorems frames

lemma framed_return [frames]: "framed (\<lambda>c. (r, c))"
  by (simp add: framed_def)

lemma framed_wrapped [frames]: "framed m \<Longrightarrow> framed (\<lambda>c. wrapped f (m c))"
  unfolding framed_def wrapped_def by (auto split: prod.splits sum.splits)

lemma framed_and_then [frames]:
  "framed m \<Longrightarrow> (\<And>a. framed (k a)) \<Longrightarrow> framed (\<lambda>c. and_then (m c) k)"
  unfolding framed_def and_then_def by (auto split: prod.splits sum.splits) (metis same_session_trans)+

lemma framed_if [frames]: "framed m \<Longrightarrow> framed n \<Longrightarrow> framed (\<lambda>c. if b then m c else n c)"
  by (cases b) simp_all

lemma framed_option [frames]: "framed m \<Longrightarrow> (\<And>a. framed (n a)) \<Longrightarrow>
    framed (\<lambda>c. case x of None \<Rightarrow> m c | Some a \<Rightarrow> n a c)"
  by (cases x) simp_all

lemma framed_sum [frames]: "(\<And>a. framed (m a)) \<Longrightarrow> (\<And>a. framed (n a)) \<Longrightarrow>
    framed (\<lambda>c. case x of Inl a \<Rightarrow> m a c | Inr a \<Rightarrow> n a c)"
  by (cases x) simp_all

lemma framed_pair [frames]: "(\<And>a b. framed (m a b)) \<Longrightarrow> framed (case x of (a, b) \<Rightarrow> m a b)"
  by (cases x) simp

lemma framed_query [frames]:
  "framed (GetRefreshTokenByHash cast h)" "framed (InsertRefreshToken cast r)"
  "framed (RevokeRefreshTokenFamily cast fam)" "framed (RevokeRefreshTokenIfLive cast i)"
  "framed (SetRefreshTokenReplacedBy cast i j)" "framed (LockRefreshTokenFamily k)"
  "framed (DeleteRecoveryCodesForUser cast u)" "framed (InsertRecoveryCode cast q)"
  "framed (RedeemRecoveryCode_sql cast h)"
  unfolding framed_def query_defs DeleteRecoveryCodesForUser_def InsertRecoveryCode_def
    RedeemRecoveryCode_sql_def
  by (blast intro: run_auth_frame conjunct1 [OF lock_frame])+

text \<open>Rows an insert builds from the connection's clock.\<close>

lemma framed_row: "(\<And>t. framed (m t)) \<Longrightarrow> framed (\<lambda>c. m (clock c) c)"
  unfolding framed_def by blast

section \<open>A healthy connection\<close>

definition ready :: "(string \<Rightarrow> uuid option) \<Rightarrow> uuid \<Rightarrow> ('d, 'z) pgconn_scheme \<Rightarrow> 'd \<Rightarrow> bool" where
  "ready cast u c db \<longleftrightarrow> in_scope cast u c db \<and> \<not> aborted c \<and> \<not> ro c \<and> faults c = []"

lemma setting_update [simp]:
  "current_setting (c\<lparr>work := w\<rparr>) = current_setting c"
  "current_setting (c\<lparr>xact_locks := ks\<rparr>) = current_setting c"
  by (simp_all add: current_setting_def guc_value_def fun_eq_iff)

lemma ready_work [simp]: "ready cast u c db \<Longrightarrow> ready cast u (c\<lparr>work := Some db'\<rparr>) db'"
  by (simp add: ready_def in_scope_def auth_scope_def)

lemma ready_lock [simp]: "ready cast u c db \<Longrightarrow> ready cast u (c\<lparr>xact_locks := ks\<rparr>) db"
  by (simp add: ready_def in_scope_def auth_scope_def)

lemma run_auth_ready:
  "ready cast u c db \<Longrightarrow> f (Some u) db = Inr (a, db') \<Longrightarrow>
   run_auth cast b f c = (Inr a, c\<lparr>work := Some db'\<rparr>)"
  by (simp add: ready_def in_scope_def run_auth_def run_stmt_def take_fault_def)

lemma lock_ready:
  "ready cast u c db \<Longrightarrow> LockRefreshTokenFamily k c = (Inr (), c\<lparr>xact_locks := k # xact_locks c\<rparr>)"
  by (simp add: ready_def in_scope_def LockRefreshTokenFamily_def run_stmt_def take_fault_def)

lemma run_auth_ready_ex:
  "ready cast u c db \<Longrightarrow> f (Some u) db = Inr (a, db') \<Longrightarrow>
   \<exists>c'. run_auth cast b f c = (Inr a, c') \<and> ready cast u c' db' \<and> clock c' = clock c"
  using run_auth_ready [of cast u c db f a db' b] by simp

lemma lock_ready_ex:
  "ready cast u c db \<Longrightarrow> \<exists>c'. LockRefreshTokenFamily k c = (Inr (), c') \<and> ready cast u c' db
    \<and> clock c' = clock c"
  using lock_ready [of cast u c db k] by simp

section \<open>A package operation as the callback of WithAuthUser\<close>

text \<open>The callback that runs one operation in the transaction and returns its error.\<close>

definition as_callback :: "('w \<Rightarrow> ('e + 'a) \<times> 'w) \<Rightarrow> 'w \<Rightarrow> 'e call \<times> 'w" where
  "as_callback m c = (case m c of (Inl e, c1) \<Rightarrow> (Return (Some e), c1) | (Inr a, c1) \<Rightarrow> (Return None, c1))"

lemma scoped_in_scope:
  assumes "scoped_start ''app.user_id'' (str u) c c1" and "str u \<noteq> []" and "cast (str u) = Some u"
  shows "in_scope cast u c1 (data c)"
  using assms scoped_start_setting [OF assms(1), of "''app.user_id''"]
  by (simp add: in_scope_def auth_scope_def nullif_empty_def scoped_start_def)

lemma as_callback_frame:
  "framed m \<Longrightarrow> as_callback m c = (r, c') \<Longrightarrow> same_session c c'"
  unfolding as_callback_def by (auto split: prod.splits sum.splits dest: framedD)

lemma as_callback_confined: "framed m \<Longrightarrow> pg.confined (as_callback m)"
  unfolding pg.confined_def
  using as_callback_frame session_setting_cong by (fastforce simp: pg_open_def same_session_def)

lemma with_auth_scope: "WithAuthUser str pg_driver u fn c
    = with_scope ErrNoAuthUser (SetConfig ''app.user_id'' True) str pg_driver u fn c"
  by (simp add: WithAuthUser_scope setAuthScopeSQL_def)

text \<open>What a call comes to: nothing stored, or one successful run in the user's scope, stored.\<close>

lemma auth_call_cases:
  assumes fr: "framed m" and idle: "pg_idle c" and str: "str u \<noteq> []" "cast (str u) = Some u"
    and run: "WithAuthUser str pg_driver u (as_callback m) c = (r, c')"
  shows "pg_idle c' \<and> session_setting c' = session_setting c"
    and "(data c' = data c \<and> r \<noteq> Return None) \<or>
      (\<exists>c1 c2 a. in_scope cast u c1 (data c) \<and> clock c1 = clock c \<and> m c1 = (Inr a, c2)
        \<and> work c2 = Some (data c'))"
    and "r \<noteq> Return None \<Longrightarrow> (\<nexists>e. r = Return (Some (CommitFailed e))) \<Longrightarrow> data c' = data c"
    and "r = Return (Some (Callback e)) \<Longrightarrow>
      \<exists>c1 c2. in_scope cast u c1 (data c) \<and> clock c1 = clock c \<and> m c1 = (Inl e, c2)"
proof -
  have err: "refused (Return (Some ErrNoAuthUser))" by (simp add: refused_def)
  note con = pg.with_scope_contract [OF as_callback_confined [OF fr] idle str(1) err run [unfolded with_auth_scope]]
  then show clean: "pg_idle c' \<and> session_setting c' = session_setting c" by simp
  show kept: "r \<noteq> Return None \<Longrightarrow> (\<nexists>e. r = Return (Some (CommitFailed e))) \<Longrightarrow> data c' = data c"
    using con by (auto dest!: commit_or_nothing_kept)
  have enters: "refused r \<or> (\<exists>c1. in_scope cast u c1 (data c) \<and> clock c1 = clock c \<and> data c1 = data c
      \<and> work c1 \<noteq> None \<and> deferred_rollback pg_driver (run_and_commit pg_driver (as_callback m) c1) = (r, c'))"
    using pg_scope_enters [OF run [unfolded with_auth_scope] err] scoped_in_scope [where str = str and cast = cast, OF _ str]
    by (auto simp: scoped_start_def)
  show "(data c' = data c \<and> r \<noteq> Return None) \<or>
      (\<exists>c1 c2 a. in_scope cast u c1 (data c) \<and> clock c1 = clock c \<and> m c1 = (Inr a, c2)
        \<and> work c2 = Some (data c'))"
  proof (cases "refused r")
    case True
    then have "r \<noteq> Return None" "\<nexists>e. r = Return (Some (CommitFailed e))" by (auto simp: refused_def)
    with kept show ?thesis by simp
  next
    case False
    with enters obtain c1 where c1: "in_scope cast u c1 (data c)" "clock c1 = clock c" "data c1 = data c"
      "work c1 \<noteq> None"
      and go: "deferred_rollback pg_driver (run_and_commit pg_driver (as_callback m) c1) = (r, c')" by blast
    obtain r1 c2 where cb: "as_callback m c1 = (r1, c2)" by force
    from as_callback_frame [OF fr cb] c1 have "data c2 = data c1" "work c2 \<noteq> None"
      by (auto simp: same_session_def)
    from pg_run_any [OF go cb this] c1 cb show ?thesis
      by (auto simp: as_callback_def split: prod.splits sum.splits)
  qed
  show "\<exists>c1 c2. in_scope cast u c1 (data c) \<and> clock c1 = clock c \<and> m c1 = (Inl e, c2)"
    if "r = Return (Some (Callback e))"
  proof -
    from that enters obtain c1 where c1: "in_scope cast u c1 (data c)" "clock c1 = clock c"
      and go: "deferred_rollback pg_driver (run_and_commit pg_driver (as_callback m) c1) = (r, c')"
      by (auto simp: refused_def)
    from go that have "fst (as_callback m c1) = Return (Some e)"
      by (auto simp: deferred_rollback_def run_and_commit_def split: prod.splits call.splits option.splits)
    then obtain c2 where "m c1 = (Inl e, c2)"
      by (auto simp: as_callback_def split: prod.splits sum.splits)
    with c1 show ?thesis by blast
  qed
qed

end
