(* ===== verification/GoStrings.thy ===== *)
theory GoStrings imports Prelude
begin

text \<open>
  The functions of Go's \<^verbatim>\<open>strings\<close> package that MascotApp calls, over byte strings:
  \<^verbatim>\<open>Split\<close> with a one-byte separator, \<^verbatim>\<open>Cut\<close>, \<^verbatim>\<open>TrimSpace\<close>, \<^verbatim>\<open>ToUpper\<close> and
  \<^verbatim>\<open>EqualFold\<close>. The characteristic lemmas (what is lost, what is kept, when two inputs give
  the same pieces) are what the parsers of the other theories use.
\<close>

section \<open>Split and Cut\<close>

text \<open>\<^verbatim>\<open>strings.Split(s, sep)\<close>: always at least one piece.\<close>

fun split_on :: "char \<Rightarrow> string \<Rightarrow> string list" where
  "split_on c [] = [[]]"
| "split_on c (x # xs) =
     (if x = c then [] # split_on c xs
      else (case split_on c xs of
              [] \<Rightarrow> [[x]]
            | p # ps \<Rightarrow> (x # p) # ps))"

fun join_with :: "char \<Rightarrow> string list \<Rightarrow> string" where
  "join_with c [] = []"
| "join_with c [p] = p"
| "join_with c (p # ps) = p @ c # join_with c ps"

lemma split_on_not_Nil [simp]: "split_on c s \<noteq> []"
  by (induction s) (auto split: list.splits)

lemma join_with_Cons: "ps \<noteq> [] \<Longrightarrow> join_with c (p # ps) = p @ c # join_with c ps"
  by (cases ps) auto

lemma join_split [simp]: "join_with c (split_on c s) = s"
proof (induction s)
  case Nil
  then show ?case by simp
next
  case (Cons x xs)
  obtain p ps where ps: "split_on c xs = p # ps"
    by (meson neq_Nil_conv split_on_not_Nil)
  with Cons show ?case
    by (cases ps) (auto simp: join_with_Cons)
qed

lemma split_on_no_sep: "p \<in> set (split_on c s) \<Longrightarrow> c \<notin> set p"
  by (induction s arbitrary: p) (auto split: if_splits list.splits)

lemma split_on_plain: "c \<notin> set s \<Longrightarrow> split_on c s = [s]"
  by (induction s) auto

lemma split_on_append: "c \<notin> set a \<Longrightarrow> split_on c (a @ c # b) = a # split_on c b"
  by (induction a) auto

lemma split_on_eq_pair:
  "split_on c s = [a, b] \<longleftrightarrow> s = a @ c # b \<and> c \<notin> set a \<and> c \<notin> set b"
proof
  assume eq: "split_on c s = [a, b]"
  then have "s = a @ c # b" using join_split [of c s] by simp
  moreover have "c \<notin> set a" "c \<notin> set b"
    using split_on_no_sep [of _ c s] eq by auto
  ultimately show "s = a @ c # b \<and> c \<notin> set a \<and> c \<notin> set b" by simp
qed (auto simp: split_on_append split_on_plain)

lemma split_on_join: "ps \<noteq> [] \<Longrightarrow> \<forall>p \<in> set ps. c \<notin> set p \<Longrightarrow> split_on c (join_with c ps) = ps"
proof (induction ps)
  case (Cons p ps)
  then show ?case
    by (cases "ps = []") (simp_all add: join_with_Cons split_on_append split_on_plain)
qed simp

text \<open>\<^verbatim>\<open>strings.Cut(s, sep)\<close>: the text before and after the first separator, and whether one was found.\<close>

fun cut_on :: "char \<Rightarrow> string \<Rightarrow> string \<times> string \<times> bool" where
  "cut_on c [] = ([], [], False)"
| "cut_on c (x # xs) =
     (if x = c then ([], xs, True)
      else (case cut_on c xs of (a, b, found) \<Rightarrow> (x # a, b, found)))"

lemma cut_on_found:
  "cut_on c s = (a, b, True) \<longleftrightarrow> s = a @ c # b \<and> c \<notin> set a"
proof (induction s arbitrary: a)
  case Nil
  then show ?case by simp
next
  case (Cons x xs)
  show ?case
  proof (cases "x = c")
    case True
    then show ?thesis by (cases a) auto
  next
    case False
    show ?thesis
    proof (cases a)
      case Nil
      with False show ?thesis by (auto split: prod.splits)
    next
      case (Cons y ys)
      with False Cons.IH [of ys] show ?thesis by (auto split: prod.splits)
    qed
  qed
qed

section \<open>TrimSpace\<close>

text \<open>
  The UTF-8 encodings of the code points with the Unicode property White_Space, which is what
  \<^verbatim>\<open>unicode.IsSpace\<close> tests. No encoding is a proper prefix or suffix of another, and a
  continuation byte never starts one, so trimming whole encodings from the ends of the byte
  string is trimming runes.
\<close>

definition utf8_spaces :: "string list" where
  "utf8_spaces =
     [[CHR 0x09], [CHR 0x0A], [CHR 0x0B], [CHR 0x0C], [CHR 0x0D], [CHR 0x20],
      [CHR 0xC2, CHR 0x85], [CHR 0xC2, CHR 0xA0], [CHR 0xE1, CHR 0x9A, CHR 0x80],
      [CHR 0xE2, CHR 0x80, CHR 0x80], [CHR 0xE2, CHR 0x80, CHR 0x81],
      [CHR 0xE2, CHR 0x80, CHR 0x82], [CHR 0xE2, CHR 0x80, CHR 0x83],
      [CHR 0xE2, CHR 0x80, CHR 0x84], [CHR 0xE2, CHR 0x80, CHR 0x85],
      [CHR 0xE2, CHR 0x80, CHR 0x86], [CHR 0xE2, CHR 0x80, CHR 0x87],
      [CHR 0xE2, CHR 0x80, CHR 0x88], [CHR 0xE2, CHR 0x80, CHR 0x89],
      [CHR 0xE2, CHR 0x80, CHR 0x8A], [CHR 0xE2, CHR 0x80, CHR 0xA8],
      [CHR 0xE2, CHR 0x80, CHR 0xA9], [CHR 0xE2, CHR 0x80, CHR 0xAF],
      [CHR 0xE2, CHR 0x81, CHR 0x9F], [CHR 0xE3, CHR 0x80, CHR 0x80]]"

fun strip_prefix :: "string \<Rightarrow> string \<Rightarrow> string option" where
  "strip_prefix [] s = Some s"
| "strip_prefix (p # ps) [] = None"
| "strip_prefix (p # ps) (x # xs) = (if p = x then strip_prefix ps xs else None)"

lemma strip_prefix_Some: "strip_prefix p s = Some r \<longleftrightarrow> s = p @ r"
  by (induction p s rule: strip_prefix.induct) auto

text \<open>Drop the first encoding of \<open>ws\<close> that starts the string, if one does.\<close>

fun drop_one :: "string list \<Rightarrow> string \<Rightarrow> string option" where
  "drop_one [] s = None"
| "drop_one (w # ws) s =
     (case strip_prefix w s of Some r \<Rightarrow> Some r | None \<Rightarrow> drop_one ws s)"

lemma drop_one_Some: "drop_one ws s = Some r \<Longrightarrow> \<exists>w \<in> set ws. s = w @ r"
  by (induction ws) (auto simp: strip_prefix_Some split: option.splits)

lemma drop_one_shorter:
  "drop_one ws s = Some r \<Longrightarrow> [] \<notin> set ws \<Longrightarrow> length r < length s"
  by (metis drop_one_Some length_append length_greater_0_conv less_add_same_cancel2)

function trim_front :: "string list \<Rightarrow> string \<Rightarrow> string" where
  "trim_front ws s =
     (if [] \<in> set ws then s
      else (case drop_one ws s of None \<Rightarrow> s | Some r \<Rightarrow> trim_front ws r))"
  by pat_completeness auto
termination
  by (relation "measure (\<lambda>(ws, s). length s)") (auto dest: drop_one_shorter)

declare trim_front.simps [simp del]

definition trim_left :: "string \<Rightarrow> string" where
  "trim_left s = trim_front utf8_spaces s"

definition trim_right :: "string \<Rightarrow> string" where
  "trim_right s = rev (trim_front (map rev utf8_spaces) (rev s))"

definition trim_space :: "string \<Rightarrow> string" where
  "trim_space s = trim_right (trim_left s)"

lemma trim_front_suffix: "\<exists>p. s = p @ trim_front ws s"
proof (induction ws s rule: trim_front.induct)
  case (1 ws s)
  show ?case
  proof (cases "[] \<in> set ws \<or> drop_one ws s = None")
    case True
    then show ?thesis by (auto simp: trim_front.simps [of ws s])
  next
    case False
    then obtain r where r: "drop_one ws s = Some r" by auto
    with False "1.IH" [of r] obtain p where p: "r = p @ trim_front ws r" by auto
    from r obtain w where "s = w @ r" by (auto dest: drop_one_Some)
    with p have "s = (w @ p) @ trim_front ws r" by simp
    moreover from False r have "trim_front ws s = trim_front ws r"
      by (simp add: trim_front.simps [of ws s])
    ultimately show ?thesis by metis
  qed
qed

text \<open>Trimming only removes a prefix and a suffix.\<close>

lemma trim_space_infix: "\<exists>p q. s = p @ trim_space s @ q"
proof -
  obtain p where p: "s = p @ trim_left s"
    unfolding trim_left_def using trim_front_suffix by metis
  obtain q where "rev (trim_left s) = q @ rev (trim_space s)"
    unfolding trim_space_def trim_right_def using trim_front_suffix by (metis rev_rev_ident)
  then have "trim_left s = trim_space s @ rev q"
    by (metis rev_append rev_rev_ident)
  with p have "s = p @ trim_space s @ rev q" by simp
  then show ?thesis by blast
qed

lemma trim_space_set: "set (trim_space s) \<subseteq> set s"
  by (metis Un_iff set_append subsetI trim_space_infix)

section \<open>Case folding\<close>

definition ascii_lower :: "char \<Rightarrow> char" where
  "ascii_lower c =
     (let n = nat_of_byte c in if 65 \<le> n \<and> n \<le> 90 then byte_of (n + 32) else c)"

definition ascii_upper :: "char \<Rightarrow> char" where
  "ascii_upper c =
     (let n = nat_of_byte c in if 97 \<le> n \<and> n \<le> 122 then byte_of (n - 32) else c)"

text \<open>
  \<^verbatim>\<open>strings.EqualFold(s, t)\<close> for a \<open>t\<close> of ASCII letters other than \<^verbatim>\<open>k\<close> and \<^verbatim>\<open>s\<close>: no
  code point outside ASCII folds to one of those letters, so folding bytes is folding runes.
\<close>

definition equal_fold :: "string \<Rightarrow> string \<Rightarrow> bool" where
  "equal_fold s t \<longleftrightarrow> map ascii_lower s = map ascii_lower t"

text \<open>
  \<^verbatim>\<open>strings.ToUpper\<close>, exact wherever the result is compared with ASCII text: the only code
  points outside ASCII whose upper case is an ASCII letter are U+0131 (to \<^verbatim>\<open>I\<close>) and U+017F
  (to \<^verbatim>\<open>S\<close>); every other multi-byte encoding stays outside ASCII and is left as it is.
\<close>

fun to_upper :: "string \<Rightarrow> string" where
  "to_upper [] = []"
| "to_upper [c] = [ascii_upper c]"
| "to_upper (a # b # s) =
     (if a = CHR 0xC4 \<and> b = CHR 0xB1 then CHR ''I'' # to_upper s
      else if a = CHR 0xC5 \<and> b = CHR 0xBF then CHR ''S'' # to_upper s
      else ascii_upper a # to_upper (b # s))"

end
