(* ===== verification/Encodings.thy ===== *)
theory Encodings imports GoStrings
begin

text \<open>
  The binary-to-text codecs of Go's \<^verbatim>\<open>encoding/base64\<close> and \<^verbatim>\<open>encoding/base32\<close> in the
  unpadded forms the auth package uses: \<^verbatim>\<open>base64.RawURLEncoding\<close> for the refresh cookie,
  \<^verbatim>\<open>base64.RawStdEncoding\<close> for the PHC password string, unpadded \<^verbatim>\<open>base32.StdEncoding\<close> for
  recovery codes and the TOTP secret. The base64 decoder is Go's non-strict one: it skips
  CR and LF wherever they stand and ignores the unused low bits of a short last quantum.
\<close>

section \<open>Alphabets\<close>

definition base64_url_alphabet :: string where
  "base64_url_alphabet =
     ''ABCDEFGHIJKLMNOPQRSTUVWXYZabcdefghijklmnopqrstuvwxyz0123456789-_''"

definition base64_std_alphabet :: string where
  "base64_std_alphabet =
     ''ABCDEFGHIJKLMNOPQRSTUVWXYZabcdefghijklmnopqrstuvwxyz0123456789+/''"

definition base32_std_alphabet :: string where
  "base32_std_alphabet = ''ABCDEFGHIJKLMNOPQRSTUVWXYZ234567''"

fun index_of :: "'a \<Rightarrow> 'a list \<Rightarrow> nat option" where
  "index_of c [] = None"
| "index_of c (x # xs) = (if x = c then Some 0 else map_option Suc (index_of c xs))"

lemma index_of_nth: "distinct xs \<Longrightarrow> i < length xs \<Longrightarrow> index_of (xs ! i) xs = Some i"
proof (induction xs arbitrary: i)
  case Nil
  then show ?case by simp
next
  case (Cons x xs)
  then show ?case by (cases i) auto
qed

lemma index_of_Some: "index_of c xs = Some i \<Longrightarrow> i < length xs \<and> xs ! i = c"
  by (induction xs arbitrary: i) (auto split: if_splits)

text \<open>What a codec needs of its alphabet: as many distinct characters as the radix.\<close>

locale alphabet =
  fixes alph :: string and radix :: nat
  assumes alph_distinct: "distinct alph"
    and alph_length: "length alph = radix"
begin

lemma digit_roundtrip: "d < radix \<Longrightarrow> index_of (alph ! d) alph = Some d"
  by (simp add: alph_distinct alph_length index_of_nth)

lemma those_digits: "\<forall>d \<in> set ds. d < radix \<Longrightarrow>
  those (map (\<lambda>c. index_of c alph) (map (\<lambda>d. alph ! d) ds)) = Some ds"
  by (induction ds) (auto simp: digit_roundtrip)

lemma digit_in_alph: "d < radix \<Longrightarrow> alph ! d \<in> set alph"
  by (simp add: alph_length)

end

interpretation url64: alphabet base64_url_alphabet 64
  by unfold_locales (simp_all add: base64_url_alphabet_def)

interpretation std64: alphabet base64_std_alphabet 64
  by unfold_locales (simp_all add: base64_std_alphabet_def)

interpretation std32: alphabet base32_std_alphabet 32
  by unfold_locales (simp_all add: base32_std_alphabet_def)

section \<open>Regrouping bits\<close>

text \<open>
  One group of bytes as \<open>k\<close> digits, its number shifted left by \<open>pad\<close> bits, and back. The
  group is recovered because the shifted number still fits the digits.
\<close>

lemma nat_of_bytes_less: "nat_of_bytes bs < 256 ^ length bs"
  unfolding nat_of_bytes_def using undigits_less [of "map nat_of_byte bs" 256] by simp

lemma group_roundtrip:
  assumes "256 ^ length bs * 2 ^ pad \<le> b ^ k"
  shows "bytes_be (length bs) (undigits b (digits_be k b (nat_of_bytes bs * 2 ^ pad)) div 2 ^ pad)
         = bs"
proof -
  have "nat_of_bytes bs * 2 ^ pad < 256 ^ length bs * 2 ^ pad"
    by (simp add: nat_of_bytes_less)
  then have "nat_of_bytes bs * 2 ^ pad < b ^ k" using assms by (rule less_le_trans)
  then show ?thesis by (simp add: undigits_digits_be bytes_be_nat_of_bytes)
qed

fun sextets :: "bytes \<Rightarrow> nat list" where
  "sextets [] = []"
| "sextets [a] = digits_be 2 64 (nat_of_bytes [a] * 2 ^ 4)"
| "sextets [a, b] = digits_be 3 64 (nat_of_bytes [a, b] * 2 ^ 2)"
| "sextets (a # b # c # r) = digits_be 4 64 (nat_of_bytes [a, b, c] * 2 ^ 0) @ sextets r"

fun unsextets :: "nat list \<Rightarrow> bytes option" where
  "unsextets [] = Some []"
| "unsextets [x] = None"
| "unsextets [x, y] = Some (bytes_be 1 (undigits 64 [x, y] div 2 ^ 4))"
| "unsextets [x, y, z] = Some (bytes_be 2 (undigits 64 [x, y, z] div 2 ^ 2))"
| "unsextets (x # y # z # w # r) =
     map_option (\<lambda>bs. bytes_be 3 (undigits 64 [x, y, z, w] div 2 ^ 0) @ bs) (unsextets r)"

lemma unsextets_full: "length ds = 4 \<Longrightarrow> unsextets (ds @ r) =
  map_option (\<lambda>bs. bytes_be 3 (undigits 64 ds div 2 ^ 0) @ bs) (unsextets r)"
  by (cases ds rule: unsextets.cases) auto

lemma unsextets_two: "length ds = 2 \<Longrightarrow> unsextets ds = Some (bytes_be 1 (undigits 64 ds div 2 ^ 4))"
  by (cases ds rule: unsextets.cases) auto

lemma unsextets_three: "length ds = 3 \<Longrightarrow> unsextets ds = Some (bytes_be 2 (undigits 64 ds div 2 ^ 2))"
  by (cases ds rule: unsextets.cases) auto

lemma unsextets_sextets: "unsextets (sextets bs) = Some bs"
proof (induction bs rule: sextets.induct)
  case 1
  then show ?case by simp
next
  case (2 a)
  have "256 ^ length [a] * 2 ^ 4 \<le> (64 :: nat) ^ 2" by simp
  from group_roundtrip [OF this] show ?case by (simp add: unsextets_two)
next
  case (3 a b)
  have "256 ^ length [a, b] * 2 ^ 2 \<le> (64 :: nat) ^ 3" by simp
  from group_roundtrip [OF this] show ?case by (simp add: unsextets_three numeral_2_eq_2)
next
  case (4 a b c r)
  have "256 ^ length [a, b, c] * 2 ^ 0 \<le> (64 :: nat) ^ 4" by simp
  from group_roundtrip [OF this] 4 show ?case by (simp add: unsextets_full numeral_3_eq_3)
qed

lemma sextets_less: "d \<in> set (sextets bs) \<Longrightarrow> d < 64"
  by (induction bs rule: sextets.induct) (auto dest: digits_be_less [rotated])

lemma length_sextets: "length (sextets bs) = (4 * length bs + 2) div 3"
  by (induction bs rule: sextets.induct) auto

section \<open>base64\<close>

definition base64_encode :: "string \<Rightarrow> bytes \<Rightarrow> string" where
  "base64_encode alph bs = map (\<lambda>d. alph ! d) (sextets bs)"

text \<open>\<^verbatim>\<open>decodeQuantum\<close> passes over \<^verbatim>\<open>\n\<close> and \<^verbatim>\<open>\r\<close> before it looks at the alphabet.\<close>

definition is_newline :: "char \<Rightarrow> bool" where
  "is_newline c \<longleftrightarrow> c = CHR 0x0A \<or> c = CHR 0x0D"

definition base64_decode :: "string \<Rightarrow> string \<Rightarrow> bytes option" where
  "base64_decode alph s =
     (case those (map (\<lambda>c. index_of c alph) (filter (\<lambda>c. \<not> is_newline c) s)) of
        None \<Rightarrow> None
      | Some ds \<Rightarrow> unsextets ds)"

definition raw_url_encode :: "bytes \<Rightarrow> string" where
  "raw_url_encode = base64_encode base64_url_alphabet"

definition raw_url_decode :: "string \<Rightarrow> bytes option" where
  "raw_url_decode = base64_decode base64_url_alphabet"

definition raw_std_encode :: "bytes \<Rightarrow> string" where
  "raw_std_encode = base64_encode base64_std_alphabet"

definition raw_std_decode :: "string \<Rightarrow> bytes option" where
  "raw_std_decode = base64_decode base64_std_alphabet"

text \<open>
  The contract of a codec, and what every client of one may use: decoding undoes encoding, so
  encoding is injective, and the encoder never emits a character outside its output set.
\<close>

locale codec =
  fixes enc :: "bytes \<Rightarrow> string" and dec :: "string \<Rightarrow> bytes option" and out :: "char set"
  assumes dec_enc [simp]: "dec (enc bs) = Some bs"
    and enc_out: "set (enc bs) \<subseteq> out"
begin

lemma enc_inj [simp]: "enc a = enc b \<longleftrightarrow> a = b"
  by (metis dec_enc option.inject)

lemma enc_avoids: "c \<notin> out \<Longrightarrow> c \<notin> set (enc bs)"
  using enc_out by blast

end

lemma base64_decode_encode:
  assumes "alphabet alph 64" and "\<forall>c \<in> set alph. \<not> is_newline c"
  shows "base64_decode alph (base64_encode alph bs) = Some bs"
proof -
  have lt: "\<forall>d \<in> set (sextets bs). d < 64" by (auto dest: sextets_less)
  then have "\<forall>d \<in> set (sextets bs). \<not> is_newline (alph ! d)"
    using assms alphabet.digit_in_alph by blast
  then have "filter (\<lambda>c. \<not> is_newline c) (map (\<lambda>d. alph ! d) (sextets bs))
             = map (\<lambda>d. alph ! d) (sextets bs)"
    by (simp add: filter_map o_def filter_id_conv)
  with alphabet.those_digits [OF assms(1) lt] show ?thesis
    by (simp add: base64_decode_def base64_encode_def unsextets_sextets del: map_map)
qed

lemma base64_encode_out:
  "alphabet alph 64 \<Longrightarrow> set (base64_encode alph bs) \<subseteq> set alph"
  by (auto simp: base64_encode_def alphabet.digit_in_alph dest: sextets_less)

interpretation url64: codec raw_url_encode raw_url_decode "set base64_url_alphabet"
proof
  show "raw_url_decode (raw_url_encode bs) = Some bs" for bs
    unfolding raw_url_decode_def raw_url_encode_def
    by (rule base64_decode_encode [OF url64.alphabet_axioms])
       (simp add: base64_url_alphabet_def is_newline_def)
  show "set (raw_url_encode bs) \<subseteq> set base64_url_alphabet" for bs
    unfolding raw_url_encode_def by (rule base64_encode_out [OF url64.alphabet_axioms])
qed

interpretation std64: codec raw_std_encode raw_std_decode "set base64_std_alphabet"
proof
  show "raw_std_decode (raw_std_encode bs) = Some bs" for bs
    unfolding raw_std_decode_def raw_std_encode_def
    by (rule base64_decode_encode [OF std64.alphabet_axioms])
       (simp add: base64_std_alphabet_def is_newline_def)
  show "set (raw_std_encode bs) \<subseteq> set base64_std_alphabet" for bs
    unfolding raw_std_encode_def by (rule base64_encode_out [OF std64.alphabet_axioms])
qed

lemma url_alphabet_no_dot [simp]: "CHR ''.'' \<notin> set (raw_url_encode bs)"
  by (rule url64.enc_avoids) (simp add: base64_url_alphabet_def)

lemma std_alphabet_no_dollar [simp]: "CHR ''$'' \<notin> set (raw_std_encode bs)"
  by (rule std64.enc_avoids) (simp add: base64_std_alphabet_def)

section \<open>base32\<close>

fun quintets :: "bytes \<Rightarrow> nat list" where
  "quintets [] = []"
| "quintets [a] = digits_be 2 32 (nat_of_bytes [a] * 2 ^ 2)"
| "quintets [a, b] = digits_be 4 32 (nat_of_bytes [a, b] * 2 ^ 4)"
| "quintets [a, b, c] = digits_be 5 32 (nat_of_bytes [a, b, c] * 2 ^ 1)"
| "quintets [a, b, c, d] = digits_be 7 32 (nat_of_bytes [a, b, c, d] * 2 ^ 3)"
| "quintets (a # b # c # d # e # r) =
     digits_be 8 32 (nat_of_bytes [a, b, c, d, e] * 2 ^ 0) @ quintets r"

definition base32_encode :: "bytes \<Rightarrow> string" where
  "base32_encode bs = map (\<lambda>d. base32_std_alphabet ! d) (quintets bs)"

lemma length_quintets: "length (quintets bs) = (8 * length bs + 4) div 5"
  by (induction bs rule: quintets.induct) auto

lemma quintets_less: "d \<in> set (quintets bs) \<Longrightarrow> d < 32"
  by (induction bs rule: quintets.induct) (auto dest: digits_be_less [rotated])

lemma group_inj:
  assumes "digits_be k b (nat_of_bytes as * 2 ^ pad) = digits_be k b (nat_of_bytes bs * 2 ^ pad)"
    and "length as = n" and "length bs = n" and "256 ^ n * 2 ^ pad \<le> b ^ k"
  shows "as = bs"
  using group_roundtrip [of as pad b k] group_roundtrip [of bs pad b k] assms by metis

lemma quintets_inj: "length as = length bs \<Longrightarrow> quintets as = quintets bs \<Longrightarrow> as = bs"
proof (induction as arbitrary: bs rule: quintets.induct)
  case 1
  then show ?case by simp
next
  case (2 a)
  then have "quintets bs = digits_be 2 32 (nat_of_bytes bs * 2 ^ 2)"
    by (cases bs rule: quintets.cases) auto
  with 2(1) [symmetric] 2(2) show ?case by (intro group_inj [of 2 32 "[a]" 2 bs 1]) auto
next
  case (3 a b)
  then have "quintets bs = digits_be 4 32 (nat_of_bytes bs * 2 ^ 4)"
    by (cases bs rule: quintets.cases) auto
  with 3(1) [symmetric] 3(2) show ?case by (intro group_inj [of 4 32 "[a, b]" 4 bs 2]) auto
next
  case (4 a b c)
  then have "quintets bs = digits_be 5 32 (nat_of_bytes bs * 2 ^ 1)"
    by (cases bs rule: quintets.cases) auto
  with 4(1) [symmetric] 4(2) show ?case by (intro group_inj [of 5 32 "[a, b, c]" 1 bs 3]) auto
next
  case (5 a b c d)
  then have "quintets bs = digits_be 7 32 (nat_of_bytes bs * 2 ^ 3)"
    by (cases bs rule: quintets.cases) auto
  with 5(1) [symmetric] 5(2) show ?case by (intro group_inj [of 7 32 "[a, b, c, d]" 3 bs 4]) auto
next
  case (6 a b c d e r)
  then obtain a' b' c' d' e' r' where bs: "bs = a' # b' # c' # d' # e' # r'"
    by (cases bs rule: quintets.cases) auto
  let ?g = "\<lambda>xs. digits_be 8 32 (nat_of_bytes xs * 2 ^ 0)"
  from 6(3) have "?g [a, b, c, d, e] @ quintets r = ?g [a', b', c', d', e'] @ quintets r'"
    by (simp only: bs quintets.simps)
  then have g: "?g [a, b, c, d, e] = ?g [a', b', c', d', e']" and r: "quintets r = quintets r'"
    by (simp_all del: digits_be.simps)
  have "[a, b, c, d, e] = [a', b', c', d', e']"
    using g by (rule group_inj [where n = 5]) simp_all
  moreover have "r = r'" using 6(1) [of r'] 6(2) bs r by simp
  ultimately show ?case using bs by simp
qed

lemma base32_encode_inj: "length as = length bs \<Longrightarrow> base32_encode as = base32_encode bs \<Longrightarrow> as = bs"
proof -
  assume len: "length as = length bs" and eq: "base32_encode as = base32_encode bs"
  have dec: "those (map (\<lambda>c. index_of c base32_std_alphabet) (base32_encode xs)) = Some (quintets xs)"
    for xs
    unfolding base32_encode_def by (rule std32.those_digits) (auto dest: quintets_less)
  from dec [of as] dec [of bs] eq have "quintets as = quintets bs" by simp
  with len show "as = bs" by (rule quintets_inj)
qed

end
