(* ===== verification/UuidLib.thy ===== *)
theory UuidLib imports Encodings
begin

text \<open>
  The uuid library (\<^verbatim>\<open>github.com/google/uuid\<close>) is not part of the repository. The model
  takes \<^verbatim>\<open>UUID.String\<close>, \<^verbatim>\<open>uuid.Parse\<close> and \<^verbatim>\<open>uuid.FromBytes\<close> as arguments; the
  locale states what the code relies on: parsing undoes printing, no uuid prints as the empty
  string or outside ASCII, and \<^verbatim>\<open>FromBytes\<close> accepts exactly the sixteen bytes of a uuid. PostgreSQL's cast
  \<^verbatim>\<open>::uuid\<close> reads the same canonical text, so it satisfies the same law as \<^verbatim>\<open>Parse\<close>. The
  canonical form (RFC 9562: groups of 8, 4, 4, 4 and 12 lower-case hexadecimal digits) shows that
  the laws can hold.
\<close>

locale uuid_lib =
  fixes str :: "uuid \<Rightarrow> string" and parse :: "string \<Rightarrow> uuid option"
    and fromBytes :: "bytes \<Rightarrow> uuid option"
  assumes parse_str [simp]: "parse (str u) = Some u"
    and str_nonempty [simp]: "str u \<noteq> []"
    and str_ascii [simp]: "is_ascii (str u)"
    and fromBytes_iff: "fromBytes b = Some u \<longleftrightarrow> b = uuid_bytes u"
begin

lemma str_inj [simp]: "str u = str v \<longleftrightarrow> u = v"
  by (metis option.inject parse_str)

lemma fromBytes_bytes [simp]: "fromBytes (uuid_bytes u) = Some u"
  by (simp add: fromBytes_iff)

lemma fromBytes_length: "fromBytes b = Some u \<Longrightarrow> length b = 16"
  by (simp add: fromBytes_iff)

end

section \<open>The canonical text form\<close>

definition hex_alphabet :: string where
  "hex_alphabet = ''0123456789abcdef''"

interpretation hex: alphabet hex_alphabet 16
  by unfold_locales (simp_all add: hex_alphabet_def)

definition uuid_hex :: "uuid \<Rightarrow> string" where
  "uuid_hex u = map (\<lambda>d. hex_alphabet ! d) (digits_be 32 16 (unat u))"

definition uuid_text :: "uuid \<Rightarrow> string" where
  "uuid_text u = (let h = uuid_hex u in
     take 8 h @ ''-'' @ take 4 (drop 8 h) @ ''-'' @ take 4 (drop 12 h) @ ''-'' @
     take 4 (drop 16 h) @ ''-'' @ drop 20 h)"

definition uuid_of_text :: "string \<Rightarrow> uuid option" where
  "uuid_of_text s =
     (if length s = 36 \<and> s ! 8 = CHR ''-'' \<and> s ! 13 = CHR ''-'' \<and> s ! 18 = CHR ''-'' \<and> s ! 23 = CHR ''-''
      then map_option (\<lambda>ds. word_of_nat (undigits 16 ds))
             (those (map (\<lambda>c. index_of c hex_alphabet)
               (take 8 s @ take 4 (drop 9 s) @ take 4 (drop 14 s) @ take 4 (drop 19 s) @ drop 24 s)))
      else None)"

definition uuid_of_bytes :: "bytes \<Rightarrow> uuid option" where
  "uuid_of_bytes b = (if length b = 16 then Some (word_of_nat (nat_of_bytes b)) else None)"

lemma length_uuid_hex [simp]: "length (uuid_hex u) = 32"
  by (simp add: uuid_hex_def)

lemma uuid_hex_read:
  "map_option (\<lambda>ds. word_of_nat (undigits 16 ds)) (those (map (\<lambda>c. index_of c hex_alphabet) (uuid_hex u)))
   = Some u"
proof -
  have "unat u < 16 ^ 32" using unsigned_less [of u] by simp
  then have "undigits 16 (digits_be 32 16 (unat u)) = unat u"
    by (simp add: undigits_digits_be)
  moreover have "those (map (\<lambda>c. index_of c hex_alphabet) (uuid_hex u)) = Some (digits_be 32 16 (unat u))"
    unfolding uuid_hex_def by (rule hex.those_digits) (auto dest: digits_be_less [rotated])
  ultimately show ?thesis by (simp add: word_unat_eq_iff)
qed

lemma drop_take_glue:
  assumes "length h = 32"
  shows "take 8 h @ take 4 (drop 8 h) @ take 4 (drop 12 h) @ take 4 (drop 16 h) @ drop 20 h = h"
proof -
  have g: "take n (drop m h) @ drop (m + n) h = drop m h" for n m
    by (metis add.commute append_take_drop_id drop_drop)
  show ?thesis using g [where n = 4 and m = 8] g [where n = 4 and m = 12] g [where n = 4 and m = 16]
    by simp
qed

lemma uuid_of_text_text: "uuid_of_text (uuid_text u) = Some u"
proof -
  let ?h = "uuid_hex u"
  have len: "length (uuid_text u) = 36"
    by (simp add: uuid_text_def Let_def)
  have pieces: "take 8 (uuid_text u) = take 8 ?h" "take 4 (drop 9 (uuid_text u)) = take 4 (drop 8 ?h)"
    "take 4 (drop 14 (uuid_text u)) = take 4 (drop 12 ?h)"
    "take 4 (drop 19 (uuid_text u)) = take 4 (drop 16 ?h)" "drop 24 (uuid_text u) = drop 20 ?h"
    by (simp_all add: uuid_text_def Let_def numeral_eq_Suc)
  have "uuid_text u ! 8 = CHR ''-''" "uuid_text u ! 13 = CHR ''-''" "uuid_text u ! 18 = CHR ''-''"
    "uuid_text u ! 23 = CHR ''-''"
    by (simp_all add: uuid_text_def Let_def nth_append)
  with len show ?thesis
    unfolding uuid_of_text_def pieces drop_take_glue [OF length_uuid_hex]
    by (simp add: uuid_hex_read)
qed

lemma uuid_hex_ascii: "c \<in> set (uuid_hex u) \<Longrightarrow> nat_of_byte c < 128"
proof -
  assume "c \<in> set (uuid_hex u)"
  then have "c \<in> set hex_alphabet"
    unfolding uuid_hex_def by (auto simp: hex.digit_in_alph dest: digits_be_less [rotated])
  then show ?thesis by (auto simp: hex_alphabet_def nat_of_byte_def)
qed

lemma uuid_text_ascii: "is_ascii (uuid_text u)"
proof -
  have "is_ascii (take m (drop n (uuid_hex u)))" "is_ascii (drop n (uuid_hex u))" for m n
    unfolding is_ascii_set using uuid_hex_ascii by (blast dest: in_set_takeD in_set_dropD)+
  from this(1) [of _ 0] this show ?thesis
    by (simp add: uuid_text_def Let_def nat_of_byte_def)
qed

interpretation canonical: uuid_lib uuid_text uuid_of_text uuid_of_bytes
proof
  show "uuid_of_text (uuid_text u) = Some u" for u by (rule uuid_of_text_text)
  show "uuid_text u \<noteq> []" for u by (simp add: uuid_text_def Let_def)
  show "is_ascii (uuid_text u)" for u by (rule uuid_text_ascii)
  show "uuid_of_bytes b = Some u \<longleftrightarrow> b = uuid_bytes u" for b u
  proof
    assume "uuid_of_bytes b = Some u"
    then have len: "length b = 16" and u: "u = word_of_nat (nat_of_bytes b)"
      by (auto simp: uuid_of_bytes_def split: if_splits)
    have "nat_of_bytes b < 2 ^ 128" using nat_of_bytes_less [of b] len by simp
    then have "unat u = nat_of_bytes b"
      using u by (simp add: unat_of_nat)
    with len show "b = uuid_bytes u"
      using bytes_be_nat_of_bytes [of b] by (simp add: uuid_bytes_def)
  next
    assume "b = uuid_bytes u"
    then show "uuid_of_bytes b = Some u"
      by (simp add: uuid_of_bytes_def nat_of_uuid_bytes)
  qed
qed

end
