(* ===== verification/Session.thy ===== *)
theory Session imports AuthStmts UuidLib
begin

text \<open>
  \<^verbatim>\<open>internal/auth/session.go\<close>: the refresh cookie's text form, issuing a token into a new
  family, and rotating one. SHA-256 (\<open>H\<close>), the random source (\<open>rand n\<close> is one read of
  \<open>n\<close> bytes, \<open>None\<close> when it fails), the uuid generators and the uuid library are arguments. The
  two ways a rotation can end without a cookie stay apart, as in the code: a refusal is a value
  next to a nil error, and only an infrastructure failure (or the lost race) is an error.
\<close>

section \<open>The cookie\<close>

definition RefreshSecretLength :: nat where
  "RefreshSecretLength = 32"

text \<open>\<^verbatim>\<open>30 * 24 * time.Hour\<close>, in nanoseconds.\<close>

definition RefreshTokenLifetime :: time where
  "RefreshTokenLifetime = 30 * 24 * 3600 * 1000000000"

record refresh_cookie =
  cookie_user :: uuid
  cookie_secret :: bytes

text \<open>Every one of these wraps \<^verbatim>\<open>ErrRefreshTokenInvalid\<close>; they differ in the text only.\<close>

datatype cookie_error = NotTwoParts | UserNotBase64 | UserNotUuid | SecretNotBase64
  | SecretHasLength nat

definition FormatRefreshCookie :: "uuid \<Rightarrow> bytes \<Rightarrow> string" where
  "FormatRefreshCookie userID secret =
     raw_url_encode (uuid_bytes userID) @ ''.'' @ raw_url_encode secret"

definition ParseRefreshCookie ::
  "(bytes \<Rightarrow> uuid option) \<Rightarrow> string \<Rightarrow> cookie_error + refresh_cookie" where
  "ParseRefreshCookie fromBytes raw =
     (case split_on CHR ''.'' raw of
        [user_half, secret_half] \<Rightarrow>
          (case raw_url_decode user_half of
             None \<Rightarrow> Inl UserNotBase64
           | Some rawUser \<Rightarrow>
               (case fromBytes rawUser of
                  None \<Rightarrow> Inl UserNotUuid
                | Some userID \<Rightarrow>
                    (case raw_url_decode secret_half of
                       None \<Rightarrow> Inl SecretNotBase64
                     | Some secret \<Rightarrow>
                         if length secret \<noteq> RefreshSecretLength
                         then Inl (SecretHasLength (length secret))
                         else Inr \<lparr>cookie_user = userID, cookie_secret = secret\<rparr>)))
      | _ \<Rightarrow> Inl NotTwoParts)"

section \<open>Issuing\<close>

datatype session_error = SecretDrawErr | IdDrawErr | LookupErr db_err | LockErr db_err
  | FamilyRevokeErr db_err | RevokeErr db_err | StoreErr db_err | LinkErr db_err | LostRace

definition NewRefreshSecret :: "(nat \<Rightarrow> bytes option) \<Rightarrow> session_error + bytes" where
  "NewRefreshSecret rand =
     (case rand RefreshSecretLength of None \<Rightarrow> Inl SecretDrawErr | Some secret \<Rightarrow> Inr secret)"

definition HashRefreshSecret :: "(bytes \<Rightarrow> bytes) \<Rightarrow> bytes \<Rightarrow> bytes" where
  "HashRefreshSecret H secret = H secret"

text \<open>The columns \<^verbatim>\<open>InsertRefreshToken\<close> does not name take their defaults.\<close>

definition new_token_row :: "uuid \<Rightarrow> uuid \<Rightarrow> bytes \<Rightarrow> uuid \<Rightarrow> time \<Rightarrow> time \<Rightarrow> refresh_token" where
  "new_token_row i userID h familyID expires created =
     \<lparr>rt_id = i, rt_user_id = userID, token_hash = h, family_id = familyID,
      expires_at = Some expires, revoked_at = None, replaced_by = None,
      rt_user_agent = None, rt_ip_hash = None, rt_created_at = Some created\<rparr>"

lemma new_token_row_fields [simp]:
  "rt_id (new_token_row i u h fam e t) = i" "rt_user_id (new_token_row i u h fam e t) = u"
  "token_hash (new_token_row i u h fam e t) = h" "family_id (new_token_row i u h fam e t) = fam"
  "expires_at (new_token_row i u h fam e t) = Some e" "replaced_by (new_token_row i u h fam e t) = None"
  "live (new_token_row i u h fam e t)"
  by (simp_all add: new_token_row_def live_def)

definition issueInFamilyReturningID where
  "issueInFamilyReturningID cast H rand newV7 userID familyID now c =
     (case NewRefreshSecret rand of
        Inl e \<Rightarrow> (Inl e, c)
      | Inr secret \<Rightarrow>
          (case newV7 of
             None \<Rightarrow> (Inl IdDrawErr, c)
           | Some i \<Rightarrow>
               and_then
                 (wrapped StoreErr
                   (InsertRefreshToken cast
                     (new_token_row i userID (HashRefreshSecret H secret) familyID
                       (now + RefreshTokenLifetime) (clock c)) c))
                 (\<lambda>_ c. (Inr (FormatRefreshCookie userID secret, i), c))))"

definition issueInFamily where
  "issueInFamily cast H rand newV7 userID familyID now c =
     and_then (issueInFamilyReturningID cast H rand newV7 userID familyID now c)
       (\<lambda>(cookie, _) c. (Inr cookie, c))"

definition IssueRefreshToken where
  "IssueRefreshToken cast H rand newV7 newV4 userID now c =
     issueInFamily cast H rand newV7 userID newV4 now c"

section \<open>Rotating\<close>

datatype refusal = ErrRefreshTokenInvalid | ErrRefreshTokenReused

record rotation_outcome =
  Cookie :: string
  Refusal :: "refusal option"

definition refusing :: "refusal \<Rightarrow> rotation_outcome" where
  "refusing r = \<lparr>Cookie = [], Refusal = Some r\<rparr>"

definition rotated :: "string \<Rightarrow> rotation_outcome" where
  "rotated cookie = \<lparr>Cookie = cookie, Refusal = None\<rparr>"

text \<open>\<^verbatim>\<open>!presented.ExpiresAt.Valid || !presented.ExpiresAt.Time.After(now)\<close>.\<close>

definition expired :: "time \<Rightarrow> refresh_token \<Rightarrow> bool" where
  "expired now p = (case expires_at p of None \<Rightarrow> True | Some t \<Rightarrow> \<not> now < t)"

definition RotateRefreshToken where
  "RotateRefreshToken str cast H rand newV7 secret now c =
     and_then (wrapped LookupErr (GetRefreshTokenByHash cast (HashRefreshSecret H secret) c))
       (\<lambda>found c.
          case found of
            None \<Rightarrow> (Inr (refusing ErrRefreshTokenInvalid), c)
          | Some presented \<Rightarrow>
              and_then (wrapped LockErr (LockRefreshTokenFamily (str (family_id presented)) c))
                (\<lambda>_ c.
                   if revoked_at presented \<noteq> None then
                     and_then
                       (wrapped FamilyRevokeErr
                         (RevokeRefreshTokenFamily cast (family_id presented) c))
                       (\<lambda>_ c. (Inr (refusing ErrRefreshTokenReused), c))
                   else if expired now presented then
                     (Inr (refusing ErrRefreshTokenInvalid), c)
                   else
                     and_then (wrapped RevokeErr (RevokeRefreshTokenIfLive cast (rt_id presented) c))
                       (\<lambda>revoked c.
                          if revoked = 0 then (Inl LostRace, c)
                          else
                            and_then
                              (issueInFamilyReturningID cast H rand newV7
                                (rt_user_id presented) (family_id presented) now c)
                              (\<lambda>(fresh, freshID) c.
                                 and_then
                                   (wrapped LinkErr
                                     (SetRefreshTokenReplacedBy cast (rt_id presented) freshID c))
                                   (\<lambda>_ c. (Inr (rotated fresh), c))))))"

text \<open>
  A caller of the package: the rotation runs inside \<^verbatim>\<open>WithAuthUser\<close>, its error is the
  callback's error, and its outcome is kept beside the transaction.
\<close>

record rotation_conn = "authdb pgconn" +
  outcome :: "rotation_outcome option"

definition rotation_callback where
  "rotation_callback str cast H rand newV7 secret now c =
     (case RotateRefreshToken str cast H rand newV7 secret now c of
        (Inl e, c1) \<Rightarrow> (Return (Some e), c1)
      | (Inr o', c1) \<Rightarrow> (Return None, c1\<lparr>outcome := Some o'\<rparr>))"

definition rotate_session where
  "rotate_session str cast H rand newV7 userID secret now c =
     WithAuthUser str pg_driver userID
       (rotation_callback str cast H rand newV7 secret now) (c\<lparr>outcome := None\<rparr>)"

end
