(* ===== verification/SessionSpec.thy ===== *)
theory SessionSpec imports Session
begin

text \<open>
  What a rotation may do, as an abstract specification over the table alone, and the proof that
  \<^verbatim>\<open>RotateRefreshToken\<close>, statement by statement on a connection that can fail at any of them,
  implements it.
\<close>

section \<open>The specification\<close>

definition revoke_where :: "(refresh_token \<Rightarrow> bool) \<Rightarrow> time \<Rightarrow> refresh_token list \<Rightarrow> refresh_token list" where
  "revoke_where P t ts = map (\<lambda>r. if P r then r\<lparr>revoked_at := Some t\<rparr> else r) ts"

definition link_to :: "uuid \<Rightarrow> uuid \<Rightarrow> refresh_token list \<Rightarrow> refresh_token list" where
  "link_to i new ts = map (\<lambda>r. if rt_id r = i then r\<lparr>replaced_by := Some new\<rparr> else r) ts"

text \<open>
  For the user \<open>u\<close>, the presented hash \<open>h\<close>, the caller's clock \<open>now\<close> and the transaction's
  clock \<open>t\<close>: which outcome, and which table, a rotation may end with.
\<close>

inductive rotation_spec ::
  "(bytes \<Rightarrow> bytes) \<Rightarrow> uuid \<Rightarrow> bytes \<Rightarrow> time \<Rightarrow> time \<Rightarrow> refresh_token list \<Rightarrow> rotation_outcome
   \<Rightarrow> refresh_token list \<Rightarrow> bool"
  for H u h now t ts where
  unknown: "find (\<lambda>r. rt_user_id r = u \<and> token_hash r = h) ts = None \<Longrightarrow>
    rotation_spec H u h now t ts (refusing ErrRefreshTokenInvalid) ts"
| reused: "find (\<lambda>r. rt_user_id r = u \<and> token_hash r = h) ts = Some p \<Longrightarrow> \<not> live p \<Longrightarrow>
    rotation_spec H u h now t ts (refusing ErrRefreshTokenReused)
      (revoke_where (\<lambda>r. rt_user_id r = u \<and> family_id r = family_id p \<and> live r) t ts)"
| stale: "find (\<lambda>r. rt_user_id r = u \<and> token_hash r = h) ts = Some p \<Longrightarrow> live p \<Longrightarrow> expired now p \<Longrightarrow>
    rotation_spec H u h now t ts (refusing ErrRefreshTokenInvalid) ts"
| fresh: "find (\<lambda>r. rt_user_id r = u \<and> token_hash r = h) ts = Some p \<Longrightarrow> live p \<Longrightarrow> \<not> expired now p \<Longrightarrow>
    i \<notin> set (map rt_id ts) \<Longrightarrow> H secret \<notin> set (map token_hash ts) \<Longrightarrow>
    rotation_spec H u h now t ts (rotated (FormatRefreshCookie u secret))
      (link_to (rt_id p) i
        (revoke_where (\<lambda>r. rt_id r = rt_id p) t ts @
         [new_token_row i u (H secret) (family_id p) (now + RefreshTokenLifetime) t]))"

inductive_cases rotation_successE: "rotation_spec H u h now t ts (rotated cookie) ts'"
inductive_cases rotation_refusalE: "rotation_spec H u h now t ts (refusing why) ts'"

lemma find_member: "find P xs = Some x \<Longrightarrow> x \<in> set xs \<and> P x"
  by (auto simp: find_Some_iff)

section \<open>The code refines the specification\<close>

lemma get_step:
  assumes "in_scope cast u c db" and "GetRefreshTokenByHash cast h c = (Inr found, c')"
  shows "found = find (\<lambda>r. rt_user_id r = u \<and> token_hash r = h) (refresh_tokens db)
    \<and> in_scope cast u c' db \<and> clock c' = clock c"
  using in_scope_step [OF assms(1) assms(2) [unfolded GetRefreshTokenByHash_def]]
  by (simp add: sql_GetRefreshTokenByHash_def)

lemma family_step:
  assumes "in_scope cast u c db" and "RevokeRefreshTokenFamily cast fam c = (Inr n, c')"
  shows "in_scope cast u c' (db\<lparr>refresh_tokens := revoke_where
      (\<lambda>r. rt_user_id r = u \<and> family_id r = fam \<and> live r) (clock c) (refresh_tokens db)\<rparr>)
    \<and> clock c' = clock c"
  using in_scope_step [OF assms(1) assms(2) [unfolded RevokeRefreshTokenFamily_def]]
  by (auto simp: sql_RevokeRefreshTokenFamily_def update_tokens_def revoke_where_def)

lemma revoke_step:
  assumes "in_scope cast u c db" and "RevokeRefreshTokenIfLive cast i c = (Inr n, c')"
  shows "n = length (filter (\<lambda>r. rt_user_id r = u \<and> rt_id r = i \<and> live r) (refresh_tokens db))
    \<and> in_scope cast u c' (db\<lparr>refresh_tokens := revoke_where
      (\<lambda>r. rt_user_id r = u \<and> rt_id r = i \<and> live r) (clock c) (refresh_tokens db)\<rparr>)
    \<and> clock c' = clock c"
  using in_scope_step [OF assms(1) assms(2) [unfolded RevokeRefreshTokenIfLive_def]]
  by (auto simp: sql_RevokeRefreshTokenIfLive_def update_tokens_def revoke_where_def)

lemma insert_step:
  assumes "in_scope cast u c db" and "InsertRefreshToken cast r c = (Inr x, c')"
  shows "in_scope cast u c' (db\<lparr>refresh_tokens := refresh_tokens db @ [r]\<rparr>) \<and> clock c' = clock c
    \<and> rt_user_id r = u \<and> rt_id r \<notin> set (map rt_id (refresh_tokens db))
    \<and> token_hash r \<notin> set (map token_hash (refresh_tokens db))
    \<and> (live r \<longrightarrow> family_id r \<notin> set (map family_id (filter live (refresh_tokens db))))"
  using in_scope_step [OF assms(1) assms(2) [unfolded InsertRefreshToken_def]]
  by (auto simp: sql_InsertRefreshToken_def split: if_splits)

lemma link_step:
  assumes "in_scope cast u c db" and "SetRefreshTokenReplacedBy cast i new c = (Inr x, c')"
  shows "in_scope cast u c' (db\<lparr>refresh_tokens :=
      map (\<lambda>r. if rt_user_id r = u \<and> rt_id r = i then r\<lparr>replaced_by := Some new\<rparr> else r)
        (refresh_tokens db)\<rparr>) \<and> clock c' = clock c"
  using in_scope_step [OF assms(1) assms(2) [unfolded SetRefreshTokenReplacedBy_def]]
  by (auto simp: sql_SetRefreshTokenReplacedBy_def update_tokens_def Let_def split: if_splits)

lemma issue_step:
  assumes "in_scope cast u c db"
    and "issueInFamilyReturningID cast H rand newV7 owner fam now c = (Inr (cookie, i), c')"
  shows "\<exists>secret. rand RefreshSecretLength = Some secret \<and> newV7 = Some i \<and> owner = u
    \<and> cookie = FormatRefreshCookie u secret
    \<and> i \<notin> set (map rt_id (refresh_tokens db)) \<and> H secret \<notin> set (map token_hash (refresh_tokens db))
    \<and> fam \<notin> set (map family_id (filter live (refresh_tokens db)))
    \<and> in_scope cast u c' (db\<lparr>refresh_tokens := refresh_tokens db
        @ [new_token_row i u (H secret) fam (now + RefreshTokenLifetime) (clock c)]\<rparr>)
    \<and> clock c' = clock c"
proof -
  from assms(2) obtain secret where d: "rand RefreshSecretLength = Some secret" "newV7 = Some i"
    "cookie = FormatRefreshCookie owner secret"
    and ins: "InsertRefreshToken cast (new_token_row i owner (H secret) fam
      (now + RefreshTokenLifetime) (clock c)) c = (Inr (), c')"
    by (auto simp: issueInFamilyReturningID_def NewRefreshSecret_def HashRefreshSecret_def
        and_then_Inr wrapped_Inr split: option.splits)
  from insert_step [OF assms(1) ins] d show ?thesis
    by (auto simp: new_token_row_def live_def)
qed

text \<open>On a table with unique ids, the code's row conditions pick out the presented row alone.\<close>

lemma by_id_only:
  assumes "distinct (map rt_id ts)" and "p \<in> set ts" and "r \<in> set ts" and "rt_id r = rt_id p"
  shows "r = p"
  using assms distinct_map_key by metis

lemma revoke_where_cong:
  "(\<And>r. r \<in> set ts \<Longrightarrow> P r \<longleftrightarrow> Q r) \<Longrightarrow> revoke_where P t ts = revoke_where Q t ts"
  by (simp add: revoke_where_def)

lemma set_map_revoke_where [simp]:
  "map rt_id (revoke_where P t ts) = map rt_id ts"
  "map token_hash (revoke_where P t ts) = map token_hash ts"
  "map rt_user_id (revoke_where P t ts) = map rt_user_id ts"
  "map family_id (revoke_where P t ts) = map family_id ts"
  unfolding revoke_where_def by (rule map_update_same; simp)+

lemma revoke_own:
  assumes "tokens_ok ts" and "p \<in> set ts" and "rt_user_id p = u" and "live p"
  shows "revoke_where (\<lambda>r. rt_user_id r = u \<and> rt_id r = rt_id p \<and> live r) t ts
    = revoke_where (\<lambda>r. rt_id r = rt_id p) t ts"
  using by_id_only [of ts p] assms by (intro revoke_where_cong) (auto simp: tokens_ok_def)

lemma link_own:
  assumes "tokens_ok ts" and "p \<in> set ts" and "rt_user_id p = u" and "rt_user_id new = u"
  shows "map (\<lambda>r. if rt_user_id r = u \<and> rt_id r = rt_id p then r\<lparr>replaced_by := Some i\<rparr> else r)
      (revoke_where P t ts @ [new]) = link_to (rt_id p) i (revoke_where P t ts @ [new])"
proof -
  have own: "rt_user_id r = u" if "r \<in> set ts" "rt_id r = rt_id p" for r
    using by_id_only [of ts p r] assms that by (simp add: tokens_ok_def)
  have "rt_user_id r = u" if "r \<in> set (revoke_where P t ts @ [new])" "rt_id r = rt_id p" for r
    using that own assms(4) by (auto simp: revoke_where_def split: if_splits)
  then show ?thesis unfolding link_to_def by (intro map_cong) auto
qed

theorem rotate_refines:
  assumes ok: "tokens_ok (refresh_tokens db)" and sc: "in_scope cast u c db"
    and run: "RotateRefreshToken str cast H rand newV7 secret now c = (Inr out, c')"
  shows "\<exists>ts'. in_scope cast u c' (db\<lparr>refresh_tokens := ts'\<rparr>)
    \<and> rotation_spec H u (H secret) now (clock c) (refresh_tokens db) out ts'"
proof -
  from run obtain found c1 where g: "GetRefreshTokenByHash cast (H secret) c = (Inr found, c1)"
    by (auto simp: RotateRefreshToken_def HashRefreshSecret_def and_then_Inr wrapped_Inr)
  from get_step [OF sc g] have found: "found = find (\<lambda>r. rt_user_id r = u \<and> token_hash r = H secret) (refresh_tokens db)"
    and sc1: "in_scope cast u c1 db" and k1: "clock c1 = clock c" by auto
  show ?thesis
  proof (cases found)
    case None
    with run g sc1 found show ?thesis
      by (auto simp: RotateRefreshToken_def HashRefreshSecret_def intro!: exI [of _ "refresh_tokens db"]
          rotation_spec.unknown)
  next
    case (Some p)
    with found have p: "find (\<lambda>r. rt_user_id r = u \<and> token_hash r = H secret) (refresh_tokens db) = Some p"
      by simp
    then have pin: "p \<in> set (refresh_tokens db)" "rt_user_id p = u" by (auto dest: find_member)
    from run g Some obtain c2 where l: "LockRefreshTokenFamily (str (family_id p)) c1 = (Inr (), c2)"
      by (auto simp: RotateRefreshToken_def HashRefreshSecret_def and_then_Inr wrapped_Inr)
    from in_scope_lock [OF sc1 l] k1 have sc2: "in_scope cast u c2 db" and k2: "clock c2 = clock c"
      by auto
    note code = run [unfolded RotateRefreshToken_def HashRefreshSecret_def g Some wrapped_simps
        and_then_simps option.simps l]
    show ?thesis
    proof (cases "live p")
      case False
      with code obtain n where f: "RevokeRefreshTokenFamily cast (family_id p) c2 = (Inr n, c')"
        and o: "out = refusing ErrRefreshTokenReused"
        by (auto simp: live_def and_then_Inr wrapped_Inr)
      from family_step [OF sc2 f] k2 o rotation_spec.reused [OF p False] show ?thesis by auto
    next
      case live: True
      show ?thesis
      proof (cases "expired now p")
        case True
        with code live sc2 rotation_spec.stale [OF p live True] show ?thesis
          by (auto simp: live_def intro!: exI [of _ "refresh_tokens db"])
      next
        case fresh: False
        with code live obtain n c3 i cookie c4 where
          r: "RevokeRefreshTokenIfLive cast (rt_id p) c2 = (Inr n, c3)"
          and iss: "issueInFamilyReturningID cast H rand newV7 (rt_user_id p) (family_id p) now c3
            = (Inr (cookie, i), c4)"
          and lk: "SetRefreshTokenReplacedBy cast (rt_id p) i c4 = (Inr (), c')"
          and o: "out = rotated cookie"
          by (auto simp: live_def and_then_Inr wrapped_Inr split: if_splits)
        let ?ts = "refresh_tokens db" and ?t = "clock c"
        let ?ts1 = "revoke_where (\<lambda>r. rt_id r = rt_id p) ?t ?ts"
        have "revoke_where (\<lambda>r. rt_user_id r = u \<and> rt_id r = rt_id p \<and> live r) ?t ?ts = ?ts1"
          by (rule revoke_own [OF ok pin live])
        with revoke_step [OF sc2 r] k2 have sc3: "in_scope cast u c3 (db\<lparr>refresh_tokens := ?ts1\<rparr>)"
          and k3: "clock c3 = ?t" by auto
        from issue_step [OF sc3 iss] k3 obtain secret' where
          new: "cookie = FormatRefreshCookie u secret'" "i \<notin> set (map rt_id ?ts)"
            "H secret' \<notin> set (map token_hash ?ts)"
          and sc4: "in_scope cast u c4 (db\<lparr>refresh_tokens := ?ts1 @ [new_token_row i u (H secret')
            (family_id p) (now + RefreshTokenLifetime) ?t]\<rparr>)" (is "in_scope _ _ _ (db\<lparr>refresh_tokens := ?ts2\<rparr>)")
          by (auto simp del: set_map)
        note link_own [OF ok pin, of "new_token_row i u (H secret') (family_id p)
            (now + RefreshTokenLifetime) ?t" i "\<lambda>r. rt_id r = rt_id p" ?t]
        with link_step [OF sc4 lk] new(1) o
          rotation_spec.fresh [OF p live fresh new(2), where H = H and secret = secret', OF new(3)]
        show ?thesis by auto
      qed
    qed
  qed
qed

end
