(* ===== verification/SessionProps.thy ===== *)
theory SessionProps imports SessionSpec
begin

text \<open>
  What the refresh rotation guarantees: invariants and consequences of \<open>rotation_spec\<close>, the
  rotation as a committed transaction on a pooled connection, and the effect of a sequence of
  rotations on a family.
\<close>

section \<open>Consequences of the specification\<close>

definition dead_family :: "uuid \<Rightarrow> refresh_token list \<Rightarrow> bool" where
  "dead_family fam ts \<longleftrightarrow> (\<forall>r \<in> set ts. family_id r = fam \<longrightarrow> \<not> live r)"

text \<open>A family belongs to one user: \<^verbatim>\<open>IssueRefreshToken\<close> draws a new family, rotation keeps both.\<close>

definition families_owned :: "refresh_token list \<Rightarrow> bool" where
  "families_owned ts \<longleftrightarrow>
     (\<forall>r \<in> set ts. \<forall>s \<in> set ts. family_id r = family_id s \<longrightarrow> rt_user_id r = rt_user_id s)"

definition spent :: "uuid \<Rightarrow> bytes \<Rightarrow> refresh_token list \<Rightarrow> bool" where
  "spent u h ts \<longleftrightarrow> (\<exists>r \<in> set ts. rt_user_id r = u \<and> token_hash r = h \<and> \<not> live r)"

lemma revoke_where_tokens_ok: "tokens_ok ts \<Longrightarrow> tokens_ok (revoke_where P t ts)"
  unfolding revoke_where_def by (rule tokens_ok_revoke)

lemma filter_live_revoke_where:
  "filter live (revoke_where P t ts) = filter (\<lambda>r. \<not> P r) (filter live ts)"
  unfolding revoke_where_def by (rule filter_live_revoked)

lemma set_revoke_where: "r \<in> set (revoke_where P t ts) \<Longrightarrow>
  \<exists>s \<in> set ts. rt_id r = rt_id s \<and> rt_user_id r = rt_user_id s \<and> token_hash r = token_hash s
    \<and> family_id r = family_id s \<and> (live r \<longrightarrow> r = s \<and> \<not> P s) \<and> (\<not> live s \<longrightarrow> \<not> live r)"
  by (auto simp: revoke_where_def live_def)

lemma set_link_to: "r \<in> set (link_to i new ts) \<Longrightarrow>
  \<exists>s \<in> set ts. rt_id r = rt_id s \<and> rt_user_id r = rt_user_id s \<and> token_hash r = token_hash s
    \<and> family_id r = family_id s \<and> (live r \<longleftrightarrow> live s)"
  by (auto simp: link_to_def live_def)

lemma in_revoke_where: "r \<in> set ts \<Longrightarrow> \<not> live r \<Longrightarrow> \<exists>s \<in> set (revoke_where P t ts).
    rt_user_id s = rt_user_id r \<and> token_hash s = token_hash r \<and> \<not> live s"
  by (rule bexI [of _ "if P r then r\<lparr>revoked_at := Some t\<rparr> else r"])
    (auto simp: revoke_where_def live_def )

lemma in_link_to: "r \<in> set ts \<Longrightarrow> \<exists>s \<in> set (link_to i new ts).
    rt_user_id s = rt_user_id r \<and> token_hash s = token_hash r \<and> (live s \<longleftrightarrow> live r)"
  by (rule bexI [of _ "if rt_id r = i then r\<lparr>replaced_by := Some new\<rparr> else r"])
    (auto simp: link_to_def live_def)

lemma spec_tokens_ok:
  assumes "rotation_spec H u h now t ts out ts'" and ok: "tokens_ok ts"
  shows "tokens_ok ts'"
  using assms(1)
proof cases
  case (fresh p i secret)
  let ?new = "new_token_row i u (H secret) (family_id p) (now + RefreshTokenLifetime) t"
  let ?rev = "revoke_where (\<lambda>r. rt_id r = rt_id p) t ts"
  from fresh have p: "p \<in> set ts" by (auto dest: find_member)
  have "family_id p \<notin> set (map family_id (filter live ?rev))"
  proof
    assume "family_id p \<in> set (map family_id (filter live ?rev))"
    then obtain r where "r \<in> set (filter live ts)" "rt_id r \<noteq> rt_id p" "family_id r = family_id p"
      by (auto simp: filter_live_revoke_where simp del: set_filter filter_filter)
        (auto simp: filter_live_revoke_where)
    with p fresh(4) ok show False
      using distinct_map_key [of family_id "filter live ts" r p] by (auto simp: tokens_ok_def)
  qed
  then have "tokens_ok (?rev @ [?new])"
    using fresh revoke_where_tokens_ok [OF ok, of "\<lambda>r. rt_id r = rt_id p" t]
    by (intro tokens_ok_insert) (simp_all del: set_map)
  from tokens_ok_relink [OF this, of i "\<lambda>r. rt_id r = rt_id p"] fresh(2) show ?thesis
    unfolding link_to_def by simp
qed (use ok revoke_where_tokens_ok in auto)


text \<open>Every row after a rotation was there before, or is the successor of the live row presented.\<close>

lemma spec_row:
  assumes "rotation_spec H u h now t ts out ts'" and "r \<in> set ts'"
  shows "(\<exists>s \<in> set ts. family_id r = family_id s \<and> rt_user_id r = rt_user_id s \<and> (live r \<longrightarrow> live s))
    \<or> (\<exists>p \<in> set ts. live p \<and> family_id r = family_id p \<and> rt_user_id r = rt_user_id p)"
  using assms(1)
proof cases
  case (fresh p i secret)
  from fresh have p: "p \<in> set ts" "rt_user_id p = u" by (auto dest: find_member)
  from set_link_to [OF assms(2) [unfolded fresh(2)]] obtain s where
    s: "family_id r = family_id s" "rt_user_id r = rt_user_id s" "live r \<longleftrightarrow> live s"
    and m: "s \<in> set (revoke_where (\<lambda>r. rt_id r = rt_id p) t ts @
      [new_token_row i u (H secret) (family_id p) (now + RefreshTokenLifetime) t])"
    by blast
  show ?thesis
  proof (cases "s \<in> set (revoke_where (\<lambda>r. rt_id r = rt_id p) t ts)")
    case True
    from set_revoke_where [OF this] s show ?thesis by auto
  next
    case False
    with m have "s = new_token_row i u (H secret) (family_id p) (now + RefreshTokenLifetime) t" by simp
    with s p fresh(4) show ?thesis by (intro disjI2 bexI [of _ p]) simp_all
  qed
qed (use assms(2) in \<open>auto dest!: set_revoke_where\<close>)

lemma spec_families_owned:
  assumes "rotation_spec H u h now t ts out ts'" and "families_owned ts"
  shows "families_owned ts'"
proof -
  have "\<exists>s \<in> set ts. family_id r = family_id s \<and> rt_user_id r = rt_user_id s" if "r \<in> set ts'" for r
    using spec_row [OF assms(1) that] by blast
  with assms(2) show ?thesis unfolding families_owned_def by metis
qed

lemma spec_dead_family:
  assumes "rotation_spec H u h now t ts out ts'" and "dead_family fam ts"
  shows "dead_family fam ts'"
  using spec_row [OF assms(1)] assms(2) unfolding dead_family_def by metis

lemma spent_revoke: "spent u h ts \<Longrightarrow> spent u h (revoke_where P t ts)"
  unfolding spent_def using in_revoke_where by metis

lemma spent_link: "spent u h ts \<Longrightarrow> spent u h (link_to i new (ts @ us))"
  unfolding spent_def using in_link_to [of _ "ts @ us" i new] by (metis UnCI set_append)

lemma spec_spent:
  "rotation_spec H u h' now t ts out ts' \<Longrightarrow> spent u' h ts \<Longrightarrow> spent u' h ts'"
  by (erule rotation_spec.cases) (auto intro: spent_revoke spent_link)

lemma spec_reuse:
  assumes spec: "rotation_spec H u h now t ts out ts'" and ok: "tokens_ok ts" and sp: "spent u h ts"
  shows "out = refusing ErrRefreshTokenReused"
    and "families_owned ts \<Longrightarrow> p \<in> set ts \<Longrightarrow> token_hash p = h \<Longrightarrow> dead_family (family_id p) ts'"
proof -
  from sp obtain r where r: "r \<in> set ts" "\<not> live r" "rt_user_id r = u" "token_hash r = h"
    by (auto simp: spent_def)
  have uniq: "q = r" if "q \<in> set ts" "token_hash q = h" for q
    using that r ok distinct_map_key [of token_hash ts q r] by (simp add: tokens_ok_def)
  from r(1,3,4) have "find (\<lambda>r. rt_user_id r = u \<and> token_hash r = h) ts \<noteq> None"
    by (auto simp: find_None_iff)
  then have f: "find (\<lambda>r. rt_user_id r = u \<and> token_hash r = h) ts = Some r"
    using uniq by (auto dest: find_member)
  from spec f r(2) have o: "out = refusing ErrRefreshTokenReused \<and>
      ts' = revoke_where (\<lambda>q. rt_user_id q = u \<and> family_id q = family_id r \<and> live q) t ts"
    by cases auto
  then show "out = refusing ErrRefreshTokenReused" ..
  assume own: "families_owned ts" and "p \<in> set ts" "token_hash p = h"
  with uniq have "p = r" by blast
  have "\<not> live q" if q: "q \<in> set ts'" "family_id q = family_id p" for q
  proof
    assume "live q"
    from q o have "q \<in> set (revoke_where (\<lambda>q. rt_user_id q = u \<and> family_id q = family_id r \<and> live q) t ts)"
      by simp
    from set_revoke_where [OF this] \<open>live q\<close> have "q \<in> set ts" "rt_user_id q \<noteq> u \<or> family_id q \<noteq> family_id r"
      by auto
    with q \<open>p = r\<close> r own show False unfolding families_owned_def by blast
  qed
  then show "dead_family (family_id p) ts'" by (simp add: dead_family_def)
qed

lemma spec_success:
  assumes "rotation_spec H u h now t ts (rotated cookie) ts'"
  shows "spent u h ts' \<and> (\<exists>secret new p. cookie = FormatRefreshCookie u secret \<and> new \<in> set ts'
    \<and> token_hash new = H secret \<and> live new \<and> rt_user_id new = u
    \<and> expires_at new = Some (now + RefreshTokenLifetime)
    \<and> p \<in> set ts \<and> token_hash p = h \<and> live p \<and> rt_user_id p = u \<and> family_id new = family_id p
    \<and> rt_id new \<notin> set (map rt_id ts))"
  using assms
proof cases
  case (fresh p i secret)
  let ?new = "new_token_row i u (H secret) (family_id p) (now + RefreshTokenLifetime) t"
  let ?ts = "revoke_where (\<lambda>r. rt_id r = rt_id p) t ts @ [?new]"
  from fresh have p: "p \<in> set ts" "rt_user_id p = u" "token_hash p = h" by (auto dest: find_member)
  then have "p\<lparr>revoked_at := Some t\<rparr> \<in> set ?ts" by (auto simp: revoke_where_def)
  from in_link_to [OF this, of "rt_id p" i] p fresh have "spent u h ts'"
    by (auto simp: spent_def live_def)
  moreover from fresh p have "rt_id p \<noteq> i" by auto
  then have "?new \<in> set ts'" using fresh(2) by (simp add: link_to_def)
  ultimately show ?thesis using fresh p
    by (intro conjI exI [of _ secret] exI [of _ ?new] exI [of _ p])
      (simp_all add: rotated_def del: set_map)
qed (simp_all add: rotated_def refusing_def)

lemma filter_kept_on:
  "(\<And>r. r \<in> set ts \<Longrightarrow> P r \<Longrightarrow> \<not> Q r \<and> \<not> Q (f r)) \<Longrightarrow>
   filter Q (map (\<lambda>r. if P r then f r else r) ts) = filter Q ts"
  by (induction ts) auto

lemma spec_others_kept:
  assumes "rotation_spec H u h now t ts out ts'" and ok: "tokens_ok ts"
  shows "filter (\<lambda>r. rt_user_id r \<noteq> u) ts' = filter (\<lambda>r. rt_user_id r \<noteq> u) ts"
  using assms(1)
proof cases
  case (reused p)
  then show ?thesis unfolding revoke_where_def by (simp, intro filter_kept_on) auto
next
  case (fresh p i secret)
  from fresh have p: "p \<in> set ts" and "rt_user_id p = u" by (auto dest: find_member)
  then have own: "r \<in> set ts \<Longrightarrow> rt_id r = rt_id p \<Longrightarrow> rt_user_id r = u" for r
    using by_id_only [OF _ p] ok by (metis tokens_ok_def)
  have rows: "filter (\<lambda>r. rt_user_id r \<noteq> u) (link_to (rt_id p) i us) = filter (\<lambda>r. rt_user_id r \<noteq> u) us"
    if "\<And>r. r \<in> set us \<Longrightarrow> rt_id r = rt_id p \<Longrightarrow> rt_user_id r = u" for us
    using that by (induction us) (auto simp: link_to_def)
  have "filter (\<lambda>r. rt_user_id r \<noteq> u) ts' = filter (\<lambda>r. rt_user_id r \<noteq> u)
      (revoke_where (\<lambda>r. rt_id r = rt_id p) t ts @
       [new_token_row i u (H secret) (family_id p) (now + RefreshTokenLifetime) t])"
    unfolding fresh(2) by (intro rows) (auto dest!: set_revoke_where dest: own)
  also have "\<dots> = filter (\<lambda>r. rt_user_id r \<noteq> u) ts"
    unfolding revoke_where_def
    using filter_kept_on [of ts "\<lambda>r. rt_id r = rt_id p" "\<lambda>r. rt_user_id r \<noteq> u"
      "\<lambda>r. r\<lparr>revoked_at := Some t\<rparr>"] own by auto
  finally show ?thesis .
qed simp_all

section \<open>The rotation as a transaction\<close>

lemma store_framed [frames]:
  "framed (\<lambda>c. and_then (wrapped f (InsertRefreshToken cast (new_token_row i u h fam e (clock c)) c))
      (\<lambda>_ c. (Inr r, c)))"
  by (rule framed_row) (intro frames)

lemma issue_framed [frames]: "framed (issueInFamilyReturningID cast H rand newV7 u fam now)"
  unfolding issueInFamilyReturningID_def [abs_def] by (intro frames)

lemma rotate_framed: "framed (RotateRefreshToken str cast H rand newV7 secret now)"
  unfolding RotateRefreshToken_def [abs_def] by (rule frames)+

lemma callback_session:
  assumes "rotation_callback str cast H rand newV7 secret now c = (r, c')"
  shows "data c' = data c \<and> (work c' = None \<longleftrightarrow> work c = None) \<and> session_guc c' = session_guc c
    \<and> staged_guc c' = staged_guc c"
proof -
  obtain q c1 where q: "RotateRefreshToken str cast H rand newV7 secret now c = (q, c1)" by force
  from framedD [OF rotate_framed q] have "same_session c c1" .
  with assms q show ?thesis
    by (auto simp: rotation_callback_def same_session_def split: sum.splits)
qed

lemma callback_confined: "pg.confined (rotation_callback str cast H rand newV7 secret now)"
  unfolding pg.confined_def using callback_session session_setting_cong
  by (fastforce simp: pg_open_def)

lemma outcome_more: "pgconn.more a = pgconn.more b \<Longrightarrow> outcome a = outcome b"
  by (cases a rule: rotation_conn.cases_scheme; cases b rule: rotation_conn.cases_scheme) simp

lemma rotate_session_enters:
  assumes "rotate_session str cast H rand newV7 u secret now c = (Return None, c')"
  shows "\<exists>c1 c2 out. scoped_start ''app.user_id'' (str u) (c\<lparr>outcome := None\<rparr>) c1
    \<and> RotateRefreshToken str cast H rand newV7 secret now c1 = (Inr out, c2)
    \<and> outcome c' = Some out \<and> work c2 = Some (data c') \<and> pg_idle c'"
proof -
  let ?fn = "rotation_callback str cast H rand newV7 secret now"
  from assms have "with_scope ErrNoAuthUser (SetConfig ''app.user_id'' True) str pg_driver u ?fn
      (c\<lparr>outcome := None\<rparr>) = (Return None, c')"
    by (simp add: rotate_session_def WithAuthUser_scope setAuthScopeSQL_def)
  from pg_scope_enters [OF this] obtain c1 where c1: "scoped_start ''app.user_id'' (str u) (c\<lparr>outcome := None\<rparr>) c1"
    and "deferred_rollback pg_driver (run_and_commit pg_driver ?fn c1) = (Return None, c')"
    by (auto simp: refused_def)
  from pg_run_committed [OF this(2)] obtain c3 where c3: "?fn c1 = (Return None, c3)"
    "work c3 = Some (data c')" "pg_idle c'" "pgconn.more c' = pgconn.more c3" by auto
  then obtain out c2 where "RotateRefreshToken str cast H rand newV7 secret now c1 = (Inr out, c2)"
    and "c3 = c2\<lparr>outcome := Some out\<rparr>"
    by (auto simp: rotation_callback_def split: prod.splits sum.splits)
  moreover from c3(4) this(2) have "outcome c' = Some out"
    using outcome_more [of c' c3] by simp
  ultimately show ?thesis using c1 c3 by auto
qed

lemma rotate_session_refines:
  assumes "tokens_ok (refresh_tokens (data c))" and "str u \<noteq> []" and "cast (str u) = Some u"
    and "rotate_session str cast H rand newV7 u secret now c = (Return None, c')"
  shows "\<exists>out ts'. outcome c' = Some out
    \<and> rotation_spec H u (H secret) now (clock c) (refresh_tokens (data c)) out ts'
    \<and> data c' = (data c)\<lparr>refresh_tokens := ts'\<rparr> \<and> pg_idle c'"
proof -
  from rotate_session_enters [OF assms(4)] obtain c1 c2 out where
    st: "scoped_start ''app.user_id'' (str u) (c\<lparr>outcome := None\<rparr>) c1"
    and run: "RotateRefreshToken str cast H rand newV7 secret now c1 = (Inr out, c2)"
    and c2: "outcome c' = Some out" "work c2 = Some (data c')" "pg_idle c'" by auto
  have "in_scope cast u c1 (data c)" "clock c1 = clock c"
    using scoped_in_scope [where str = str and cast = cast, OF st assms(2,3)] st by (simp_all add: scoped_start_def)
  with rotate_refines [OF assms(1) _ run] obtain ts' where
    "work c2 = Some ((data c)\<lparr>refresh_tokens := ts'\<rparr>)"
    "rotation_spec H u (H secret) now (clock c) (refresh_tokens (data c)) out ts'"
    by (auto simp: in_scope_def)
  with c2 show ?thesis by auto
qed

lemma failed_rotation:
  assumes "pg_idle c" and "str u \<noteq> []"
    and "rotate_session str cast H rand newV7 u secret now c = (r, c')" and "r \<noteq> Return None"
  shows "pg_idle c' \<and> session_setting c' = session_setting c
    \<and> (data c' = data c \<or> (\<exists>e. r = Return (Some (CommitFailed e))))"
proof -
  let ?fn = "rotation_callback str cast H rand newV7 secret now"
  have idle: "pg_idle (c\<lparr>outcome := None\<rparr>)" using assms(1) by (simp add: pg_idle_def)
  have err: "refused (Return (Some ErrNoAuthUser))" by (simp add: refused_def)
  have run: "with_scope ErrNoAuthUser (SetConfig ''app.user_id'' True) str pg_driver u ?fn
      (c\<lparr>outcome := None\<rparr>) = (r, c')"
    using assms(3) by (simp add: rotate_session_def WithAuthUser_scope setAuthScopeSQL_def)
  have "session_setting (c\<lparr>outcome := None\<rparr>) = session_setting c"
    by (rule session_setting_cong) simp
  with pg.with_scope_contract [OF callback_confined idle assms(2) err run] assms(4) show ?thesis
    by (auto dest!: commit_or_nothing_kept)
qed

section \<open>Properties of a rotation\<close>

text \<open>C1: A rotation that is reported as committed has exactly the effect its specification allows
  for the cookie's user, the hash of the presented secret, the caller's clock and the
  transaction's clock; it touches no other table, and it leaves the connection idle.\<close>

theorem rotation_refines_spec:
  assumes "tokens_ok (refresh_tokens (data c))" and "str u \<noteq> []" and "cast (str u) = Some u"
    and "rotate_session str cast H rand newV7 u secret now c = (Return None, c')"
  shows "\<exists>out ts'. outcome c' = Some out
    \<and> rotation_spec H u (H secret) now (clock c) (refresh_tokens (data c)) out ts'
    \<and> data c' = (data c)\<lparr>refresh_tokens := ts'\<rparr> \<and> pg_idle c'"
  using assms by (rule rotate_session_refines)

text \<open>A rotation that is not reported as committed has stored nothing, unless the failure is
  the commit's own; either way the connection is idle again and carries no scope.\<close>

theorem failed_rotation_stores_nothing:
  assumes "pg_idle c" and "str u \<noteq> []"
    and "rotate_session str cast H rand newV7 u secret now c = (r, c')" and "r \<noteq> Return None"
  shows "pg_idle c' \<and> session_setting c' = session_setting c
    \<and> (data c' = data c \<or> (\<exists>e. r = Return (Some (CommitFailed e))))"
  using assms by (rule failed_rotation)

text \<open>C4: Presenting a secret whose token was already spent is answered as reuse, and the answer is
  committed together with the end of the whole session: no token of that family is live any more.\<close>

theorem reuse_burns_family:
  assumes "tokens_ok (refresh_tokens (data c))" and "families_owned (refresh_tokens (data c))"
    and "str u \<noteq> []" and "cast (str u) = Some u"
    and "p \<in> set (refresh_tokens (data c))" and "rt_user_id p = u" and "token_hash p = H secret"
    and "revoked_at p \<noteq> None"
    and "rotate_session str cast H rand newV7 u secret now c = (Return None, c')"
  shows "outcome c' = Some (refusing ErrRefreshTokenReused)
    \<and> dead_family (family_id p) (refresh_tokens (data c'))"
proof -
  from assms(9) obtain out ts' where o: "outcome c' = Some out"
    "rotation_spec H u (H secret) now (clock c) (refresh_tokens (data c)) out ts'"
    "data c' = (data c)\<lparr>refresh_tokens := ts'\<rparr>"
    using rotate_session_refines [where str = str and cast = cast, OF assms(1,3,4)] by blast
  have "spent u (H secret) (refresh_tokens (data c))"
    using assms(5-8) by (auto simp: spent_def live_def)
  from spec_reuse [OF o(2) assms(1) this] o assms(2,5,7) show ?thesis by auto
qed

section \<open>Any number of rotations, one after another\<close>

text \<open>
  A client's requests, each with what the outside gives that call: the caller's clock, the
  database's clock, the random source and the next uuid. Infrastructure faults come from the
  connection's script and may hit any statement of any request.
\<close>

record rotation_request =
  rq_user :: uuid
  rq_secret :: bytes
  rq_now :: time
  rq_clock :: time
  rq_rand :: "nat \<Rightarrow> bytes option"
  rq_id :: "uuid option"

fun serve_rotations where
  "serve_rotations str cast H [] c = ([], c)"
| "serve_rotations str cast H (q # qs) c =
     (case rotate_session str cast H (rq_rand q) (rq_id q) (rq_user q) (rq_secret q) (rq_now q)
             (c\<lparr>clock := rq_clock q\<rparr>) of
        (r, c1) \<Rightarrow> (case serve_rotations str cast H qs c1 of (rs, c2) \<Rightarrow> ((r, outcome c1) # rs, c2)))"

definition won :: "'e tx_error call \<times> rotation_outcome option \<Rightarrow> bool" where
  "won r \<longleftrightarrow> fst r = Return None \<and> (case snd r of None \<Rightarrow> False | Some out \<Rightarrow> Refusal out = None)"

definition burned :: "'e tx_error call \<times> rotation_outcome option \<Rightarrow> bool" where
  "burned r \<longleftrightarrow> fst r = Return None \<and> snd r = Some (refusing ErrRefreshTokenReused)"

lemma spec_rows_kept:
  assumes "rotation_spec H u h now t ts out ts'" and "r \<in> set ts"
  shows "\<exists>s \<in> set ts'. rt_user_id s = rt_user_id r \<and> token_hash s = token_hash r \<and> family_id s = family_id r"
proof -
  have rev: "\<exists>s \<in> set (revoke_where P t ts). rt_user_id s = rt_user_id r \<and> token_hash s = token_hash r
      \<and> family_id s = family_id r" for P
    using assms(2) by (intro bexI [of _ "if P r then r\<lparr>revoked_at := Some t\<rparr> else r"])
      (auto simp: revoke_where_def)
  have lnk: "\<exists>s \<in> set (link_to i new us). rt_user_id s = rt_user_id q \<and> token_hash s = token_hash q
      \<and> family_id s = family_id q" if "q \<in> set us" for q i new us
    using that by (intro bexI [of _ "if rt_id q = i then q\<lparr>replaced_by := Some new\<rparr> else q"])
      (auto simp: link_to_def)
  from assms(1) show ?thesis
  proof cases
    case (fresh p i secret)
    obtain q where q: "q \<in> set (revoke_where (\<lambda>r. rt_id r = rt_id p) t ts)" "rt_user_id q = rt_user_id r"
      "token_hash q = token_hash r" "family_id q = family_id r" using rev by blast
    then have "q \<in> set (revoke_where (\<lambda>r. rt_id r = rt_id p) t ts @
      [new_token_row i u (H secret) (family_id p) (now + RefreshTokenLifetime) t])" by simp
    from lnk [OF this] q show ?thesis unfolding fresh(2) by metis
  qed (use assms(2) rev in auto)
qed

lemma rotate_session_any:
  assumes "pg_idle c" and "tokens_ok (refresh_tokens (data c))" and "str u \<noteq> []"
    and "cast (str u) = Some u" and "rotate_session str cast H rand newV7 u secret now c = (r, c')"
  shows "\<exists>out ts'. data c' = (data c)\<lparr>refresh_tokens := ts'\<rparr> \<and> pg_idle c' \<and>
    (ts' = refresh_tokens (data c) \<and> r \<noteq> Return None \<or>
     rotation_spec H u (H secret) now (clock c) (refresh_tokens (data c)) out ts'
     \<and> (r = Return None \<longrightarrow> outcome c' = Some out))"
proof -
  let ?fn = "rotation_callback str cast H rand newV7 secret now"
  from assms(5) have run: "with_scope ErrNoAuthUser (SetConfig ''app.user_id'' True) str pg_driver u ?fn
      (c\<lparr>outcome := None\<rparr>) = (r, c')"
    by (simp add: rotate_session_def WithAuthUser_scope setAuthScopeSQL_def)
  consider "refused r" | c1 where "scoped_start ''app.user_id'' (str u) (c\<lparr>outcome := None\<rparr>) c1"
      "deferred_rollback pg_driver (run_and_commit pg_driver ?fn c1) = (r, c')"
    using pg_scope_enters [OF run] by (auto simp: refused_def)
  then show ?thesis
  proof cases
    case 1
    then have "r \<noteq> Return None" "\<not> (\<exists>e. r = Return (Some (CommitFailed e)))" by (auto simp: refused_def)
    with failed_rotation [OF assms(1,3,5)] show ?thesis
      by (intro exI [of _ "refusing ErrRefreshTokenInvalid"] exI [of _ "refresh_tokens (data c)"]) simp
  next
    case (2 c1)
    obtain r1 c2 where fn: "?fn c1 = (r1, c2)" by force
    note cb = callback_session [OF fn]
    have c1: "data c1 = data c" "work c1 \<noteq> None" "clock c1 = clock c"
      using 2(1) by (simp_all add: scoped_start_def)
    consider "pg_idle c'" "data c' = data c" "r \<noteq> Return None"
      | "pg_idle c'" "r1 = Return None" "work c2 = Some (data c')" "pgconn.more c' = pgconn.more c2"
      using pg_run_any [OF 2(2) fn] cb c1 by auto
    then show ?thesis
    proof cases
      case 1
      then show ?thesis
        by (intro exI [of _ "refusing ErrRefreshTokenInvalid"] exI [of _ "refresh_tokens (data c)"]) simp
    next
      case committed: 2
      with fn obtain out c3 where rot: "RotateRefreshToken str cast H rand newV7 secret now c1 = (Inr out, c3)"
        and c2: "c2 = c3\<lparr>outcome := Some out\<rparr>"
        by (auto simp: rotation_callback_def split: prod.splits sum.splits)
      have "in_scope cast u c1 (data c)"
        using scoped_in_scope [where str = str and cast = cast, OF 2(1) assms(3,4)] by simp
      from rotate_refines [OF assms(2) this rot] obtain ts' where
        "work c3 = Some ((data c)\<lparr>refresh_tokens := ts'\<rparr>)"
        "rotation_spec H u (H secret) now (clock c) (refresh_tokens (data c)) out ts'"
        using c1(3) by (auto simp: in_scope_def)
      with committed c2 outcome_more [of c' c2] show ?thesis
        by (intro exI [of _ out] exI [of _ ts']) simp
    qed
  qed
qed

lemma spec_win:
  assumes "rotation_spec H u h now t ts out ts'" and "Refusal out = None" and "tokens_ok ts"
  shows "spent u h ts' \<and> \<not> spent u h ts"
proof -
  from assms(1,2) obtain cookie where "out = rotated cookie"
    by cases (auto simp: refusing_def)
  with assms spec_success [of H u h now t ts cookie ts'] spec_reuse(1) [of H u h now t ts out ts']
  show ?thesis by (auto simp: rotated_def refusing_def)
qed

lemma spec_burn:
  assumes "rotation_spec H u h now t ts (refusing ErrRefreshTokenReused) ts'" and "tokens_ok ts"
    and "families_owned ts" and "p \<in> set ts" and "token_hash p = h"
  shows "dead_family (family_id p) ts'"
proof -
  from assms(1) obtain q where "q \<in> set ts" "rt_user_id q = u" "token_hash q = h" "\<not> live q"
    by cases (auto simp: refusing_def rotated_def dest: find_member)
  then have "spent u h ts" by (auto simp: spent_def)
  from spec_reuse(2) [OF assms(1,2) this assms(3,4,5)] show ?thesis .
qed

text \<open>One request, whatever became of it.\<close>

lemma rotation_step:
  assumes "pg_idle c" and ok: "tokens_ok (refresh_tokens (data c))" and "str u \<noteq> []"
    and "cast (str u) = Some u" and "rotate_session str cast H rand newV7 u secret now c = (r, c')"
  defines "ts \<equiv> refresh_tokens (data c)" and "ts' \<equiv> refresh_tokens (data c')"
  shows "pg_idle c' \<and> tokens_ok ts'"
    and "families_owned ts \<Longrightarrow> families_owned ts'"
    and "spent u' h ts \<Longrightarrow> spent u' h ts'"
    and "dead_family fam ts \<Longrightarrow> dead_family fam ts'"
    and "p \<in> set ts \<Longrightarrow> \<exists>q \<in> set ts'. token_hash q = token_hash p \<and> family_id q = family_id p"
    and "won (r, outcome c') \<Longrightarrow> spent u (H secret) ts' \<and> \<not> spent u (H secret) ts"
    and "burned (r, outcome c') \<Longrightarrow> families_owned ts \<Longrightarrow> p \<in> set ts \<Longrightarrow> token_hash p = H secret \<Longrightarrow>
      dead_family (family_id p) ts'"
proof -
  from rotate_session_any [where str = str and cast = cast, OF assms(1-5)] obtain out ts1 where
    d: "data c' = (data c)\<lparr>refresh_tokens := ts1\<rparr>" and idle: "pg_idle c'" and alt1: "ts1 = ts \<and> r \<noteq> Return None \<or>
      rotation_spec H u (H secret) now (clock c) ts out ts1 \<and> (r = Return None \<longrightarrow> outcome c' = Some out)"
    unfolding ts_def by blast
  from d have "ts1 = ts'" by (simp add: ts'_def)
  note alt = alt1 [unfolded this]
  note ok' = ok [folded ts_def]
  show "pg_idle c' \<and> tokens_ok ts'" using idle alt ok' spec_tokens_ok by blast
  show "families_owned ts \<Longrightarrow> families_owned ts'" using alt spec_families_owned by blast
  show "spent u' h ts \<Longrightarrow> spent u' h ts'" using alt spec_spent by blast
  show "dead_family fam ts \<Longrightarrow> dead_family fam ts'" using alt spec_dead_family by blast
  show "p \<in> set ts \<Longrightarrow> \<exists>q \<in> set ts'. token_hash q = token_hash p \<and> family_id q = family_id p"
    using alt spec_rows_kept by blast
  show "won (r, outcome c') \<Longrightarrow> spent u (H secret) ts' \<and> \<not> spent u (H secret) ts"
    using alt spec_win ok' by (auto simp: won_def)
  show "burned (r, outcome c') \<Longrightarrow> families_owned ts \<Longrightarrow> p \<in> set ts \<Longrightarrow> token_hash p = H secret \<Longrightarrow>
      dead_family (family_id p) ts'"
    using alt spec_burn ok' by (auto simp: burned_def)
qed

lemma serve_wins:
  assumes "serve_rotations str cast H qs c = (rs, c')" and "pg_idle c"
    and "tokens_ok (refresh_tokens (data c))" and "\<And>v. str v \<noteq> []" and "\<And>v. cast (str v) = Some v"
  shows "length (filter (\<lambda>(q, r). rq_user q = u \<and> H (rq_secret q) = h \<and> won r) (zip qs rs))
    \<le> (if spent u h (refresh_tokens (data c)) then 0 else 1)"
  using assms(1-3)
proof (induction qs arbitrary: c rs)
  case Nil
  then show ?case by simp
next
  case (Cons q qs)
  obtain r c1 where one: "rotate_session str cast H (rq_rand q) (rq_id q) (rq_user q) (rq_secret q)
      (rq_now q) (c\<lparr>clock := rq_clock q\<rparr>) = (r, c1)" by force
  obtain rs1 where rest: "serve_rotations str cast H qs c1 = (rs1, c')"
    and rs: "rs = (r, outcome c1) # rs1"
    using Cons.prems(1) one by (auto split: prod.splits)
  have idle: "pg_idle (c\<lparr>clock := rq_clock q\<rparr>)" "tokens_ok (refresh_tokens (data (c\<lparr>clock := rq_clock q\<rparr>)))"
    using Cons.prems(2,3) by (simp_all add: pg_idle_def)
  note st = rotation_step [where str = str and cast = cast, OF idle assms(4,5) one]
  from st(1) have "pg_idle c1" "tokens_ok (refresh_tokens (data c1))" by auto
  note ih = Cons.IH [OF rest this]
  have now: "won (r, outcome c1) \<Longrightarrow> spent (rq_user q) (H (rq_secret q)) (refresh_tokens (data c1))
      \<and> \<not> spent (rq_user q) (H (rq_secret q)) (refresh_tokens (data c))" using st(6) by simp
  have mono: "spent u h (refresh_tokens (data c)) \<Longrightarrow> spent u h (refresh_tokens (data c1))"
    using st(3) by simp
  show ?case using ih now mono by (auto simp: rs split: if_splits)
qed

text \<open>C3: Over any sequence of requests, with faults anywhere, a secret buys at most one new cookie
  for its user: the second time it is presented no committed answer is a success.\<close>

theorem secret_rotates_once:
  assumes "serve_rotations str cast H qs c = (rs, c')" and "pg_idle c"
    and "tokens_ok (refresh_tokens (data c))" and "\<And>v. str v \<noteq> []" and "\<And>v. cast (str v) = Some v"
  shows "length (filter (\<lambda>(q, r). rq_user q = u \<and> rq_secret q = secret \<and> won r) (zip qs rs)) \<le> 1"
proof -
  have "length (filter (\<lambda>(q, r). rq_user q = u \<and> rq_secret q = secret \<and> won r) (zip qs rs))
      \<le> length (filter (\<lambda>(q, r). rq_user q = u \<and> H (rq_secret q) = H secret \<and> won r) (zip qs rs))"
    by (rule length_filter_mono) auto
  also have "\<dots> \<le> 1"
    using serve_wins [where str = str and cast = cast, OF assms, of u "H secret"] by (auto split: if_splits)
  finally show ?thesis .
qed

lemma serve_dead:
  assumes "serve_rotations str cast H qs c = (rs, c')" and "pg_idle c"
    and "tokens_ok (refresh_tokens (data c))" and "\<And>v. str v \<noteq> []" and "\<And>v. cast (str v) = Some v"
    and "dead_family fam (refresh_tokens (data c))"
  shows "dead_family fam (refresh_tokens (data c'))"
  using assms(1-3,6)
proof (induction qs arbitrary: c rs)
  case (Cons q qs)
  obtain r c1 where one: "rotate_session str cast H (rq_rand q) (rq_id q) (rq_user q) (rq_secret q)
      (rq_now q) (c\<lparr>clock := rq_clock q\<rparr>) = (r, c1)" by force
  then obtain rs1 where rest: "serve_rotations str cast H qs c1 = (rs1, c')"
    using Cons.prems(1) by (auto split: prod.splits)
  have idle: "pg_idle (c\<lparr>clock := rq_clock q\<rparr>)" "tokens_ok (refresh_tokens (data (c\<lparr>clock := rq_clock q\<rparr>)))"
    using Cons.prems(2,3) by (simp_all add: pg_idle_def)
  note st = rotation_step [where str = str and cast = cast, OF idle assms(4,5) one]
  from Cons.IH [OF rest] st(1) st(4) [of fam] Cons.prems(4) show ?case by simp
qed simp

lemma serve_burn:
  assumes "serve_rotations str cast H qs c = (rs, c')" and "pg_idle c"
    and "tokens_ok (refresh_tokens (data c))" and "\<And>v. str v \<noteq> []" and "\<And>v. cast (str v) = Some v"
    and "families_owned (refresh_tokens (data c))" and "p \<in> set (refresh_tokens (data c))"
    and "(q, r) \<in> set (zip qs rs)" and "burned r" and "token_hash p = H (rq_secret q)"
  shows "dead_family (family_id p) (refresh_tokens (data c'))"
  using assms(1-3,6-8,10)
proof (induction qs arbitrary: c rs p)
  case (Cons q1 qs)
  obtain r1 c1 where one: "rotate_session str cast H (rq_rand q1) (rq_id q1) (rq_user q1) (rq_secret q1)
      (rq_now q1) (c\<lparr>clock := rq_clock q1\<rparr>) = (r1, c1)" by force
  then obtain rs1 where rest: "serve_rotations str cast H qs c1 = (rs1, c')"
    and rs: "rs = (r1, outcome c1) # rs1" using Cons.prems(1) by (auto split: prod.splits)
  have idle: "pg_idle (c\<lparr>clock := rq_clock q1\<rparr>)" "tokens_ok (refresh_tokens (data (c\<lparr>clock := rq_clock q1\<rparr>)))"
    using Cons.prems(2,3) by (simp_all add: pg_idle_def)
  note st = rotation_step [where str = str and cast = cast, OF idle assms(4,5) one]
  have c1: "pg_idle c1" "tokens_ok (refresh_tokens (data c1))"
    "families_owned (refresh_tokens (data c1))" using st(1,2) Cons.prems(4) by auto
  show ?case
  proof (cases "(q, r) \<in> set (zip qs rs1)")
    case True
    from st(5) Cons.prems(5) obtain p1 where "p1 \<in> set (refresh_tokens (data c1))"
      "token_hash p1 = token_hash p" "family_id p1 = family_id p" by auto
    with Cons.IH [OF rest c1 _ True, of p1] Cons.prems(7) show ?thesis by simp
  next
    case False
    with Cons.prems(6) rs have "q = q1" "r = (r1, outcome c1)" by auto
    with st(7) assms(9) Cons.prems(4,5,7) have "dead_family (family_id p) (refresh_tokens (data c1))"
      by simp
    from serve_dead [where str = str and cast = cast, OF rest c1(1,2) assms(4,5) this] show ?thesis .
  qed
qed simp

text \<open>C2: Once a replay has been answered as reuse, the session it belongs to is over for good:
  whatever requests follow, with faults anywhere, its family never has a live token again.\<close>

theorem burned_family_stays_dead:
  assumes "serve_rotations str cast H qs c = (rs, c')" and "pg_idle c"
    and "tokens_ok (refresh_tokens (data c))" and "\<And>v. str v \<noteq> []" and "\<And>v. cast (str v) = Some v"
    and "families_owned (refresh_tokens (data c))" and "p \<in> set (refresh_tokens (data c))"
    and "(q, r) \<in> set (zip qs rs)" and "burned r" and "token_hash p = H (rq_secret q)"
  shows "dead_family (family_id p) (refresh_tokens (data c'))"
  using serve_burn [where str = str and cast = cast, OF assms] .

section \<open>A healthy rotation succeeds\<close>

lemma find_unique:
  assumes "p \<in> set xs" and "P p" and "\<And>x. x \<in> set xs \<Longrightarrow> P x \<Longrightarrow> x = p"
  shows "find P xs = Some p"
proof -
  from assms(1,2) obtain q where "find P xs = Some q" by (cases "find P xs") (auto simp: find_None_iff)
  with assms(3) find_member [of P xs q] show ?thesis by blast
qed

lemma rotate_ready:
  assumes rd: "ready cast u c db" and ok: "tokens_ok (refresh_tokens db)"
    and p: "p \<in> set (refresh_tokens db)" "rt_user_id p = u" "token_hash p = H secret" "live p"
    and fresh: "\<not> expired now p" "rand RefreshSecretLength = Some secret'" "newV7 = Some i"
      "i \<notin> set (map rt_id (refresh_tokens db))" "H secret' \<notin> set (map token_hash (refresh_tokens db))"
      "u \<in> set (user_ids db)"
  shows "\<exists>c'. RotateRefreshToken str cast H rand newV7 secret now c
      = (Inr (rotated (FormatRefreshCookie u secret')), c') \<and> ready cast u c' (db\<lparr>refresh_tokens :=
        link_to (rt_id p) i (revoke_where (\<lambda>r. rt_id r = rt_id p) (clock c) (refresh_tokens db)
          @ [new_token_row i u (H secret') (family_id p) (now + RefreshTokenLifetime) (clock c)])\<rparr>)"
proof -
  let ?ts = "refresh_tokens db"
  let ?own = "\<lambda>r. rt_user_id r = u \<and> rt_id r = rt_id p \<and> live r"
  have dist: "distinct (map rt_id ?ts)" "distinct (map token_hash ?ts)" using ok by (auto simp: tokens_ok_def)
  have uniq: "r = p" if "r \<in> set ?ts" "token_hash r = H secret" for r
    using distinct_map_key [OF dist(2) that(1) p(1)] that(2) p(3) by simp
  have "find (\<lambda>r. own_session (Some u) r \<and> token_hash r = H secret) ?ts = Some p"
    by (rule find_unique [OF p(1)]) (simp add: p, blast intro: uniq)
  then have "sql_GetRefreshTokenByHash (H secret) (Some u) db = Inr (Some p, db)"
    by (simp add: sql_GetRefreshTokenByHash_def)
  from run_auth_ready_ex [OF rd, of "sql_GetRefreshTokenByHash (H secret)", OF this]
  obtain c1 where g: "GetRefreshTokenByHash cast (H secret) c = (Inr (Some p), c1)" and r1: "ready cast u c1 db" "clock c1 = clock c"
    unfolding GetRefreshTokenByHash_def by blast
  obtain c2 where l: "LockRefreshTokenFamily (str (family_id p)) c1 = (Inr (), c2)" and r2: "ready cast u c2 db" "clock c2 = clock c"
    using lock_ready_ex [OF r1(1)] r1(2) by metis
  define db1 where "db1 = db\<lparr>refresh_tokens := revoke_where ?own (clock c2) ?ts\<rparr>"
  have one: "length (filter ?own ?ts) \<noteq> 0" using p by (auto simp: filter_empty_conv)
  have "sql_RevokeRefreshTokenIfLive (clock c2) (rt_id p) (Some u) db = Inr (length (filter ?own ?ts), db1)"
    by (simp add: sql_RevokeRefreshTokenIfLive_def update_tokens_def db1_def revoke_where_def)
  from run_auth_ready_ex [OF r2(1), of "sql_RevokeRefreshTokenIfLive (clock c2) (rt_id p)", OF this]
  obtain c3 where v: "RevokeRefreshTokenIfLive cast (rt_id p) c2 = (Inr (length (filter ?own ?ts)), c3)"
    and r3: "ready cast u c3 db1" "clock c3 = clock c2"
    unfolding RevokeRefreshTokenIfLive_def by blast
  let ?new = "new_token_row i u (H secret') (family_id p) (now + RefreshTokenLifetime) (clock c3)"
  let ?db2 = "db1\<lparr>refresh_tokens := refresh_tokens db1 @ [?new]\<rparr>"
  have "family_id p \<notin> set (map family_id (filter live (refresh_tokens db1)))"
  proof
    assume "family_id p \<in> set (map family_id (filter live (refresh_tokens db1)))"
    then obtain r where r: "r \<in> set (filter live ?ts)" "\<not> ?own r" "family_id r = family_id p"
      by (auto simp: db1_def filter_live_revoke_where)
    with ok p have "r = p"
      using distinct_map_key [of family_id "filter live ?ts" r p] by (simp add: tokens_ok_def)
    with r(2) p show False by simp
  qed
  then have "sql_InsertRefreshToken ?new (Some u) db1 = Inr ((), ?db2)"
    using fresh by (simp add: sql_InsertRefreshToken_def db1_def del: set_map)
  from run_auth_ready_ex [OF r3(1), of "sql_InsertRefreshToken ?new", OF this]
  obtain c4 where n: "InsertRefreshToken cast ?new c3 = (Inr (), c4)" and r4: "ready cast u c4 ?db2"
    unfolding InsertRefreshToken_def by blast
  have db1: "refresh_tokens db1 = revoke_where (\<lambda>r. rt_id r = rt_id p) (clock c) ?ts"
    using revoke_own [OF ok p(1,2,4)] r2(2) by (simp add: db1_def)
  let ?ts5 = "link_to (rt_id p) i (refresh_tokens db1 @ [?new])"
  let ?db5 = "db\<lparr>refresh_tokens := ?ts5\<rparr>"
  have "sql_SetRefreshTokenReplacedBy (rt_id p) i (Some u) ?db2 = Inr ((), ?db5)"
    using link_own [OF ok p(1,2), of ?new i "\<lambda>r. rt_id r = rt_id p" "clock c"] unfolding db1
    by (simp add: sql_SetRefreshTokenReplacedBy_def Let_def update_tokens_def db1_def)
  from run_auth_ready_ex [OF r4, of "sql_SetRefreshTokenReplacedBy (rt_id p) i", OF this]
  obtain c5 where k: "SetRefreshTokenReplacedBy cast (rt_id p) i c4 = (Inr (), c5)" and r5: "ready cast u c5 ?db5"
    unfolding SetRefreshTokenReplacedBy_def by blast
  have "issueInFamilyReturningID cast H rand newV7 u (family_id p) now c3
      = (Inr (FormatRefreshCookie u secret', i), c4)"
    using n fresh(2,3) by (simp add: issueInFamilyReturningID_def NewRefreshSecret_def HashRefreshSecret_def)
  with g l v k one p fresh(1) r5 r3(2) r2(2) show ?thesis unfolding db1
    by (intro exI [of _ c5])
      (simp add: RotateRefreshToken_def HashRefreshSecret_def live_def)
qed

lemma live_after_rotation:
  assumes "tokens_ok ts" and "p \<in> set ts" and "live p" and "i \<notin> set (map rt_id ts)"
  shows "filter (\<lambda>r. family_id r = family_id p \<and> live r)
      (link_to (rt_id p) i (revoke_where (\<lambda>r. rt_id r = rt_id p) t ts @ [new_token_row i u h (family_id p) e t]))
    = [new_token_row i u h (family_id p) e t]"
proof -
  have other: "\<not> live r" if "r \<in> set ts" "family_id r = family_id p" "rt_id r \<noteq> rt_id p" for r
  proof
    assume "live r"
    with that assms(1-3) have "r = p"
      using distinct_map_key [of family_id "filter live ts" r p] by (simp add: tokens_ok_def)
    with that(3) show False by simp
  qed
  have "\<not> (family_id r = family_id p \<and> live r)"
    if "r \<in> set (revoke_where (\<lambda>r. rt_id r = rt_id p) t ts)" for r
    using set_revoke_where [OF that] other by metis
  then have "\<not> (family_id r = family_id p \<and> live r)"
    if "r \<in> set (link_to (rt_id p) i (revoke_where (\<lambda>r. rt_id r = rt_id p) t ts))" for r
    using set_link_to [OF that] by metis
  then have "filter (\<lambda>r. family_id r = family_id p \<and> live r)
      (link_to (rt_id p) i (revoke_where (\<lambda>r. rt_id r = rt_id p) t ts)) = []"
    by (simp add: filter_empty_conv)
  moreover have "rt_id p \<noteq> i" using assms(2,4) by auto
  ultimately show ?thesis by (simp add: link_to_def)
qed

text \<open>C5: On a healthy database a live, unexpired token presented by its owner is rotated: the call
  returns the new cookie, the old token is revoked and points at its successor, and the successor
  is the family's one live token with a full lifetime.\<close>

theorem rotation_succeeds:
  assumes "faults c = []" and "u \<noteq> uuid_nil" and "str u \<noteq> []" and "cast (str u) = Some u"
    and "tokens_ok (refresh_tokens (data c))" and "p \<in> set (refresh_tokens (data c))"
    and "rt_user_id p = u" and "token_hash p = H secret" and "revoked_at p = None"
    and "expires_at p = Some e" and "now < e"
    and "rand RefreshSecretLength = Some secret'" and "next_id = Some i"
    and "i \<notin> set (map rt_id (refresh_tokens (data c)))"
    and "H secret' \<notin> set (map token_hash (refresh_tokens (data c)))" and "u \<in> set (user_ids (data c))"
  shows "\<exists>c'. rotate_session str cast H rand next_id u secret now c = (Return None, c')
    \<and> outcome c' = Some (rotated (FormatRefreshCookie u secret'))
    \<and> (\<exists>old \<in> set (refresh_tokens (data c')). rt_id old = rt_id p \<and> revoked_at old = Some (clock c)
         \<and> replaced_by old = Some i)
    \<and> filter (\<lambda>r. family_id r = family_id p \<and> live r) (refresh_tokens (data c'))
      = [new_token_row i u (H secret') (family_id p) (now + RefreshTokenLifetime) (clock c)]"
proof -
  let ?ts = "refresh_tokens (data c)"
  let ?new = "new_token_row i u (H secret') (family_id p) (now + RefreshTokenLifetime) (clock c)"
  let ?ts' = "link_to (rt_id p) i (revoke_where (\<lambda>r. rt_id r = rt_id p) (clock c) ?ts @ [?new])"
  let ?fn = "rotation_callback str cast H rand next_id secret now"
  have p: "live p" "\<not> expired now p" using assms(9-11) by (simp_all add: live_def expired_def)
  have "faults (c\<lparr>outcome := None\<rparr>) = []" using assms(1) by simp
  from pg_scope_healthy [of "c\<lparr>outcome := None\<rparr>" u "''app.user_id''" str ErrNoAuthUser ?fn, OF this assms(2)]
  obtain c1 where st: "scoped_start ''app.user_id'' (str u) (c\<lparr>outcome := None\<rparr>) c1" and f: "faults c1 = []"
    and run: "rotate_session str cast H rand next_id u secret now c
      = deferred_rollback pg_driver (run_and_commit pg_driver ?fn c1)"
    by (auto simp: rotate_session_def WithAuthUser_scope setAuthScopeSQL_def)
  have "in_scope cast u c1 (data c)"
    using scoped_in_scope [where str = str and cast = cast, OF st assms(3,4)] by simp
  then have "ready cast u c1 (data c)" and k: "clock c1 = clock c"
    using st f by (simp_all add: ready_def scoped_start_def)
  from rotate_ready [where H = H and rand = rand and secret = secret, OF this(1) assms(5-8) p assms(12-16), of str] k
  obtain c2 where rot: "RotateRefreshToken str cast H rand next_id secret now c1
      = (Inr (rotated (FormatRefreshCookie u secret')), c2)"
    and rd: "ready cast u c2 ((data c)\<lparr>refresh_tokens := ?ts'\<rparr>)" by auto
  let ?c3 = "c2\<lparr>outcome := Some (rotated (FormatRefreshCookie u secret'))\<rparr>"
  have "?fn c1 = (Return None, ?c3)" using rot by (simp add: rotation_callback_def)
  moreover have "work ?c3 = Some ((data c)\<lparr>refresh_tokens := ?ts'\<rparr>)" "\<not> aborted ?c3" "faults ?c3 = []"
    using rd by (simp_all add: ready_def in_scope_def)
  ultimately obtain c' where fin: "rotate_session str cast H rand next_id u secret now c = (Return None, c')"
    "data c' = (data c)\<lparr>refresh_tokens := ?ts'\<rparr>" "pgconn.more c' = pgconn.more ?c3"
    unfolding run using pg_commit_healthy [of ?fn c1 ?c3] by blast
  have "p\<lparr>revoked_at := Some (clock c), replaced_by := Some i\<rparr> \<in> set ?ts'"
    using assms(6) by (force simp: link_to_def revoke_where_def)
  then have "\<exists>old \<in> set ?ts'. rt_id old = rt_id p \<and> revoked_at old = Some (clock c) \<and> replaced_by old = Some i"
    by (rule rev_bexI) simp
  moreover have "filter (\<lambda>r. family_id r = family_id p \<and> live r) ?ts' = [?new]"
    by (rule live_after_rotation [OF assms(5,6) p(1) assms(14)])
  moreover have "outcome c' = Some (rotated (FormatRefreshCookie u secret'))"
    using outcome_more [OF fin(3)] by simp
  ultimately show ?thesis using fin by (intro exI [of _ c']) simp
qed

section \<open>Worked examples\<close>

definition sample_token :: refresh_token where
  "sample_token = \<lparr>rt_id = 11, rt_user_id = 7, token_hash = ''old'', family_id = 5, expires_at = Some 1000,
     revoked_at = None, replaced_by = None, rt_user_agent = None, rt_ip_hash = None, rt_created_at = Some 0\<rparr>"

definition sample_db :: authdb where
  "sample_db = \<lparr>refresh_tokens = [sample_token], recovery_codes = [], user_ids = [7]\<rparr>"

definition sample_conn :: "authdb \<Rightarrow> fault list \<Rightarrow> rotation_conn" where
  "sample_conn db fs = pgconn.extend (idle_conn db 50 fs) \<lparr>outcome = None\<rparr>"

lemmas run_defs = rotate_session_def WithAuthUser_def deferred_rollback_def run_and_commit_def
  rotation_callback_def RotateRefreshToken_def query_defs LockRefreshTokenFamily_def run_auth_def
  run_stmt_def auth_scope_def current_setting_def guc_value_def nullif_empty_def pg_driver_def pg_begin_def
  pg_exec_config_def pg_commit_def pg_rollback_def take_fault_def close_tx_def sample_conn_def
  idle_conn_def pgconn.extend_def HashRefreshSecret_def NewRefreshSecret_def issueInFamilyReturningID_def
  sql_GetRefreshTokenByHash_def sql_InsertRefreshToken_def sql_RevokeRefreshTokenIfLive_def
  sql_RevokeRefreshTokenFamily_def sql_SetRefreshTokenReplacedBy_def update_tokens_def own_session_def
  live_def expired_def setAuthScopeSQL_def uuid_nil_def

definition spent_db :: authdb where
  "spent_db = \<lparr>refresh_tokens = [sample_token\<lparr>revoked_at := Some 20\<rparr>], recovery_codes = [], user_ids = [7]\<rparr>"

text \<open>One rotation of the secret \<open>old\<close> by user 7 at time 100; SHA-256 stands in as the identity.\<close>

definition sample_rotation :: "authdb \<Rightarrow> fault list \<Rightarrow> session_error tx_error call \<times> rotation_conn" where
  "sample_rotation db fs = rotate_session uuid_text uuid_of_text (\<lambda>x. x) (\<lambda>n. Some ''new'') (Some 12) 7
     ''old'' 100 (sample_conn db fs)"

definition sample_request :: rotation_request where
  "sample_request = \<lparr>rq_user = 7, rq_secret = ''old'', rq_now = 100, rq_clock = 50,
     rq_rand = (\<lambda>n. Some ''new''), rq_id = Some 12\<rparr>"

lemmas sample_defs = sample_rotation_def sample_db_def spent_db_def sample_token_def new_token_row_def
  sample_request_def

lemma sample_facts [simp]:
  "data (sample_conn db fs) = db" "clock (sample_conn db fs) = 50" "faults (sample_conn db fs) = fs"
  "pg_idle (sample_conn db fs)"
  by (simp_all add: sample_conn_def idle_conn_def pgconn.extend_def pg_idle_def)

lemma sample_ok [simp]: "tokens_ok (refresh_tokens sample_db)" "tokens_ok (refresh_tokens spent_db)"
  "families_owned (refresh_tokens sample_db)" "families_owned (refresh_tokens spent_db)"
  by (simp_all add: sample_defs tokens_ok_def families_owned_def)

lemma sample_committed [simp]:
  "fst (sample_rotation sample_db []) = Return None" "fst (sample_rotation spent_db []) = Return None"
  by (simp_all add: run_defs sample_defs)

lemma sample_run: "rotate_session uuid_text uuid_of_text (\<lambda>x. x) (\<lambda>n. Some ''new'') (Some 12) 7
    ''old'' 100 (sample_conn db fs) = (fst (sample_rotation db fs), snd (sample_rotation db fs))"
  by (simp add: sample_rotation_def)

theorem rotation_refines_spec_witness:
  "\<exists>out ts'. outcome (snd (sample_rotation sample_db [])) = Some out
    \<and> rotation_spec (\<lambda>x. x) 7 ''old'' 100 50 (refresh_tokens sample_db) out ts'
    \<and> data (snd (sample_rotation sample_db [])) = sample_db\<lparr>refresh_tokens := ts'\<rparr>
    \<and> pg_idle (snd (sample_rotation sample_db []))"
  using rotation_refines_spec [where str = uuid_text and cast = uuid_of_text,
      OF _ canonical.str_nonempty canonical.parse_str sample_run [of sample_db "[]", unfolded sample_committed]]
  by simp

theorem failed_rotation_stores_nothing_witness:
  "data (snd (sample_rotation sample_db [NoFault, NoFault, NoFault, Refuse])) = sample_db"
proof -
  have "fst (sample_rotation sample_db [NoFault, NoFault, NoFault, Refuse]) = Return (Some (Callback (LockErr ConnLost)))"
    by (simp add: run_defs sample_defs)
  with failed_rotation_stores_nothing [where str = uuid_text, OF _ canonical.str_nonempty
      sample_run [of sample_db "[NoFault, NoFault, NoFault, Refuse]"]]
  show ?thesis by simp
qed

theorem reuse_burns_family_witness:
  "outcome (snd (sample_rotation spent_db [])) = Some (refusing ErrRefreshTokenReused)
    \<and> dead_family 5 (refresh_tokens (data (snd (sample_rotation spent_db []))))"
  using reuse_burns_family [where str = uuid_text and cast = uuid_of_text and p = "sample_token\<lparr>revoked_at := Some 20\<rparr>",
      OF _ _ canonical.str_nonempty canonical.parse_str _ _ _ _
        sample_run [of spent_db "[]", unfolded sample_committed]]
  by (simp add: spent_db_def [symmetric]) (simp add: sample_defs)

theorem secret_rotates_once_witness:
  "length (filter (\<lambda>(q, r). rq_user q = 7 \<and> rq_secret q = ''old'' \<and> won r)
    (zip [sample_request, sample_request] (fst (serve_rotations uuid_text uuid_of_text (\<lambda>x. x)
      [sample_request, sample_request] (sample_conn sample_db []))))) \<le> 1"
  by (rule secret_rotates_once [where str = uuid_text and cast = uuid_of_text,
        OF surjective_pairing]) simp_all

theorem burned_family_stays_dead_witness:
  "dead_family 5 (refresh_tokens (data (snd (serve_rotations uuid_text uuid_of_text (\<lambda>x. x)
    [sample_request, sample_request] (sample_conn spent_db [])))))"
proof -
  let ?run = "serve_rotations uuid_text uuid_of_text (\<lambda>x. x) [sample_request, sample_request] (sample_conn spent_db [])"
  have "\<exists>r. (sample_request, r) \<in> set (zip [sample_request, sample_request] (fst ?run)) \<and> burned r"
    by (simp add: run_defs sample_defs burned_def refusing_def)
  then obtain r where r: "(sample_request, r) \<in> set (zip [sample_request, sample_request] (fst ?run))"
    "burned r" by blast
  have p: "sample_token\<lparr>revoked_at := Some 20\<rparr> \<in> set (refresh_tokens spent_db)" by (simp add: spent_db_def)
  from burned_family_stays_dead [where str = uuid_text and cast = uuid_of_text and H = "\<lambda>x. x",
      OF surjective_pairing _ _ canonical.str_nonempty canonical.parse_str _ _ r, unfolded sample_facts, OF _ _ _ p]
  show ?thesis by (simp add: sample_token_def sample_request_def)
qed

theorem rotation_succeeds_witness:
  "\<exists>c'. rotate_session uuid_text uuid_of_text (\<lambda>x. x) (\<lambda>n. Some ''new'') (Some 12) 7 ''old'' 100
      (sample_conn sample_db []) = (Return None, c')
    \<and> outcome c' = Some (rotated (FormatRefreshCookie 7 ''new''))"
  using rotation_succeeds [where str = uuid_text and cast = uuid_of_text and c = "sample_conn sample_db []"
      and u = 7 and p = sample_token and H = "\<lambda>x. x" and secret = "''old''" and e = 1000 and now = 100
      and rand = "\<lambda>n. Some ''new''" and secret' = "''new''" and next_id = "Some 12" and i = 12]
  by (simp add: uuid_nil_def) (auto simp: sample_defs)

end
