(* ===== verification/SessionCookie.thy ===== *)
theory SessionCookie imports Session
begin

text \<open>
  Properties of the refresh cookie's text form (\<^verbatim>\<open>FormatRefreshCookie\<close>,
  \<^verbatim>\<open>ParseRefreshCookie\<close>): the round trip, exactly which strings are accepted, and which
  second spellings of an accepted cookie exist.
\<close>

lemma parse_cookie_iff:
  "ParseRefreshCookie fromBytes raw = Inr k \<longleftrightarrow>
     (\<exists>a b rawUser. raw = a @ CHR ''.'' # b \<and> CHR ''.'' \<notin> set a \<and> CHR ''.'' \<notin> set b
        \<and> raw_url_decode a = Some rawUser \<and> fromBytes rawUser = Some (cookie_user k)
        \<and> raw_url_decode b = Some (cookie_secret k) \<and> length (cookie_secret k) = RefreshSecretLength)"
  (is "?l \<longleftrightarrow> ?r")
proof
  assume ?l
  then obtain a b where "split_on CHR ''.'' raw = [a, b]"
    by (auto simp: ParseRefreshCookie_def split: list.splits)
  with \<open>?l\<close> show ?r
    by (cases k) (auto simp: ParseRefreshCookie_def split_on_eq_pair split: option.splits if_splits)
next
  assume ?r
  then obtain a b rawUser where "split_on CHR ''.'' raw = [a, b]" "raw_url_decode a = Some rawUser"
    "fromBytes rawUser = Some (cookie_user k)" "raw_url_decode b = Some (cookie_secret k)"
    "length (cookie_secret k) = RefreshSecretLength"
    by (auto simp: split_on_eq_pair)
  then show ?l by (simp add: ParseRefreshCookie_def)
qed

text \<open>Go's decoder passes over newlines, so they may stand anywhere in either half.\<close>

lemma raw_url_decode_newlines:
  "filter (\<lambda>c. \<not> is_newline c) a = filter (\<lambda>c. \<not> is_newline c) b \<Longrightarrow> raw_url_decode a = raw_url_decode b"
  by (simp add: raw_url_decode_def base64_decode_def)

text \<open>C20: The cookie the server sets is the cookie it reads back, for every user and every secret of
  the length the server draws; a secret of any other length is turned away by its length.\<close>

theorem cookie_roundtrip:
  assumes "uuid_lib str parse fromBytes"
  shows "ParseRefreshCookie fromBytes (FormatRefreshCookie u secret) =
    (if length secret = RefreshSecretLength then Inr \<lparr>cookie_user = u, cookie_secret = secret\<rparr>
     else Inl (SecretHasLength (length secret)))"
proof -
  have "split_on CHR ''.'' (FormatRefreshCookie u secret) = [raw_url_encode (uuid_bytes u), raw_url_encode secret]"
    by (simp add: split_on_eq_pair FormatRefreshCookie_def)
  with uuid_lib.fromBytes_bytes [OF assms] show ?thesis by (simp add: ParseRefreshCookie_def)
qed

theorem cookie_roundtrip_witness:
  "ParseRefreshCookie uuid_of_bytes (FormatRefreshCookie 7 (replicate 32 CHR 0x00))
    = Inr \<lparr>cookie_user = 7, cookie_secret = replicate 32 CHR 0x00\<rparr>"
  by (subst cookie_roundtrip [OF canonical.uuid_lib_axioms]) (simp add: RefreshSecretLength_def)

text \<open>A cookie is accepted exactly when it is two dot-free halves, the first decoding to the
  sixteen bytes of a uuid and the second to 32 bytes; what is returned is what they decode to.\<close>

theorem cookie_accepted_iff:
  assumes "uuid_lib str parse fromBytes"
  shows "ParseRefreshCookie fromBytes raw = Inr \<lparr>cookie_user = u, cookie_secret = secret\<rparr> \<longleftrightarrow>
     (\<exists>a b. raw = a @ CHR ''.'' # b \<and> CHR ''.'' \<notin> set a \<and> CHR ''.'' \<notin> set b
        \<and> raw_url_decode a = Some (uuid_bytes u) \<and> raw_url_decode b = Some secret \<and> length secret = 32)"
  unfolding parse_cookie_iff uuid_lib.fromBytes_iff [OF assms]
  by (simp add: RefreshSecretLength_def)

theorem cookie_accepted_iff_witness:
  "(ParseRefreshCookie uuid_of_bytes ''no separator'' = Inr \<lparr>cookie_user = 7, cookie_secret = []\<rparr>) = False"
  by (subst cookie_accepted_iff [OF canonical.uuid_lib_axioms]) simp

text \<open>Rejecting padding does not make the spelling of a cookie unique: the decoder passes over
  line breaks, so a set cookie with a line break anywhere in its secret half still reads as the
  same user and secret.\<close>

theorem cookie_second_spelling:
  assumes "uuid_lib str parse fromBytes" and "length secret = RefreshSecretLength"
    and "raw_url_encode secret = x @ y"
  shows "ParseRefreshCookie fromBytes (raw_url_encode (uuid_bytes u) @ ''.'' @ x @ CHR 0x0A # y)
    = ParseRefreshCookie fromBytes (FormatRefreshCookie u secret)"
proof -
  have d: "raw_url_decode (x @ CHR 0x0A # y) = Some secret"
    using raw_url_decode_newlines [of "x @ CHR 0x0A # y" "raw_url_encode secret"]
    by (metis assms(3) filter.simps(2) filter_append is_newline_def url64.dec_enc)
  have n: "CHR ''.'' \<notin> set x \<and> CHR ''.'' \<notin> set y"
    using url_alphabet_no_dot [of secret] assms(3) by simp
  have "ParseRefreshCookie fromBytes (raw_url_encode (uuid_bytes u) @ ''.'' @ x @ CHR 0x0A # y)
      = Inr \<lparr>cookie_user = u, cookie_secret = secret\<rparr>"
    unfolding parse_cookie_iff uuid_lib.fromBytes_iff [OF assms(1)]
    by (rule exI [of _ "raw_url_encode (uuid_bytes u)"], rule exI [of _ "x @ CHR 0x0A # y"]) (simp add: assms(2) d n)
  moreover have "ParseRefreshCookie fromBytes (FormatRefreshCookie u secret)
      = Inr \<lparr>cookie_user = u, cookie_secret = secret\<rparr>"
    unfolding parse_cookie_iff uuid_lib.fromBytes_iff [OF assms(1)]
    by (rule exI [of _ "raw_url_encode (uuid_bytes u)"], rule exI [of _ "raw_url_encode secret"])
      (simp add: assms(2) FormatRefreshCookie_def)
  ultimately show ?thesis by simp
qed

theorem cookie_second_spelling_witness:
  "ParseRefreshCookie uuid_of_bytes (raw_url_encode (uuid_bytes 7) @ ''.'' @ raw_url_encode (replicate 32 CHR 0x00) @ [CHR 0x0A])
    = ParseRefreshCookie uuid_of_bytes (FormatRefreshCookie 7 (replicate 32 CHR 0x00))"
  using cookie_second_spelling [OF canonical.uuid_lib_axioms, of "replicate 32 CHR 0x00"
      "raw_url_encode (replicate 32 CHR 0x00)" "[]" 7]
  by (simp add: RefreshSecretLength_def)

end
