(* ===== verification/Recovery.thy ===== *)
theory Recovery imports AuthStmts UuidLib
begin

text \<open>
  \<^verbatim>\<open>internal/auth/recovery.go\<close>: drawing a set of recovery codes, replacing a user's set, and
  redeeming one code. SHA-256 (\<open>H\<close>), the random source (\<open>rand i n\<close>: the read for code
  \<open>i\<close>) and the id generator (\<open>newV7 i\<close>) are arguments.
\<close>

section \<open>The package\<close>

definition RecoveryCodeCount :: nat where
  "RecoveryCodeCount = 10"

definition recoveryCodeBytes :: nat where
  "recoveryCodeBytes = 16"

record recovery_code =
  Plaintext :: string
  Hash :: bytes

datatype recovery_error = DrawErr nat | EmptySet | ClearErr db_err | CodeIdErr nat
  | StoreCodeErr nat db_err | RedeemErr db_err | ErrRecoveryCodeInvalid

definition HashRecoveryCode :: "(bytes \<Rightarrow> bytes) \<Rightarrow> string \<Rightarrow> bytes" where
  "HashRecoveryCode H plaintext = H plaintext"

fun draw_codes ::
  "(bytes \<Rightarrow> bytes) \<Rightarrow> (nat \<Rightarrow> nat \<Rightarrow> bytes option) \<Rightarrow> nat \<Rightarrow> nat \<Rightarrow> recovery_error + recovery_code list"
where
  "draw_codes H rand i 0 = Inr []"
| "draw_codes H rand i (Suc k) =
     (case rand i recoveryCodeBytes of
        None \<Rightarrow> Inl (DrawErr i)
      | Some raw \<Rightarrow>
          (case draw_codes H rand (Suc i) k of
             Inl e \<Rightarrow> Inl e
           | Inr codes \<Rightarrow>
               Inr (\<lparr>Plaintext = base32_encode raw, Hash = HashRecoveryCode H (base32_encode raw)\<rparr> # codes)))"

definition NewRecoveryCodes ::
  "(bytes \<Rightarrow> bytes) \<Rightarrow> (nat \<Rightarrow> nat \<Rightarrow> bytes option) \<Rightarrow> recovery_error + recovery_code list" where
  "NewRecoveryCodes H rand = draw_codes H rand 0 RecoveryCodeCount"

text \<open>The columns \<^verbatim>\<open>InsertRecoveryCode\<close> does not name take their defaults.\<close>

definition new_code_row :: "uuid \<Rightarrow> uuid \<Rightarrow> bytes \<Rightarrow> time \<Rightarrow> recovery_row" where
  "new_code_row i userID h created =
     \<lparr>rc_id = i, rc_user_id = userID, code_hash = h, used_at = None, rc_created_at = Some created\<rparr>"

fun store_codes where
  "store_codes cast newV7 userID i [] c = (Inr (), c)"
| "store_codes cast newV7 userID i (code # codes) c =
     (case newV7 i of
        None \<Rightarrow> (Inl (CodeIdErr i), c)
      | Some new \<Rightarrow>
          and_then
            (wrapped (StoreCodeErr i)
              (InsertRecoveryCode cast (new_code_row new userID (Hash code) (clock c)) c))
            (\<lambda>_ c. store_codes cast newV7 userID (Suc i) codes c))"

definition RegenerateRecoveryCodes where
  "RegenerateRecoveryCodes cast newV7 userID codes c =
     (if length codes = 0 then (Inl EmptySet, c)
      else and_then (wrapped ClearErr (DeleteRecoveryCodesForUser cast userID c))
             (\<lambda>_ c. store_codes cast newV7 userID 0 codes c))"

definition RedeemRecoveryCode where
  "RedeemRecoveryCode cast H plaintext c =
     and_then (wrapped RedeemErr (RedeemRecoveryCode_sql cast (HashRecoveryCode H plaintext) c))
       (\<lambda>affected c. if affected = 0 then (Inl ErrRecoveryCodeInvalid, c) else (Inr (), c))"

text \<open>The callers of the package: each operation runs inside \<^verbatim>\<open>WithAuthUser\<close>.\<close>

definition regenerate where
  "regenerate str cast newV7 userID codes c =
     WithAuthUser str pg_driver userID (as_callback (RegenerateRecoveryCodes cast newV7 userID codes)) c"

definition redeem where
  "redeem str cast H userID plaintext c =
     WithAuthUser str pg_driver userID (as_callback (RedeemRecoveryCode cast H plaintext)) c"

section \<open>Drawing\<close>

lemma draw_codes_Inr:
  "draw_codes H rand i k = Inr codes \<longleftrightarrow>
   length codes = k \<and> (\<forall>j < k. \<exists>raw. rand (i + j) recoveryCodeBytes = Some raw
     \<and> codes ! j = \<lparr>Plaintext = base32_encode raw, Hash = H (base32_encode raw)\<rparr>)"
proof (induction k arbitrary: i codes)
  case 0
  then show ?case by auto
next
  case (Suc k)
  have split: "(\<forall>j < Suc k. P j) \<longleftrightarrow> P 0 \<and> (\<forall>j < k. P (Suc j))" for P :: "nat \<Rightarrow> bool"
    using less_Suc_eq_0_disj by auto
  show ?case
  proof (cases codes)
    case Nil
    then show ?thesis by (auto split: option.splits sum.splits)
  next
    case (Cons x xs)
    have "draw_codes H rand i (Suc k) = Inr codes \<longleftrightarrow> (\<exists>raw. rand i recoveryCodeBytes = Some raw
        \<and> x = \<lparr>Plaintext = base32_encode raw, Hash = H (base32_encode raw)\<rparr> \<and> draw_codes H rand (Suc i) k = Inr xs)"
      by (auto simp: Cons HashRecoveryCode_def split: option.splits sum.splits)
    also have "\<dots> \<longleftrightarrow> length codes = Suc k \<and> (\<forall>j < Suc k. \<exists>raw. rand (i + j) recoveryCodeBytes = Some raw
     \<and> codes ! j = \<lparr>Plaintext = base32_encode raw, Hash = H (base32_encode raw)\<rparr>)"
      unfolding split Suc.IH by (auto simp: Cons)
    finally show ?thesis .
  qed
qed

section \<open>The effect of the statements\<close>

lemma redeem_step:
  assumes "in_scope cast u c db" and "RedeemRecoveryCode_sql cast h c = (Inr n, c')"
  shows "n = length (filter (\<lambda>r. rc_user_id r = u \<and> code_hash r = h \<and> unused r) (recovery_codes db))
    \<and> in_scope cast u c' (db\<lparr>recovery_codes := map (\<lambda>r. if rc_user_id r = u \<and> code_hash r = h \<and> unused r
        then r\<lparr>used_at := Some (clock c)\<rparr> else r) (recovery_codes db)\<rparr>)"
  using in_scope_step [OF assms(1) assms(2) [unfolded RedeemRecoveryCode_sql_def]]
  by (auto simp: sql_RedeemRecoveryCode_def Let_def)

lemma delete_step:
  assumes "in_scope cast u c db" and "DeleteRecoveryCodesForUser cast u c = (Inr n, c')"
  shows "in_scope cast u c' (db\<lparr>recovery_codes := filter (\<lambda>r. rc_user_id r \<noteq> u) (recovery_codes db)\<rparr>)
    \<and> clock c' = clock c"
  using in_scope_step [OF assms(1) assms(2) [unfolded DeleteRecoveryCodesForUser_def]]
  by (auto simp: sql_DeleteRecoveryCodesForUser_def Let_def)

lemma code_step:
  assumes "in_scope cast u c db" and "InsertRecoveryCode cast r c = (Inr x, c')"
  shows "in_scope cast u c' (db\<lparr>recovery_codes := recovery_codes db @ [r]\<rparr>) \<and> clock c' = clock c
    \<and> rc_id r \<notin> set (map rc_id (recovery_codes db)) \<and> code_hash r \<notin> set (map code_hash (recovery_codes db))"
  using in_scope_step [OF assms(1) assms(2) [unfolded InsertRecoveryCode_def]]
  by (auto simp: sql_InsertRecoveryCode_def split: if_splits)

lemma store_codes_step:
  assumes "in_scope cast u c db" and "store_codes cast newV7 u i codes c = (Inr (), c')"
    and "codes_ok (recovery_codes db)"
  shows "\<exists>new. in_scope cast u c' (db\<lparr>recovery_codes := recovery_codes db @ new\<rparr>)
    \<and> map code_hash new = map Hash codes \<and> (\<forall>r \<in> set new. rc_user_id r = u \<and> unused r)
    \<and> codes_ok (recovery_codes db @ new)"
  using assms
proof (induction codes arbitrary: i c db)
  case Nil
  then show ?case by (intro exI [of _ "[]"]) simp
next
  case (Cons code codes)
  then obtain new c1 where "newV7 i = Some new"
    and ins: "InsertRecoveryCode cast (new_code_row new u (Hash code) (clock c)) c = (Inr (), c1)"
    and rest: "store_codes cast newV7 u (Suc i) codes c1 = (Inr (), c')"
    by (auto simp: and_then_Inr wrapped_Inr split: option.splits)
  let ?r = "new_code_row new u (Hash code) (clock c)"
  from code_step [OF Cons.prems(1) ins] have c1: "in_scope cast u c1 (db\<lparr>recovery_codes := recovery_codes db @ [?r]\<rparr>)"
    and "codes_ok (recovery_codes db @ [?r])" using Cons.prems(3) by (auto simp: codes_ok_def)
  with Cons.IH [OF c1 rest] obtain more where
    "in_scope cast u c' (db\<lparr>recovery_codes := recovery_codes db @ ?r # more\<rparr>)"
    "map code_hash more = map Hash codes" "\<forall>r \<in> set more. rc_user_id r = u \<and> unused r"
    "codes_ok (recovery_codes db @ ?r # more)" by auto
  then show ?case by (intro exI [of _ "?r # more"]) (auto simp: new_code_row_def unused_def)
qed

lemma store_codes_framed [frames]: "framed (store_codes cast newV7 u i codes)"
proof (induction codes arbitrary: i)
  case Nil
  then show ?case unfolding store_codes.simps [abs_def] by (intro frames)
next
  case (Cons code codes)
  show ?case unfolding store_codes.simps [abs_def]
    by (rule framed_option, intro frames, rule framed_row, intro frames Cons)
qed

lemma regenerate_framed: "framed (RegenerateRecoveryCodes cast newV7 u codes)"
  unfolding RegenerateRecoveryCodes_def [abs_def] by (intro frames)

lemma redeem_framed: "framed (RedeemRecoveryCode cast H plaintext)"
  unfolding RedeemRecoveryCode_def [abs_def] by (intro frames)

end
