(* ===== verification/RecoveryProps.thy ===== *)
theory RecoveryProps imports Recovery
begin

text \<open>
  What the recovery codes guarantee: the drawn set, the replacement of a set, and single use of
  each code over any sequence of redemptions.
\<close>

section \<open>One redemption\<close>

definition spend_code :: "uuid \<Rightarrow> bytes \<Rightarrow> time \<Rightarrow> recovery_row list \<Rightarrow> recovery_row list" where
  "spend_code u h t cs =
     map (\<lambda>r. if rc_user_id r = u \<and> code_hash r = h \<and> unused r then r\<lparr>used_at := Some t\<rparr> else r) cs"

definition redeemable :: "uuid \<Rightarrow> bytes \<Rightarrow> recovery_row list \<Rightarrow> bool" where
  "redeemable u h cs \<longleftrightarrow> (\<exists>r \<in> set cs. rc_user_id r = u \<and> code_hash r = h \<and> unused r)"

lemma redeem_Inr:
  assumes "in_scope cast u c db" and "RedeemRecoveryCode cast H p c = (Inr x, c')"
  shows "redeemable u (H p) (recovery_codes db)
    \<and> work c' = Some (db\<lparr>recovery_codes := spend_code u (H p) (clock c) (recovery_codes db)\<rparr>)"
proof -
  from assms(2) obtain n where n: "RedeemRecoveryCode_sql cast (H p) c = (Inr n, c')" "n \<noteq> 0"
    by (auto simp: RedeemRecoveryCode_def HashRecoveryCode_def and_then_Inr wrapped_Inr split: if_splits)
  from redeem_step [OF assms(1) n(1)] n(2) show ?thesis
    by (auto simp: in_scope_def redeemable_def spend_code_def filter_empty_conv)
qed

lemma redeem_any:
  fixes c :: "authdb pgconn"
  assumes "pg_idle c" and "str u \<noteq> []" and "cast (str u) = Some u"
    and "redeem str cast H u p c = (r, c')"
  shows "pg_idle c' \<and> ((data c' = data c \<and> r \<noteq> Return None) \<or>
    redeemable u (H p) (recovery_codes (data c)) \<and>
    data c' = (data c)\<lparr>recovery_codes := spend_code u (H p) (clock c) (recovery_codes (data c))\<rparr>)"
proof -
  note call = auth_call_cases [where str = str and cast = cast, OF redeem_framed assms(1-3) assms(4) [unfolded redeem_def]]
  from call(2) show ?thesis
  proof (elim disjE exE conjE)
    fix c1 c2 :: "authdb pgconn" and a
    assume "in_scope cast u c1 (data c)" "RedeemRecoveryCode cast H p c1 = (Inr a, c2)" "clock c1 = clock c"
      "work c2 = Some (data c')"
    with redeem_Inr [of cast u c1 "data c" H p a c2] call(1) show ?thesis by auto
  qed (use call(1) in simp)
qed

text \<open>A row that is still redeemable after a code was spent was so before, and is another one.\<close>

lemma spend_code_row:
  assumes "r \<in> set (spend_code u h t cs)" and "unused r"
  shows "r \<in> set cs \<and> (rc_user_id r \<noteq> u \<or> code_hash r \<noteq> h)"
proof -
  from assms(1) obtain q where q: "q \<in> set cs"
    and r: "r = (if rc_user_id q = u \<and> code_hash q = h \<and> unused q then q\<lparr>used_at := Some t\<rparr> else q)"
    unfolding spend_code_def set_map by blast
  with assms(2) show ?thesis by (cases "rc_user_id q = u \<and> code_hash q = h \<and> unused q") (auto simp: unused_def)
qed

lemma spend_code_gone: "\<not> redeemable u h (spend_code u h t cs)"
  unfolding redeemable_def using spend_code_row by blast

lemma spend_code_keeps: "\<not> redeemable u h cs \<Longrightarrow> \<not> redeemable u h (spend_code u' h' t cs)"
  unfolding redeemable_def using spend_code_row by blast

lemma spend_code_ok: "codes_ok cs \<Longrightarrow> codes_ok (spend_code u h t cs)"
proof -
  have "map rc_id (spend_code u h t cs) = map rc_id cs" "map code_hash (spend_code u h t cs) = map code_hash cs"
    unfolding spend_code_def by (rule map_update_same; simp)+
  then show "codes_ok cs \<Longrightarrow> codes_ok (spend_code u h t cs)" by (simp add: codes_ok_def)
qed

text \<open>A redemption reported as successful spent an unused code of that very user: its row, and
  no other, is now marked used at the transaction's time, and no other table changed.\<close>

theorem redeem_spends_own_code:
  fixes c :: "authdb pgconn"
  assumes "pg_idle c" and "str u \<noteq> []" and "cast (str u) = Some u"
    and "codes_ok (recovery_codes (data c))" and "redeem str cast H u p c = (Return None, c')"
  shows "\<exists>r \<in> set (recovery_codes (data c)). rc_user_id r = u \<and> code_hash r = H p \<and> used_at r = None
    \<and> data c' = (data c)\<lparr>recovery_codes := map (\<lambda>q. if rc_id q = rc_id r then q\<lparr>used_at := Some (clock c)\<rparr> else q)
        (recovery_codes (data c))\<rparr>"
proof -
  let ?cs = "recovery_codes (data c)"
  from redeem_any [where str = str and cast = cast, OF assms(1-3,5)]
  have red: "redeemable u (H p) ?cs"
    and d: "data c' = (data c)\<lparr>recovery_codes := spend_code u (H p) (clock c) ?cs\<rparr>" by auto
  from red obtain r where r: "r \<in> set ?cs" "rc_user_id r = u" "code_hash r = H p" "unused r"
    by (auto simp: redeemable_def)
  have "rc_user_id q = u \<and> code_hash q = H p \<and> unused q \<longleftrightarrow> rc_id q = rc_id r" if q: "q \<in> set ?cs" for q
  proof
    assume "rc_user_id q = u \<and> code_hash q = H p \<and> unused q"
    then have "code_hash q = code_hash r" using r(3) by simp
    then show "rc_id q = rc_id r"
      using distinct_map_key [OF _ q r(1), of code_hash] assms(4) by (simp add: codes_ok_def)
  next
    assume "rc_id q = rc_id r"
    then have "q = r" using distinct_map_key [OF _ q r(1), of rc_id] assms(4) by (simp add: codes_ok_def)
    then show "rc_user_id q = u \<and> code_hash q = H p \<and> unused q" using r by simp
  qed
  then have "spend_code u (H p) (clock c) ?cs
      = map (\<lambda>q. if rc_id q = rc_id r then q\<lparr>used_at := Some (clock c)\<rparr> else q) ?cs"
    unfolding spend_code_def by (intro map_cong) auto
  with d have "data c' = (data c)\<lparr>recovery_codes :=
      map (\<lambda>q. if rc_id q = rc_id r then q\<lparr>used_at := Some (clock c)\<rparr> else q) ?cs\<rparr>" by simp
  moreover have "used_at r = None" using r(4) by (simp add: unused_def)
  ultimately show ?thesis using r(1-3) by (intro bexI [OF _ r(1)]) simp
qed

text \<open>A code that was never issued, was already used, or belongs to somebody else is never
  redeemed, and the attempt changes nothing.\<close>

theorem redeem_refuses_the_rest:
  fixes c :: "authdb pgconn"
  assumes "pg_idle c" and "str u \<noteq> []" and "cast (str u) = Some u"
    and "\<And>q. q \<in> set (recovery_codes (data c)) \<Longrightarrow> code_hash q = H p \<Longrightarrow> rc_user_id q \<noteq> u \<or> used_at q \<noteq> None"
    and "redeem str cast H u p c = (r, c')"
  shows "r \<noteq> Return None \<and> data c' = data c \<and> pg_idle c'"
proof -
  have "\<not> redeemable u (H p) (recovery_codes (data c))"
    using assms(4) unfolding redeemable_def unused_def by blast
  with redeem_any [where str = str and cast = cast, OF assms(1-3,5)] show ?thesis by simp
qed

section \<open>Any sequence of redemptions\<close>

record redemption =
  rd_user :: uuid
  rd_code :: string
  rd_clock :: time

fun serve_redemptions where
  "serve_redemptions str cast H [] c = ([], c)"
| "serve_redemptions str cast H (q # qs) c =
     (case redeem str cast H (rd_user q) (rd_code q) (c\<lparr>clock := rd_clock q\<rparr>) of
        (r, c1) \<Rightarrow> (case serve_redemptions str cast H qs c1 of (rs, c2) \<Rightarrow> (r # rs, c2)))"

lemma one_owner:
  assumes "codes_ok cs" and "redeemable u h cs" and "redeemable v h cs"
  shows "u = v"
  using assms distinct_map_key [of code_hash cs] unfolding redeemable_def codes_ok_def by metis

lemma redeemed_gone:
  assumes "codes_ok cs" and "redeemable u h cs"
  shows "\<not> redeemable v h (spend_code u h t cs)"
proof
  assume v: "redeemable v h (spend_code u h t cs)"
  with spend_code_keeps have "redeemable v h cs" by blast
  with assms one_owner have "v = u" by blast
  with v spend_code_gone show False by blast
qed

lemma serve_redemptions_once:
  fixes c :: "authdb pgconn"
  assumes "serve_redemptions str cast H qs c = (rs, c')" and "pg_idle c"
    and "codes_ok (recovery_codes (data c))" and "\<And>v. str v \<noteq> []" and "\<And>v. cast (str v) = Some v"
  shows "length (filter (\<lambda>(q, r). H (rd_code q) = h \<and> r = Return None) (zip qs rs))
    \<le> (if \<exists>v. redeemable v h (recovery_codes (data c)) then 1 else 0)"
  using assms(1-3)
proof (induction qs arbitrary: c rs)
  case (Cons q qs)
  let ?cs = "recovery_codes (data c)"
  obtain r c1 where one: "redeem str cast H (rd_user q) (rd_code q) (c\<lparr>clock := rd_clock q\<rparr>) = (r, c1)" by force
  then obtain rs1 where rest: "serve_redemptions str cast H qs c1 = (rs1, c')" and rs: "rs = r # rs1"
    using Cons.prems(1) by (auto split: prod.splits)
  have idle: "pg_idle (c\<lparr>clock := rd_clock q\<rparr>)" using Cons.prems(2) by (simp add: pg_idle_def)
  from redeem_any [where str = str and cast = cast, OF idle assms(4,5) one]
  have step: "pg_idle c1" "(recovery_codes (data c1) = ?cs \<and> r \<noteq> Return None) \<or>
      redeemable (rd_user q) (H (rd_code q)) ?cs
      \<and> recovery_codes (data c1) = spend_code (rd_user q) (H (rd_code q)) (rd_clock q) ?cs" by auto
  have "codes_ok (recovery_codes (data c1))" using step(2) Cons.prems(3) spend_code_ok by metis
  note ih = Cons.IH [OF rest step(1) this]
  have kept: "\<exists>v. redeemable v h ?cs" if "\<exists>v. redeemable v h (recovery_codes (data c1))"
    using step(2) that spend_code_keeps by metis
  have used: "\<nexists>v. redeemable v h (recovery_codes (data c1))" "\<exists>v. redeemable v h ?cs"
    if "H (rd_code q) = h" "r = Return None"
    using step(2) that redeemed_gone [OF Cons.prems(3)] by auto
  show ?case using ih kept used by (auto simp: rs split: if_splits)
qed simp

text \<open>C21: Over any sequence of redemptions by any users, with faults anywhere, a code lets somebody in
  at most once.\<close>

theorem code_redeems_once:
  fixes c :: "authdb pgconn"
  assumes "serve_redemptions str cast H qs c = (rs, c')" and "pg_idle c"
    and "codes_ok (recovery_codes (data c))" and "\<And>v. str v \<noteq> []" and "\<And>v. cast (str v) = Some v"
  shows "length (filter (\<lambda>(q, r). rd_code q = p \<and> r = Return None) (zip qs rs)) \<le> 1"
proof -
  have "length (filter (\<lambda>(q, r). rd_code q = p \<and> r = Return None) (zip qs rs))
      \<le> length (filter (\<lambda>(q, r). H (rd_code q) = H p \<and> r = Return None) (zip qs rs))"
    by (rule length_filter_mono) auto
  also have "\<dots> \<le> 1"
    using serve_redemptions_once [where str = str and cast = cast, OF assms, of "H p"] by (auto split: if_splits)
  finally show ?thesis .
qed

section \<open>Replacing the set\<close>

text \<open>A regeneration reported as committed leaves the user with exactly the new codes, in order and
  all unused: no code of the old set survives, and nobody else's codes and no other table change.\<close>

theorem regenerate_replaces_set:
  fixes c :: "authdb pgconn"
  assumes "pg_idle c" and "str u \<noteq> []" and "cast (str u) = Some u" and "codes_ok (recovery_codes (data c))"
    and "regenerate str cast newV7 u codes c = (Return None, c')"
  shows "codes \<noteq> [] \<and> (\<exists>new. map code_hash new = map Hash codes \<and> (\<forall>r \<in> set new. rc_user_id r = u \<and> used_at r = None)
    \<and> data c' = (data c)\<lparr>recovery_codes := filter (\<lambda>r. rc_user_id r \<noteq> u) (recovery_codes (data c)) @ new\<rparr>)
    \<and> codes_ok (recovery_codes (data c'))"
proof -
  let ?kept = "filter (\<lambda>r. rc_user_id r \<noteq> u) (recovery_codes (data c))"
  from auth_call_cases(2) [where str = str and cast = cast, OF regenerate_framed assms(1-3) assms(5) [unfolded regenerate_def]]
  obtain x and c1 c2 :: "authdb pgconn" where sc: "in_scope cast u c1 (data c)"
    and run: "RegenerateRecoveryCodes cast newV7 u codes c1 = (Inr x, c2)" and w: "work c2 = Some (data c')" by auto
  from run obtain n c3 where ne: "codes \<noteq> []" and del: "DeleteRecoveryCodesForUser cast u c1 = (Inr n, c3)"
    and st: "store_codes cast newV7 u 0 codes c3 = (Inr (), c2)"
    by (auto simp: RegenerateRecoveryCodes_def and_then_Inr wrapped_Inr split: if_splits)
  from delete_step [OF sc del] have c3: "in_scope cast u c3 ((data c)\<lparr>recovery_codes := ?kept\<rparr>)" by simp
  have "codes_ok ?kept" using assms(4) by (simp add: codes_ok_def distinct_map_filterI)
  then have "codes_ok (recovery_codes ((data c)\<lparr>recovery_codes := ?kept\<rparr>))" by simp
  from store_codes_step [OF c3 st this] ne w show ?thesis
    by (auto simp: in_scope_def unused_def)
qed

text \<open>An empty set is refused before any statement runs: the call fails and the user keeps every
  code.\<close>

theorem empty_set_refused:
  fixes c :: "authdb pgconn"
  assumes "pg_idle c" and "str u \<noteq> []" and "cast (str u) = Some u"
    and "regenerate str cast newV7 u [] c = (r, c')"
  shows "r \<noteq> Return None \<and> data c' = data c"
  using auth_call_cases(2) [where str = str and cast = cast, OF regenerate_framed assms(1-3) assms(4) [unfolded regenerate_def]]
  by (auto simp: RegenerateRecoveryCodes_def)

section \<open>Drawing a set\<close>

lemma length_base32: "length (base32_encode raw) = (8 * length raw + 4) div 5"
  by (simp add: base32_encode_def length_quintets)

text \<open>A drawn set has ten codes of 26 characters, each stored under the hash of what the user is
  shown, and two codes are equal only if the random source repeated itself; when the source fails
  at one draw there is no set at all.\<close>

theorem drawn_codes:
  assumes "\<And>i n raw. rand i n = Some raw \<Longrightarrow> length raw = n"
    and "NewRecoveryCodes H rand = Inr codes"
  shows "length codes = 10 \<and> (\<forall>i < 10. length (Plaintext (codes ! i)) = 26
      \<and> Hash (codes ! i) = H (Plaintext (codes ! i))
      \<and> (\<forall>j < 10. Plaintext (codes ! i) = Plaintext (codes ! j) \<longleftrightarrow> rand i 16 = rand j 16))"
proof -
  from assms(2) have d: "length codes = 10" "\<And>j. j < 10 \<Longrightarrow> \<exists>raw. rand j 16 = Some raw
      \<and> codes ! j = \<lparr>Plaintext = base32_encode raw, Hash = H (base32_encode raw)\<rparr>"
    unfolding NewRecoveryCodes_def draw_codes_Inr RecoveryCodeCount_def recoveryCodeBytes_def by auto
  have one: "length (Plaintext (codes ! i)) = 26 \<and> Hash (codes ! i) = H (Plaintext (codes ! i))" if "i < 10" for i
    using d(2) [OF that] assms(1) by (auto simp: length_base32)
  have two: "Plaintext (codes ! i) = Plaintext (codes ! j) \<longleftrightarrow> rand i 16 = rand j 16" if "i < 10" "j < 10" for i j
    using d(2) [OF that(1)] d(2) [OF that(2)] assms(1) base32_encode_inj by fastforce
  from d(1) one two show ?thesis by blast
qed

section \<open>Worked examples\<close>

definition sample_codes :: authdb where
  "sample_codes = \<lparr>refresh_tokens = [], recovery_codes = [new_code_row 1 7 ''A'' 0, new_code_row 2 8 ''B'' 0],
     user_ids = [7, 8]\<rparr>"

definition code_conn :: "authdb pgconn" where
  "code_conn = idle_conn sample_codes 50 []"

definition sample_draws :: "nat \<Rightarrow> nat \<Rightarrow> bytes option" where
  "sample_draws i n = Some (replicate n (byte_of i))"

lemmas recovery_run = redeem_def regenerate_def as_callback_def WithAuthUser_def deferred_rollback_def
  run_and_commit_def RedeemRecoveryCode_def RegenerateRecoveryCodes_def RedeemRecoveryCode_sql_def
  DeleteRecoveryCodesForUser_def InsertRecoveryCode_def sql_RedeemRecoveryCode_def
  sql_DeleteRecoveryCodesForUser_def sql_InsertRecoveryCode_def Let_def HashRecoveryCode_def run_auth_def
  run_stmt_def auth_scope_def current_setting_def guc_value_def nullif_empty_def pg_driver_def pg_begin_def
  pg_exec_config_def pg_commit_def pg_rollback_def take_fault_def close_tx_def code_conn_def
  idle_conn_def setAuthScopeSQL_def uuid_nil_def sample_codes_def new_code_row_def unused_def

lemma code_conn_facts [simp]: "pg_idle code_conn" "data code_conn = sample_codes" "codes_ok (recovery_codes sample_codes)"
  "codes_ok (recovery_codes (data code_conn))" "refresh_tokens sample_codes = []"
  by (simp_all add: code_conn_def idle_conn_def pg_idle_def sample_codes_def codes_ok_def new_code_row_def)

lemma sample_redeem: "fst (redeem uuid_text uuid_of_text (\<lambda>x. x) 7 ''A'' code_conn) = Return None"
  by (simp add: recovery_run)

theorem redeem_spends_own_code_witness:
  "\<exists>r \<in> set (recovery_codes sample_codes). rc_user_id r = 7 \<and> code_hash r = ''A''
    \<and> refresh_tokens (data (snd (redeem uuid_text uuid_of_text (\<lambda>x. x) 7 ''A'' code_conn))) = []"
proof -
  let ?run = "redeem uuid_text uuid_of_text (\<lambda>x. x) 7 ''A'' code_conn"
  have "?run = (Return None, snd ?run)" using sample_redeem surjective_pairing [of ?run] by simp
  from redeem_spends_own_code [where str = uuid_text and cast = uuid_of_text,
      OF code_conn_facts(1) canonical.str_nonempty canonical.parse_str code_conn_facts(4) this]
  obtain r where "r \<in> set (recovery_codes (data code_conn))" "rc_user_id r = 7" "code_hash r = ''A''"
    and "data (snd ?run) = (data code_conn)\<lparr>recovery_codes := map (\<lambda>q. if rc_id q = rc_id r
      then q\<lparr>used_at := Some (clock code_conn)\<rparr> else q) (recovery_codes (data code_conn))\<rparr>" by blast
  then show ?thesis by (intro bexI [of _ r]) simp_all
qed

theorem redeem_refuses_the_rest_witness:
  "data (snd (redeem uuid_text uuid_of_text (\<lambda>x. x) 7 ''B'' code_conn)) = sample_codes"
proof -
  have "rc_user_id q \<noteq> 7 \<or> used_at q \<noteq> None"
    if "q \<in> set (recovery_codes (data code_conn))" "code_hash q = ''B''" for q
    using that by (auto simp: sample_codes_def new_code_row_def)
  from redeem_refuses_the_rest [where str = uuid_text and cast = uuid_of_text and H = "\<lambda>x. x",
      OF code_conn_facts(1) _ _ this surjective_pairing]
  show ?thesis by simp
qed

theorem code_redeems_once_witness:
  "length (filter (\<lambda>(q, r). rd_code q = ''A'' \<and> r = Return None)
    (zip [\<lparr>rd_user = 7, rd_code = ''A'', rd_clock = 1\<rparr>, \<lparr>rd_user = 7, rd_code = ''A'', rd_clock = 2\<rparr>]
      (fst (serve_redemptions uuid_text uuid_of_text (\<lambda>x. x)
        [\<lparr>rd_user = 7, rd_code = ''A'', rd_clock = 1\<rparr>, \<lparr>rd_user = 7, rd_code = ''A'', rd_clock = 2\<rparr>] code_conn)))) \<le> 1"
  by (rule code_redeems_once [where str = uuid_text and cast = uuid_of_text, OF surjective_pairing]) simp_all

theorem regenerate_replaces_set_witness:
  "map code_hash (filter (\<lambda>r. rc_user_id r = 7) (recovery_codes (data (snd (regenerate uuid_text uuid_of_text
    (\<lambda>i. Some 9) 7 [\<lparr>Plaintext = ''x'', Hash = ''X''\<rparr>] code_conn))))) = [''X'']"
proof -
  let ?run = "regenerate uuid_text uuid_of_text (\<lambda>i. Some 9) 7 [\<lparr>Plaintext = ''x'', Hash = ''X''\<rparr>] code_conn"
  have "?run = (Return None, snd ?run)"
    by (rule prod_eqI) (simp_all add: recovery_run)
  from regenerate_replaces_set [where str = uuid_text and cast = uuid_of_text,
      OF code_conn_facts(1) canonical.str_nonempty canonical.parse_str code_conn_facts(4) this]
  obtain new where new: "map code_hash new = map Hash [\<lparr>Plaintext = ''x'', Hash = ''X''\<rparr>]"
    and own: "\<forall>r \<in> set new. rc_user_id r = 7 \<and> used_at r = None"
    and d: "data (snd ?run) = (data code_conn)\<lparr>recovery_codes :=
      filter (\<lambda>r. rc_user_id r \<noteq> 7) (recovery_codes (data code_conn)) @ new\<rparr>"
    by blast
  from own have "filter (\<lambda>r. rc_user_id r = 7) new = new" by (simp add: filter_id_conv)
  then show ?thesis using new by (simp add: d)
qed

theorem empty_set_refused_witness:
  "data (snd (regenerate uuid_text uuid_of_text (\<lambda>i. Some 9) 7 [] code_conn)) = sample_codes"
  using empty_set_refused [where str = uuid_text and cast = uuid_of_text and c = code_conn and u = 7,
      OF _ _ _ surjective_pairing] by fastforce

theorem drawn_codes_witness:
  "\<exists>codes. NewRecoveryCodes (\<lambda>x. x) sample_draws = Inr codes \<and> length codes = 10
    \<and> length (Plaintext (codes ! 9)) = 26 \<and> Plaintext (codes ! 2) \<noteq> Plaintext (codes ! 5)"
proof -
  obtain codes where codes: "NewRecoveryCodes (\<lambda>x. x) sample_draws = Inr codes"
    by (simp add: NewRecoveryCodes_def RecoveryCodeCount_def sample_draws_def eval_nat_numeral)
  have "replicate 16 (byte_of 2) \<noteq> replicate 16 (byte_of 5)" by (simp add: byte_of_def replicate_eq_replicate)
  then show ?thesis using codes drawn_codes [where rand = sample_draws, OF _ codes]
    by (auto simp: sample_draws_def)
qed

end
