(* ===== verification/JwtLib.thy ===== *)
theory JwtLib imports UuidLib GoStrings
begin

text \<open>
  The wire format of an access token (\<^verbatim>\<open>accessTokenClaims\<close>), and what the code relies on of
  \<^verbatim>\<open>github.com/golang-jwt/jwt/v5\<close>, which is not part of the repository: \<open>sign\<close> is
  \<^verbatim>\<open>NewWithClaims(...).SignedString\<close> and \<open>parse\<close> is \<^verbatim>\<open>ParseWithClaims\<close> with the parser
  options the code sets. The locale states the documented laws: a parsed token passes the
  validation of its claims, and a signed one parses back exactly when its algorithm is listed and
  its claims validate. A compact serialisation with a keyed hash shows that the laws can hold.
\<close>

section \<open>Claims on the wire\<close>

record access_token_claims =
  Issuer :: string
  Audience :: string
  wSubject :: string
  IssuedAt :: int
  ExpiresAt :: int
  wShelterID :: "string option"
  wRole :: string
  wAMR :: "string list"

text \<open>The accessors of \<^verbatim>\<open>jwt.Claims\<close>; dates are \<^verbatim>\<open>time.Unix(sec, 0)\<close>.\<close>

definition GetExpirationTime :: "access_token_claims \<Rightarrow> time option" where
  "GetExpirationTime c = Some (ExpiresAt c * 1000000000)"

definition GetIssuedAt :: "access_token_claims \<Rightarrow> time option" where
  "GetIssuedAt c = Some (IssuedAt c * 1000000000)"

definition GetNotBefore :: "access_token_claims \<Rightarrow> time option" where
  "GetNotBefore c = None"

definition GetIssuer :: "access_token_claims \<Rightarrow> string" where
  "GetIssuer c = Issuer c"

definition GetSubject :: "access_token_claims \<Rightarrow> string" where
  "GetSubject c = wSubject c"

definition GetAudience :: "access_token_claims \<Rightarrow> string list" where
  "GetAudience c = [Audience c]"

section \<open>The library\<close>

record parser_options =
  WithValidMethods :: "string list"
  WithIssuer :: string
  WithAudience :: string
  WithExpirationRequired :: bool
  WithIssuedAt :: bool
  WithTimeFunc :: time

text \<open>
  The documented validation: \<^verbatim>\<open>exp\<close> must lie after the current time (and be there when
  required), \<^verbatim>\<open>iat\<close> must not lie in the future when it is checked, \<^verbatim>\<open>nbf\<close> likewise, the
  issuer must be the expected one and the audience must contain the expected one.
\<close>

definition validates :: "parser_options \<Rightarrow> access_token_claims \<Rightarrow> bool" where
  "validates opts c \<longleftrightarrow>
     (case GetExpirationTime c of None \<Rightarrow> \<not> WithExpirationRequired opts | Some e \<Rightarrow> WithTimeFunc opts < e)
   \<and> (case GetIssuedAt c of None \<Rightarrow> True | Some t \<Rightarrow> WithIssuedAt opts \<longrightarrow> t \<le> WithTimeFunc opts)
   \<and> (case GetNotBefore c of None \<Rightarrow> True | Some t \<Rightarrow> t \<le> WithTimeFunc opts)
   \<and> GetIssuer c = WithIssuer opts \<and> WithAudience opts \<in> set (GetAudience c)"

text \<open>Claims that JSON carries unchanged: ASCII text, and numbers of an \<^verbatim>\<open>int64\<close>.\<close>

definition int64 :: "int \<Rightarrow> bool" where
  "int64 n \<longleftrightarrow> - (2 ^ 63) \<le> n \<and> n < 2 ^ 63"

definition plain_claims :: "access_token_claims \<Rightarrow> bool" where
  "plain_claims c \<longleftrightarrow> is_ascii (Issuer c) \<and> is_ascii (Audience c) \<and> is_ascii (wSubject c)
     \<and> is_ascii (wRole c) \<and> list_all is_ascii (wAMR c) \<and> (\<forall>s. wShelterID c = Some s \<longrightarrow> is_ascii s)
     \<and> int64 (IssuedAt c) \<and> int64 (ExpiresAt c)"

locale jwt_lib =
  fixes sign :: "string \<Rightarrow> bytes \<Rightarrow> access_token_claims \<Rightarrow> string option"
    and parse :: "parser_options \<Rightarrow> bytes \<Rightarrow> string \<Rightarrow> access_token_claims option"
  assumes parse_validates: "parse opts key raw = Some c \<Longrightarrow> validates opts c"
    and parse_signed: "sign alg key c = Some raw \<Longrightarrow> plain_claims c \<Longrightarrow>
      parse opts key raw = (if alg \<in> set (WithValidMethods opts) \<and> validates opts c then Some c else None)"

section \<open>A compact serialisation\<close>

text \<open>A number as sign and magnitude, text fields as they are, every field in base64url.\<close>

definition int_field :: "int \<Rightarrow> bytes" where
  "int_field n = (if n < 0 then CHR ''-'' else CHR ''+'') # bytes_be 8 (nat \<bar>n\<bar>)"

fun field_int :: "bytes \<Rightarrow> int option" where
  "field_int [] = None"
| "field_int (s # bs) = Some (if s = CHR ''-'' then - int (nat_of_bytes bs) else int (nat_of_bytes bs))"

lemma field_int_int: "int64 n \<Longrightarrow> field_int (int_field n) = Some n"
  by (auto simp: int_field_def int64_def nat_of_bytes_be)

definition claim_fields :: "access_token_claims \<Rightarrow> bytes list" where
  "claim_fields c = [Issuer c, Audience c, wSubject c, int_field (IssuedAt c), int_field (ExpiresAt c),
     (case wShelterID c of None \<Rightarrow> [] | Some s \<Rightarrow> CHR ''s'' # s), wRole c] @ wAMR c"

fun fields_claim :: "bytes list \<Rightarrow> access_token_claims option" where
  "fields_claim (i # a # s # ia # ea # sh # r # amr) =
     (case (field_int ia, field_int ea) of
        (Some iat, Some ex) \<Rightarrow> Some \<lparr>Issuer = i, Audience = a, wSubject = s, IssuedAt = iat, ExpiresAt = ex,
          wShelterID = (case sh of [] \<Rightarrow> None | _ # t \<Rightarrow> Some t), wRole = r, wAMR = amr\<rparr>
      | _ \<Rightarrow> None)"
| "fields_claim _ = None"

lemma fields_claim_fields: "plain_claims c \<Longrightarrow> fields_claim (claim_fields c) = Some c"
  by (cases c) (auto simp: claim_fields_def plain_claims_def field_int_int split: option.splits)

definition compact_sign ::
  "(bytes \<Rightarrow> bytes \<Rightarrow> bytes) \<Rightarrow> string \<Rightarrow> bytes \<Rightarrow> access_token_claims \<Rightarrow> string option" where
  "compact_sign mac alg key c =
     (let body = join_with CHR ''.'' (map raw_url_encode (alg # claim_fields c)) in
      Some (raw_url_encode (mac key body) @ CHR ''.'' # body))"

definition compact_parse ::
  "(bytes \<Rightarrow> bytes \<Rightarrow> bytes) \<Rightarrow> parser_options \<Rightarrow> bytes \<Rightarrow> string \<Rightarrow> access_token_claims option" where
  "compact_parse mac opts key raw =
     (case cut_on CHR ''.'' raw of (tag, body, _) \<Rightarrow>
        if raw_url_decode tag = Some (mac key body) then
          (case those (map raw_url_decode (split_on CHR ''.'' body)) of
             Some (alg # fs) \<Rightarrow>
               (case fields_claim fs of
                  Some c \<Rightarrow> if alg \<in> set (WithValidMethods opts) \<and> validates opts c then Some c else None
                | None \<Rightarrow> None)
           | _ \<Rightarrow> None)
        else None)"

lemma those_decode: "those (map raw_url_decode (map raw_url_encode xs)) = Some xs"
  by (induction xs) auto

lemma compact_parse_signed:
  assumes "compact_sign mac alg key c = Some raw" and "plain_claims c"
  shows "compact_parse mac opts key raw =
    (if alg \<in> set (WithValidMethods opts) \<and> validates opts c then Some c else None)"
proof -
  let ?body = "join_with CHR ''.'' (map raw_url_encode (alg # claim_fields c))"
  have raw: "raw = raw_url_encode (mac key ?body) @ CHR ''.'' # ?body"
    using assms(1) by (simp add: compact_sign_def Let_def)
  then have "cut_on CHR ''.'' raw = (raw_url_encode (mac key ?body), ?body, True)"
    by (simp add: cut_on_found del: list.map)
  moreover have "split_on CHR ''.'' ?body = map raw_url_encode (alg # claim_fields c)"
    by (rule split_on_join) auto
  ultimately show ?thesis
    using fields_claim_fields [OF assms(2)] by (simp add: compact_parse_def those_decode del: list.map map_map)
qed

interpretation compact: jwt_lib "compact_sign mac" "compact_parse mac" for mac
proof
  show "validates opts c" if "compact_parse mac opts key raw = Some c" for opts key raw c
    using that by (auto simp: compact_parse_def split: prod.splits option.splits list.splits if_splits)
qed (rule compact_parse_signed)

end
