(* ===== verification/Token.thy ===== *)
theory Token imports JwtLib
begin

text \<open>
  \<^verbatim>\<open>internal/auth/token.go\<close>: minting and verifying access tokens. The JWT library's \<open>sign\<close> and
  \<open>parse\<close>, and the uuid library's \<open>str\<close> and \<open>uparse\<close>, are arguments. Every failure of
  \<^verbatim>\<open>Verify\<close> wraps the one sentinel \<^verbatim>\<open>ErrInvalidToken\<close>; the constructors keep apart what
  the code puts in the message.
\<close>

section \<open>The package\<close>

definition AccessTokenLifetime :: time where
  "AccessTokenLifetime = 15 * 60 * 1000000000"

definition MinJWTSecretLength :: nat where
  "MinJWTSecretLength = 32"

definition accessTokenAlgorithm :: string where
  "accessTokenAlgorithm = ''HS256''"

record access_claims =
  Subject :: uuid
  ShelterID :: "uuid option"
  Role :: string
  AMR :: "string list"

record token_issuer =
  issuer_secret :: bytes
  issuer :: string
  audience :: string

datatype issuer_error = SecretTooShort nat | EmptyIssuer | EmptyAudience

datatype claims_error = NilSubject | EmptyRole | EmptyAMR

datatype issue_error = BadClaims claims_error | SigningFailed

datatype invalid_reason = NotParsed | SubNotUuid | ShelterNotUuid | IdentifiesNobody claims_error

datatype verify_error = ErrInvalidToken invalid_reason

definition NewTokenIssuer :: "bytes \<Rightarrow> string \<Rightarrow> string \<Rightarrow> issuer_error + token_issuer" where
  "NewTokenIssuer secret iss aud =
     (if length secret < MinJWTSecretLength then Inl (SecretTooShort (length secret))
      else if iss = [] then Inl EmptyIssuer
      else if aud = [] then Inl EmptyAudience
      else Inr \<lparr>issuer_secret = secret, issuer = iss, audience = aud\<rparr>)"

definition validate :: "access_claims \<Rightarrow> claims_error option" where
  "validate c =
     (if Subject c = uuid_nil then Some NilSubject
      else if Role c = [] then Some EmptyRole
      else if length (AMR c) = 0 then Some EmptyAMR
      else None)"

text \<open>\<^verbatim>\<open>Time.Unix\<close>: whole seconds, rounded down.\<close>

definition Unix :: "time \<Rightarrow> int" where
  "Unix t = t div 1000000000"

definition wire_of :: "(uuid \<Rightarrow> string) \<Rightarrow> token_issuer \<Rightarrow> access_claims \<Rightarrow> time \<Rightarrow> access_token_claims" where
  "wire_of str i claims now =
     \<lparr>Issuer = issuer i, Audience = audience i, wSubject = str (Subject claims), IssuedAt = Unix now,
      ExpiresAt = Unix (now + AccessTokenLifetime), wShelterID = map_option str (ShelterID claims),
      wRole = Role claims, wAMR = AMR claims\<rparr>"

definition Issue ::
  "(uuid \<Rightarrow> string) \<Rightarrow> (string \<Rightarrow> bytes \<Rightarrow> access_token_claims \<Rightarrow> string option)
   \<Rightarrow> token_issuer \<Rightarrow> access_claims \<Rightarrow> time \<Rightarrow> issue_error + string" where
  "Issue str sign i claims now =
     (case validate claims of
        Some e \<Rightarrow> Inl (BadClaims e)
      | None \<Rightarrow>
          (case sign accessTokenAlgorithm (issuer_secret i) (wire_of str i claims now) of
             None \<Rightarrow> Inl SigningFailed
           | Some raw \<Rightarrow> Inr raw))"

definition verify_options :: "token_issuer \<Rightarrow> time \<Rightarrow> parser_options" where
  "verify_options i now =
     \<lparr>WithValidMethods = [accessTokenAlgorithm], WithIssuer = issuer i, WithAudience = audience i,
      WithExpirationRequired = True, WithIssuedAt = True, WithTimeFunc = now\<rparr>"

definition Verify ::
  "(string \<Rightarrow> uuid option) \<Rightarrow> (parser_options \<Rightarrow> bytes \<Rightarrow> string \<Rightarrow> access_token_claims option)
   \<Rightarrow> token_issuer \<Rightarrow> string \<Rightarrow> time \<Rightarrow> verify_error + access_claims" where
  "Verify uparse parse i raw now =
     (case parse (verify_options i now) (issuer_secret i) raw of
        None \<Rightarrow> Inl (ErrInvalidToken NotParsed)
      | Some wire \<Rightarrow>
          (case uparse (wSubject wire) of
             None \<Rightarrow> Inl (ErrInvalidToken SubNotUuid)
           | Some subject \<Rightarrow>
               (case (case wShelterID wire of
                        None \<Rightarrow> Some None
                      | Some s \<Rightarrow> map_option Some (uparse s)) of
                  None \<Rightarrow> Inl (ErrInvalidToken ShelterNotUuid)
                | Some shelter \<Rightarrow>
                    (let claims = \<lparr>Subject = subject, ShelterID = shelter, Role = wRole wire, AMR = wAMR wire\<rparr> in
                     case validate claims of
                       Some e \<Rightarrow> Inl (ErrInvalidToken (IdentifiesNobody e))
                     | None \<Rightarrow> Inr claims))))"

section \<open>Facts\<close>

lemma validate_None: "validate c = None \<longleftrightarrow> Subject c \<noteq> uuid_nil \<and> Role c \<noteq> [] \<and> AMR c \<noteq> []"
  by (auto simp: validate_def)

lemma Issue_Inr: "Issue str sign i claims now = Inr raw \<longleftrightarrow>
    validate claims = None \<and> sign accessTokenAlgorithm (issuer_secret i) (wire_of str i claims now) = Some raw"
  by (auto simp: Issue_def split: option.splits)

lemma Verify_Inr: "Verify uparse parse i raw now = Inr claims \<longleftrightarrow>
    (\<exists>wire. parse (verify_options i now) (issuer_secret i) raw = Some wire
      \<and> uparse (wSubject wire) = Some (Subject claims)
      \<and> (case wShelterID wire of None \<Rightarrow> ShelterID claims = None
         | Some s \<Rightarrow> \<exists>u. uparse s = Some u \<and> ShelterID claims = Some u)
      \<and> wRole wire = Role claims \<and> wAMR wire = AMR claims \<and> validate claims = None)"
  by (cases claims) (auto simp: Verify_def Let_def validate_def split: option.splits)

lemma validates_wire: "validates (verify_options j t) (wire_of str i claims now) \<longleftrightarrow>
    issuer j = issuer i \<and> audience j = audience i \<and> Unix now * 1000000000 \<le> t
    \<and> t < Unix (now + AccessTokenLifetime) * 1000000000"
  by (auto simp: validates_def verify_options_def wire_of_def GetExpirationTime_def GetIssuedAt_def
      GetNotBefore_def GetIssuer_def GetAudience_def)

lemma Unix_floor: "Unix now * 1000000000 \<le> now" "now < Unix now * 1000000000 + 1000000000"
  unfolding Unix_def by presburger+

text \<open>What the issuer's configuration and the claims must be for JSON to carry them unchanged.\<close>

definition plain_token :: "token_issuer \<Rightarrow> access_claims \<Rightarrow> time \<Rightarrow> bool" where
  "plain_token i claims now \<longleftrightarrow> is_ascii (issuer i) \<and> is_ascii (audience i) \<and> is_ascii (Role claims)
     \<and> list_all is_ascii (AMR claims) \<and> int64 (Unix now) \<and> int64 (Unix (now + AccessTokenLifetime))"

lemma plain_wire: "uuid_lib str uparse fb \<Longrightarrow> plain_token i claims now \<Longrightarrow> plain_claims (wire_of str i claims now)"
  by (auto simp: plain_token_def plain_claims_def wire_of_def uuid_lib.str_ascii)

lemma verify_issued:
  assumes jwt: "jwt_lib sign parse" and uuid: "uuid_lib str uparse fb" and plain: "plain_token i claims now"
    and iss: "Issue str sign i claims now = Inr raw" and key: "issuer_secret j = issuer_secret i"
  shows "Verify uparse parse j raw t =
    (if issuer j = issuer i \<and> audience j = audience i \<and> Unix now * 1000000000 \<le> t
        \<and> t < Unix (now + AccessTokenLifetime) * 1000000000
     then Inr claims else Inl (ErrInvalidToken NotParsed))"
proof -
  from iss have ok: "validate claims = None"
    and sgn: "sign accessTokenAlgorithm (issuer_secret i) (wire_of str i claims now) = Some raw"
    by (auto simp: Issue_Inr)
  have p: "parse (verify_options j t) (issuer_secret j) raw
      = (if validates (verify_options j t) (wire_of str i claims now) then Some (wire_of str i claims now) else None)"
    using jwt_lib.parse_signed [OF jwt sgn plain_wire [OF uuid plain], of "verify_options j t"]
    by (simp add: key verify_options_def [of j t])
  show ?thesis
  proof (cases "validates (verify_options j t) (wire_of str i claims now)")
    case True
    then have "Verify uparse parse j raw t = Inr claims"
      unfolding Verify_Inr using p ok uuid_lib.parse_str [OF uuid]
      by (intro exI [of _ "wire_of str i claims now"]) (auto simp: wire_of_def split: option.splits)
    with True show ?thesis unfolding validates_wire by simp
  next
    case False
    then have "Verify uparse parse j raw t = Inl (ErrInvalidToken NotParsed)" using p by (simp add: Verify_def)
    with False show ?thesis unfolding validates_wire by simp
  qed
qed

lemma window_bounds:
  "Unix (now + AccessTokenLifetime) = Unix now + 900"
  "now \<le> t \<Longrightarrow> t \<le> now + AccessTokenLifetime - 1000000000 \<Longrightarrow>
     Unix now * 1000000000 \<le> t \<and> t < Unix (now + AccessTokenLifetime) * 1000000000"
  "now + AccessTokenLifetime \<le> t \<Longrightarrow> \<not> t < Unix (now + AccessTokenLifetime) * 1000000000"
proof -
  show e: "Unix (now + AccessTokenLifetime) = Unix now + 900"
    by (simp add: Unix_def AccessTokenLifetime_def)
  show "Unix now * 1000000000 \<le> t \<and> t < Unix (now + AccessTokenLifetime) * 1000000000"
    if "now \<le> t" "t \<le> now + AccessTokenLifetime - 1000000000"
    using that Unix_floor [of now] unfolding e by (simp add: AccessTokenLifetime_def algebra_simps)
  show "\<not> t < Unix (now + AccessTokenLifetime) * 1000000000" if "now + AccessTokenLifetime \<le> t"
    using that Unix_floor [of now] unfolding e by (simp add: AccessTokenLifetime_def algebra_simps)
qed

section \<open>Properties\<close>

text \<open>C22: A token this issuer mints is verified to exactly the claims it was minted from, from the second
  it was issued in up to fifteen minutes after that second, and is refused at every other time.\<close>

theorem issued_token_window:
  assumes "jwt_lib sign parse" and "uuid_lib str uparse fb" and "plain_token i claims now"
    and "Issue str sign i claims now = Inr raw"
  shows "Verify uparse parse i raw t =
    (if Unix now * 1000000000 \<le> t \<and> t < (Unix now + 900) * 1000000000
     then Inr claims else Inl (ErrInvalidToken NotParsed))"
  using verify_issued [OF assms refl] by (simp add: window_bounds(1))

text \<open>No token outlives its fifteen minutes, whatever sub-second part the clock had when it was
  minted; and it works at once and for all but the last second of them.\<close>

theorem token_lifetime:
  assumes "jwt_lib sign parse" and "uuid_lib str uparse fb" and "plain_token i claims now"
    and "Issue str sign i claims now = Inr raw"
  shows "(now + AccessTokenLifetime \<le> t \<longrightarrow> Verify uparse parse i raw t = Inl (ErrInvalidToken NotParsed))
    \<and> (now \<le> t \<and> t \<le> now + AccessTokenLifetime - 1000000000 \<longrightarrow> Verify uparse parse i raw t = Inr claims)"
  using verify_issued [OF assms refl] window_bounds(2,3) [of now t] by auto

text \<open>A token minted for one issuer or audience is refused by a verifier for another, at every time
  and even with the same signing key.\<close>

theorem token_is_bound_to_its_audience:
  assumes "jwt_lib sign parse" and "uuid_lib str uparse fb" and "plain_token i claims now"
    and "Issue str sign i claims now = Inr raw" and "issuer_secret j = issuer_secret i"
    and "issuer j \<noteq> issuer i \<or> audience j \<noteq> audience i"
  shows "Verify uparse parse j raw t = Inl (ErrInvalidToken NotParsed)"
  using verify_issued [OF assms(1-5)] assms(6) by auto


text \<open>An issuer can only be built with a secret of at least 32 bytes and non-empty identifiers, and
  no issuer signs claims that name no user, no role or no authentication method.\<close>

theorem issuer_and_claims_checked:
  "((\<exists>i. NewTokenIssuer secret iss aud = Inr i) \<longleftrightarrow> 32 \<le> length secret \<and> iss \<noteq> [] \<and> aud \<noteq> [])
   \<and> ((\<exists>e. Issue str sign i claims now = Inl (BadClaims e)) \<longleftrightarrow>
       Subject claims = uuid_nil \<or> Role claims = [] \<or> AMR claims = [])"
  by (auto simp: NewTokenIssuer_def MinJWTSecretLength_def Issue_def validate_def split: option.splits)

section \<open>Worked examples\<close>

definition sample_issuer :: token_issuer where
  "sample_issuer = \<lparr>issuer_secret = replicate 32 CHR ''k'', issuer = ''mascotapp'', audience = ''api''\<rparr>"

definition sample_claims :: access_claims where
  "sample_claims = \<lparr>Subject = 7, ShelterID = Some 3, Role = ''admin'', AMR = [''pwd'']\<rparr>"

definition toy_mac :: "bytes \<Rightarrow> bytes \<Rightarrow> bytes" where
  "toy_mac key msg = take 4 key"

definition sample_raw :: string where
  "sample_raw = the (compact_sign toy_mac ''HS256'' (issuer_secret sample_issuer)
     (wire_of uuid_text sample_issuer sample_claims 1500000000))"

lemma sample_issued: "Issue uuid_text (compact_sign toy_mac) sample_issuer sample_claims 1500000000 = Inr sample_raw"
  by (simp add: Issue_Inr validate_None sample_claims_def uuid_nil_def sample_raw_def compact_sign_def Let_def
      accessTokenAlgorithm_def)

lemma sample_plain: "plain_token sample_issuer sample_claims 1500000000"
  by (simp add: plain_token_def sample_issuer_def sample_claims_def Unix_def AccessTokenLifetime_def int64_def
      nat_of_byte_def)

theorem issued_token_window_witness:
  "Verify uuid_of_text (compact_parse toy_mac) sample_issuer sample_raw 1000000000 = Inr sample_claims"
  by (subst issued_token_window [OF compact.jwt_lib_axioms canonical.uuid_lib_axioms sample_plain sample_issued])
    (simp add: Unix_def)

theorem token_lifetime_witness:
  "Verify uuid_of_text (compact_parse toy_mac) sample_issuer sample_raw 901500000000 = Inl (ErrInvalidToken NotParsed)"
  using token_lifetime [OF compact.jwt_lib_axioms canonical.uuid_lib_axioms sample_plain sample_issued]
  by (simp add: AccessTokenLifetime_def)

theorem token_is_bound_to_its_audience_witness:
  "Verify uuid_of_text (compact_parse toy_mac) (sample_issuer\<lparr>audience := ''other''\<rparr>) sample_raw 1500000000
    = Inl (ErrInvalidToken NotParsed)"
  by (rule token_is_bound_to_its_audience [OF compact.jwt_lib_axioms canonical.uuid_lib_axioms sample_plain sample_issued])
    (simp_all add: sample_issuer_def)


end
