(* ===== verification/Envelope.thy ===== *)
theory Envelope imports Prelude
begin

text \<open>
  \<^verbatim>\<open>internal/auth/envelope.go\<close>: the at-rest blob
  \<^verbatim>\<open>version || key_id || nonce || ciphertext || tag\<close>. AES-256-GCM is an argument, as its two
  operations \<open>seal key nonce plaintext aad\<close> and \<open>aopen key nonce sealed aad\<close>; the locale
  states what makes an AEAD with a deterministic tag: opening accepts exactly what sealing with
  the same key, nonce and associated data produces. Nothing is assumed about how hard a
  collision is to find. A slice out of range is a run-time panic, written \<open>None\<close>.
\<close>

section \<open>The cipher\<close>

locale aead =
  fixes seal :: "bytes \<Rightarrow> bytes \<Rightarrow> bytes \<Rightarrow> bytes \<Rightarrow> bytes"
    and aopen :: "bytes \<Rightarrow> bytes \<Rightarrow> bytes \<Rightarrow> bytes \<Rightarrow> bytes option"
  assumes open_iff: "aopen key nonce sealed aad = Some p \<longleftrightarrow> sealed = seal key nonce p aad"
    and seal_length: "length (seal key nonce p aad) = length p + 16"
begin

lemma seal_inj: "seal key nonce p aad = seal key nonce q aad \<Longrightarrow> p = q"
  by (metis open_iff option.inject)

lemma open_seal [simp]: "aopen key nonce (seal key nonce p aad) aad = Some p"
  by (simp add: open_iff)

end

text \<open>The laws can hold: the plaintext followed by a tag of sixteen bytes computed from everything.\<close>

definition tag_seal :: "(bytes \<Rightarrow> bytes) \<Rightarrow> bytes \<Rightarrow> bytes \<Rightarrow> bytes \<Rightarrow> bytes \<Rightarrow> bytes" where
  "tag_seal t key nonce p aad = p @ take 16 (t (key @ nonce @ p @ aad) @ replicate 16 CHR 0x00)"

definition tag_open :: "(bytes \<Rightarrow> bytes) \<Rightarrow> bytes \<Rightarrow> bytes \<Rightarrow> bytes \<Rightarrow> bytes \<Rightarrow> bytes option" where
  "tag_open t key nonce sealed aad =
     (let p = take (length sealed - 16) sealed in if sealed = tag_seal t key nonce p aad then Some p else None)"

interpretation tagged: aead "tag_seal t" "tag_open t" for t
proof
  show "tag_open t key nonce sealed aad = Some p \<longleftrightarrow> sealed = tag_seal t key nonce p aad"
    for key nonce sealed aad p
    by (auto simp: tag_open_def Let_def) (simp add: tag_seal_def)+
qed (simp add: tag_seal_def)

section \<open>The package\<close>

definition EnvelopeVersion :: byte where
  "EnvelopeVersion = CHR 0x01"

definition EnvelopeKeyID :: byte where
  "EnvelopeKeyID = CHR 0x01"

definition envelopeKeyLength :: nat where
  "envelopeKeyLength = 32"

definition envelopeNonceLength :: nat where
  "envelopeNonceLength = 12"

definition envelopeTagLength :: nat where
  "envelopeTagLength = 16"

definition envelopeHeaderLength :: nat where
  "envelopeHeaderLength = 2"

definition envelopeMinLength :: nat where
  "envelopeMinLength = envelopeHeaderLength + envelopeNonceLength + envelopeTagLength"

lemmas envelope_lengths = envelopeKeyLength_def envelopeNonceLength_def envelopeTagLength_def
  envelopeHeaderLength_def envelopeMinLength_def

datatype invalid_envelope = TooShort nat | UnknownVersion byte | UnknownKeyID byte | NotAuthentic

datatype envelope_error = KeyHasLength nat | WrongNonceSize nat | NonceErr | ErrInvalidEnvelope invalid_envelope

record envelope =
  aead_Seal :: "bytes \<Rightarrow> bytes \<Rightarrow> bytes \<Rightarrow> bytes"
  aead_Open :: "bytes \<Rightarrow> bytes \<Rightarrow> bytes \<Rightarrow> bytes option"

text \<open>\<^verbatim>\<open>gcm.NonceSize()\<close> of the standard library's \<^verbatim>\<open>cipher.NewGCM\<close>.\<close>

definition gcm_NonceSize :: nat where
  "gcm_NonceSize = 12"

definition NewEnvelope where
  "NewEnvelope seal aopen key =
     (if length key \<noteq> envelopeKeyLength then Inl (KeyHasLength (length key))
      else if gcm_NonceSize \<noteq> envelopeNonceLength then Inl (WrongNonceSize gcm_NonceSize)
      else Inr \<lparr>aead_Seal = seal key, aead_Open = aopen key\<rparr>)"

definition associatedData :: "bytes \<Rightarrow> uuid \<Rightarrow> bytes" where
  "associatedData header owner = header @ uuid_bytes owner"

definition Seal :: "(nat \<Rightarrow> bytes option) \<Rightarrow> envelope \<Rightarrow> bytes \<Rightarrow> uuid \<Rightarrow> envelope_error + bytes" where
  "Seal rand e plaintext owner =
     (case rand envelopeNonceLength of
        None \<Rightarrow> Inl NonceErr
      | Some nonce \<Rightarrow>
          (let header = [EnvelopeVersion, EnvelopeKeyID] in
           Inr (header @ nonce @ aead_Seal e nonce plaintext (associatedData header owner))))"

definition Open :: "envelope \<Rightarrow> bytes \<Rightarrow> uuid \<Rightarrow> (envelope_error + bytes) option" where
  "Open e blob owner =
     (if length blob < envelopeMinLength then Some (Inl (ErrInvalidEnvelope (TooShort (length blob))))
      else Option.bind (go_index 0 blob) (\<lambda>version. Option.bind (go_index 1 blob) (\<lambda>key_id.
        if version \<noteq> EnvelopeVersion then Some (Inl (ErrInvalidEnvelope (UnknownVersion version)))
        else if key_id \<noteq> EnvelopeKeyID then Some (Inl (ErrInvalidEnvelope (UnknownKeyID key_id)))
        else
          Option.bind (go_slice envelopeHeaderLength (envelopeHeaderLength + envelopeNonceLength) blob) (\<lambda>nonce.
          Option.bind (go_slice (envelopeHeaderLength + envelopeNonceLength) (length blob) blob) (\<lambda>sealed.
            Some (case aead_Open e nonce sealed (associatedData [version, key_id] owner) of
                    None \<Rightarrow> Inl (ErrInvalidEnvelope NotAuthentic)
                  | Some plaintext \<Rightarrow> Inr plaintext))))))"

section \<open>Facts\<close>

lemma blob_split:
  assumes "30 \<le> length blob"
  shows "blob = [blob ! 0, blob ! 1] @ take 12 (drop 2 blob) @ drop 14 blob"
proof -
  have "take 2 blob = [blob ! 0, blob ! 1]"
    using assms by (intro nth_equalityI) (auto simp: less_Suc_eq numeral_2_eq_2)
  moreover have "take 12 (drop 2 blob) @ drop 14 blob = drop 2 blob"
    using append_take_drop_id [of 12 "drop 2 blob"] by simp
  ultimately show ?thesis using append_take_drop_id [of 2 blob] by metis
qed

lemma Open_eq:
  assumes "30 \<le> length blob"
  shows "Open e blob owner =
    (if blob ! 0 \<noteq> EnvelopeVersion then Some (Inl (ErrInvalidEnvelope (UnknownVersion (blob ! 0))))
     else if blob ! 1 \<noteq> EnvelopeKeyID then Some (Inl (ErrInvalidEnvelope (UnknownKeyID (blob ! 1))))
     else Some (case aead_Open e (take 12 (drop 2 blob)) (drop 14 blob) (associatedData [blob ! 0, blob ! 1] owner) of
            None \<Rightarrow> Inl (ErrInvalidEnvelope NotAuthentic) | Some p \<Rightarrow> Inr p))"
proof -
  from assms have "blob \<noteq> []" by auto
  with assms show ?thesis by (simp add: Open_def envelope_lengths go_index_def go_slice_def)
qed

lemma associatedData_inj: "length h = length h' \<Longrightarrow> associatedData h u = associatedData h' v \<longleftrightarrow> h = h' \<and> u = v"
  by (simp add: associatedData_def)

lemma authentic_Inr: "(case x of None \<Rightarrow> Inl e | Some p \<Rightarrow> Inr p) = Inr q \<longleftrightarrow> x = Some q"
  by (cases x) auto

lemma Open_Inr:
  assumes aead: "aead seal aopen" and e: "NewEnvelope seal aopen key = Inr e"
  shows "Open e blob owner = Some (Inr p) \<longleftrightarrow>
    (\<exists>nonce. length nonce = 12 \<and> blob = [EnvelopeVersion, EnvelopeKeyID] @ nonce
      @ seal key nonce p (associatedData [EnvelopeVersion, EnvelopeKeyID] owner))"
proof -
  from e have ae: "aead_Open e = aopen key" by (auto simp: NewEnvelope_def split: if_splits)
  show ?thesis
  proof (cases "30 \<le> length blob")
    case False
    then show ?thesis
      using aead.seal_length [OF aead] by (auto simp: Open_def envelope_lengths)
  next
    case True
    let ?n = "take 12 (drop 2 blob)" and ?h = "[EnvelopeVersion, EnvelopeKeyID]"
    have "Open e blob owner = Some (Inr p) \<longleftrightarrow> blob ! 0 = EnvelopeVersion \<and> blob ! 1 = EnvelopeKeyID
        \<and> drop 14 blob = seal key ?n p (associatedData ?h owner)"
      using True by (simp add: Open_eq ae authentic_Inr aead.open_iff [OF aead])
    also have "\<dots> \<longleftrightarrow> (\<exists>nonce. length nonce = 12 \<and> blob = ?h @ nonce @ seal key nonce p (associatedData ?h owner))"
    proof
      assume "blob ! 0 = EnvelopeVersion \<and> blob ! 1 = EnvelopeKeyID \<and> drop 14 blob = seal key ?n p (associatedData ?h owner)"
      with blob_split [OF True] True show "\<exists>nonce. length nonce = 12 \<and> blob = ?h @ nonce @ seal key nonce p (associatedData ?h owner)"
        by (intro exI [of _ ?n]) simp
    next
      assume "\<exists>nonce. length nonce = 12 \<and> blob = ?h @ nonce @ seal key nonce p (associatedData ?h owner)"
      then show "blob ! 0 = EnvelopeVersion \<and> blob ! 1 = EnvelopeKeyID \<and> drop 14 blob = seal key ?n p (associatedData ?h owner)"
        by auto
    qed
    finally show ?thesis .
  qed
qed

lemma Seal_Inr:
  "NewEnvelope seal aopen key = Inr e \<Longrightarrow> Seal rand e p owner = Inr blob \<longleftrightarrow>
    (\<exists>nonce. rand 12 = Some nonce \<and> blob = [EnvelopeVersion, EnvelopeKeyID] @ nonce
      @ seal key nonce p (associatedData [EnvelopeVersion, EnvelopeKeyID] owner))"
  by (auto simp: Seal_def NewEnvelope_def envelope_lengths Let_def split: option.splits if_splits)

section \<open>Properties\<close>

text \<open>A sealed value opens to itself for its owner, and the blob is thirty bytes longer than the
  plaintext.\<close>

theorem sealed_opens:
  assumes "aead seal aopen" and "NewEnvelope seal aopen key = Inr e"
    and "\<And>n bs. rand n = Some bs \<Longrightarrow> length bs = n" and "Seal rand e p owner = Inr blob"
  shows "Open e blob owner = Some (Inr p) \<and> length blob = length p + envelopeMinLength"
proof -
  from assms(4) obtain nonce where "rand 12 = Some nonce" and b: "blob = [EnvelopeVersion, EnvelopeKeyID] @ nonce
      @ seal key nonce p (associatedData [EnvelopeVersion, EnvelopeKeyID] owner)"
    unfolding Seal_Inr [OF assms(2)] by blast
  with assms(3) have "length nonce = 12" by blast
  with b show ?thesis
    unfolding Open_Inr [OF assms(1,2)] using aead.seal_length [OF assms(1)] by (auto simp: envelope_lengths)
qed

text \<open>C24: Opening never panics, on a column of any length and content, and it accepts exactly the blobs
  that sealing produces for that owner under some nonce, with the plaintext that was sealed.\<close>

theorem open_accepts_exactly_the_sealed:
  assumes "aead seal aopen" and "NewEnvelope seal aopen key = Inr e"
  shows "Open e blob owner \<noteq> None \<and> (Open e blob owner = Some (Inr p) \<longleftrightarrow>
    (\<exists>nonce. length nonce = 12 \<and> Seal (\<lambda>_. Some nonce) e p owner = Inr blob))"
proof -
  have "Open e blob owner \<noteq> None"
  proof (cases "30 \<le> length blob")
    case True
    then show ?thesis by (simp add: Open_eq)
  qed (simp add: Open_def envelope_lengths)
  then show ?thesis unfolding Open_Inr [OF assms] Seal_Inr [OF assms(2)] by auto
qed

text \<open>A blob moved to another user's row opens there only if the cipher itself produces one and the
  same sealed text under the two different associated data; otherwise it is refused.\<close>

theorem envelope_bound_to_owner:
  assumes "aead seal aopen" and "NewEnvelope seal aopen key = Inr e" and "owner \<noteq> other"
    and "\<And>n bs. rand n = Some bs \<Longrightarrow> length bs = n" and "Seal rand e p owner = Inr blob"
    and "Open e blob other = Some (Inr q)"
  shows "\<exists>nonce aad aad'. aad \<noteq> aad' \<and> seal key nonce p aad = seal key nonce q aad'"
proof -
  let ?h = "[EnvelopeVersion, EnvelopeKeyID]"
  from assms(5) obtain nonce where r: "rand 12 = Some nonce" and b: "blob = ?h @ nonce @ seal key nonce p (associatedData ?h owner)"
    unfolding Seal_Inr [OF assms(2)] by blast
  from assms(4) [OF r] have l: "length nonce = 12" .
  from assms(6) obtain nonce' where "length nonce' = 12" "blob = ?h @ nonce' @ seal key nonce' q (associatedData ?h other)"
    unfolding Open_Inr [OF assms(1,2)] by blast
  with b l have "nonce' = nonce" "seal key nonce p (associatedData ?h owner) = seal key nonce' q (associatedData ?h other)"
    by (metis append_eq_append_conv same_append_eq)+
  then have "seal key nonce p (associatedData ?h owner) = seal key nonce q (associatedData ?h other)" by simp
  moreover have "associatedData ?h owner \<noteq> associatedData ?h other" using assms(3) by (simp add: associatedData_inj)
  ultimately show ?thesis by blast
qed

text \<open>A blob with any other version or key byte, or shorter than the thirty bytes of an empty one, is
  refused without the cipher being consulted: the answer is the same for every cipher.\<close>

theorem malformed_refused_before_cipher:
  assumes "length blob < 30 \<or> blob ! 0 \<noteq> CHR 0x01 \<or> blob ! 1 \<noteq> CHR 0x01"
  shows "\<exists>why. why \<noteq> NotAuthentic \<and> (\<forall>e owner. Open e blob owner = Some (Inl (ErrInvalidEnvelope why)))"
proof (cases "30 \<le> length blob")
  case True
  with assms show ?thesis
    by (cases "blob ! 0 = CHR 0x01") (auto simp: Open_eq EnvelopeVersion_def EnvelopeKeyID_def)
qed (auto simp: Open_def envelope_lengths)

text \<open>Only a key of exactly 32 bytes makes an envelope, so the shorter AES variants cannot be
  selected by a short key.\<close>

theorem envelope_key_length:
  "(\<exists>e. NewEnvelope seal aopen key = Inr e) \<longleftrightarrow> length key = 32"
  by (auto simp: NewEnvelope_def envelope_lengths gcm_NonceSize_def)

section \<open>Worked examples\<close>

definition toy_tag :: "bytes \<Rightarrow> bytes" where
  "toy_tag bs = drop 32 bs"

definition sample_key :: bytes where
  "sample_key = replicate 32 CHR ''K''"

definition sample_envelope :: envelope where
  "sample_envelope = \<lparr>aead_Seal = tag_seal toy_tag sample_key, aead_Open = tag_open toy_tag sample_key\<rparr>"

definition sample_nonce :: "nat \<Rightarrow> bytes option" where
  "sample_nonce n = Some (replicate n CHR ''n'')"

lemma sample_envelope_new: "NewEnvelope (tag_seal toy_tag) (tag_open toy_tag) sample_key = Inr sample_envelope"
  by (simp add: NewEnvelope_def sample_key_def sample_envelope_def envelope_lengths gcm_NonceSize_def)

theorem sealed_opens_witness:
  "\<exists>blob. Seal sample_nonce sample_envelope ''secret'' 7 = Inr blob
    \<and> Open sample_envelope blob 7 = Some (Inr ''secret'')"
proof -
  obtain blob where b: "Seal sample_nonce sample_envelope ''secret'' 7 = Inr blob"
    by (simp add: Seal_def sample_nonce_def Let_def)
  from sealed_opens [OF tagged.aead_axioms sample_envelope_new _ b] b show ?thesis
    by (auto simp: sample_nonce_def)
qed

theorem open_accepts_exactly_the_sealed_witness: "Open sample_envelope ''short'' 7 \<noteq> None"
  using open_accepts_exactly_the_sealed [OF tagged.aead_axioms sample_envelope_new] by simp

text \<open>A tag that ignores the associated data: then, and only through such a collision, it opens.\<close>

definition blind_envelope :: envelope where
  "blind_envelope = \<lparr>aead_Seal = tag_seal (\<lambda>_. []) sample_key, aead_Open = tag_open (\<lambda>_. []) sample_key\<rparr>"

theorem envelope_bound_to_owner_witness:
  "\<exists>nonce aad aad'. aad \<noteq> aad' \<and> tag_seal (\<lambda>_. []) sample_key nonce ''x'' aad = tag_seal (\<lambda>_. []) sample_key nonce ''x'' aad'"
proof -
  have new: "NewEnvelope (tag_seal (\<lambda>_. [])) (tag_open (\<lambda>_. [])) sample_key = Inr blind_envelope"
    by (simp add: NewEnvelope_def sample_key_def blind_envelope_def envelope_lengths gcm_NonceSize_def)
  obtain blob where b: "Seal sample_nonce blind_envelope ''x'' 7 = Inr blob"
    and b': "Seal sample_nonce blind_envelope ''x'' 8 = Inr blob"
    by (simp add: Seal_def sample_nonce_def Let_def blind_envelope_def tag_seal_def)
  have "Open blind_envelope blob 8 = Some (Inr ''x'')"
    using b' unfolding Open_Inr [OF tagged.aead_axioms new] Seal_Inr [OF new]
    by (intro exI [of _ "replicate 12 CHR ''n''"]) (simp add: sample_nonce_def)
  from envelope_bound_to_owner [OF tagged.aead_axioms new _ _ b this] show ?thesis
    by (auto simp: sample_nonce_def)
qed

theorem malformed_refused_before_cipher_witness:
  "\<exists>why. why \<noteq> NotAuthentic \<and> (\<forall>e owner. Open e (replicate 40 CHR 0x00) owner = Some (Inl (ErrInvalidEnvelope why)))"
  by (rule malformed_refused_before_cipher) simp

end
