(* ===== verification/UrlEscape.thy ===== *)
theory UrlEscape imports GoStrings UuidLib "HOL-Library.List_Lexorder" "HOL-Library.Char_ord"
begin

text \<open>
  The escaping of \<^verbatim>\<open>net/url\<close> the code uses: \<^verbatim>\<open>QueryEscape\<close> for the values of a query,
  the path escaping of \<^verbatim>\<open>URL.String\<close>, \<^verbatim>\<open>Values.Encode\<close>, and unescaping as the reader of
  a query performs it, with the round trip.
\<close>

definition upper_hex :: string where
  "upper_hex = ''0123456789ABCDEF''"

interpretation upper_hex: alphabet upper_hex 16
  by unfold_locales (simp_all add: upper_hex_def)

definition unreserved :: "char \<Rightarrow> bool" where
  "unreserved c \<longleftrightarrow> c \<in> set ''ABCDEFGHIJKLMNOPQRSTUVWXYZabcdefghijklmnopqrstuvwxyz0123456789-_.~''"

definition percent :: "char \<Rightarrow> string" where
  "percent c = [CHR ''%'', upper_hex ! (nat_of_byte c div 16), upper_hex ! (nat_of_byte c mod 16)]"

definition query_escape :: "string \<Rightarrow> string" where
  "query_escape s = concat (map (\<lambda>c. if unreserved c then [c] else if c = CHR '' '' then ''+'' else percent c) s)"

definition path_escape :: "string \<Rightarrow> string" where
  "path_escape s = concat (map (\<lambda>c. if unreserved c \<or> c \<in> set ''$&+,/:;=@'' then [c] else percent c) s)"

definition values_encode :: "(string \<times> string) list \<Rightarrow> string" where
  "values_encode kvs =
     join_with CHR ''&'' (map (\<lambda>(k, v). query_escape k @ CHR ''='' # query_escape v) (sort_key fst kvs))"

section \<open>Reading back\<close>

fun query_unescape :: "string \<Rightarrow> string option" where
  "query_unescape [] = Some []"
| "query_unescape (c # s) =
     (if c = CHR ''+'' then map_option (Cons (CHR '' '')) (query_unescape s)
      else if c = CHR ''%'' then
        (case s of
           a # b # r \<Rightarrow>
             (case (index_of a upper_hex, index_of b upper_hex) of
                (Some hi, Some lo) \<Rightarrow> map_option (Cons (byte_of (hi * 16 + lo))) (query_unescape r)
              | _ \<Rightarrow> None)
         | _ \<Rightarrow> None)
      else map_option (Cons c) (query_unescape s))"

lemma unescape_percent: "query_unescape (percent c @ s) = map_option (Cons c) (query_unescape s)"
proof -
  have "nat_of_byte c div 16 < 16" by (simp add: less_mult_imp_div_less)
  then have "index_of (upper_hex ! (nat_of_byte c div 16)) upper_hex = Some (nat_of_byte c div 16)"
    "index_of (upper_hex ! (nat_of_byte c mod 16)) upper_hex = Some (nat_of_byte c mod 16)"
    by (simp_all add: upper_hex.digit_roundtrip)
  moreover have "nat_of_byte c div 16 * 16 + nat_of_byte c mod 16 = nat_of_byte c" by simp
  ultimately show ?thesis by (simp add: percent_def)
qed

lemma query_roundtrip: "query_unescape (query_escape s @ t) = map_option ((@) s) (query_unescape t)"
proof (induction s)
  case Nil
  then show ?case by (cases "query_unescape t") (simp_all add: query_escape_def)
next
  case (Cons c s)
  have plain: "c \<noteq> CHR ''+''" "c \<noteq> CHR ''%''" if "unreserved c"
    using that by (auto simp: unreserved_def)
  have esc: "query_escape (c # s) = (if unreserved c then [c] else if c = CHR '' '' then ''+'' else percent c) @ query_escape s"
    by (simp add: query_escape_def)
  show ?case
    using Cons plain unescape_percent [of c "query_escape s @ t"]
    by (cases "query_unescape t") (auto simp: esc)
qed

lemma query_unescape_escape [simp]: "query_unescape (query_escape s) = Some s"
  using query_roundtrip [of s "[]"] by simp

text \<open>What escaping leaves: no separator of a query survives it.\<close>

lemma percent_chars: "x \<in> set (percent c) \<Longrightarrow> x = CHR ''%'' \<or> x \<in> set upper_hex"
proof -
  have "nat_of_byte c div 16 < 16" by (simp add: less_mult_imp_div_less)
  then show "x \<in> set (percent c) \<Longrightarrow> x = CHR ''%'' \<or> x \<in> set upper_hex"
    using upper_hex.digit_in_alph [of "nat_of_byte c div 16"] upper_hex.digit_in_alph [of "nat_of_byte c mod 16"]
    by (auto simp: percent_def)
qed

lemma query_escape_chars: "x \<in> set (query_escape s) \<Longrightarrow> unreserved x \<or> x = CHR ''+'' \<or> x = CHR ''%''"
  using percent_chars by (fastforce simp: query_escape_def unreserved_def upper_hex_def split: if_splits)

lemma query_escape_separators [simp]:
  "CHR ''&'' \<notin> set (query_escape s)" "CHR ''='' \<notin> set (query_escape s)"
  using query_escape_chars [of "CHR ''&''" s] query_escape_chars [of "CHR ''=''" s]
  by (auto simp: unreserved_def)

lemma query_escape_plain: "\<forall>c \<in> set s. unreserved c \<Longrightarrow> query_escape s = s"
  by (induction s) (auto simp: query_escape_def)

end
