(* ===== verification/GoFmt.thy ===== *)
theory GoFmt imports GoStrings
begin

text \<open>
  The part of \<^verbatim>\<open>fmt\<close> the code uses: printing decimals (\<^verbatim>\<open>%d\<close>, \<^verbatim>\<open>%0*d\<close>) and
  \<^verbatim>\<open>Sscanf\<close> with literals and \<^verbatim>\<open>%d\<close>. Scanning follows the package: literals must match,
  a verb skips leading blanks but not a newline, a signed verb accepts a sign, the number must
  fit its type, and whatever follows the last verb is ignored.
\<close>

section \<open>Printing\<close>

fun decimal_digits :: "nat \<Rightarrow> nat list" where
  "decimal_digits n = (if n < 10 then [n] else decimal_digits (n div 10) @ [n mod 10])"

declare decimal_digits.simps [simp del]

definition digit_char :: "nat \<Rightarrow> char" where
  "digit_char d = byte_of (48 + d)"

definition decimal :: "nat \<Rightarrow> string" where
  "decimal n = map digit_char (decimal_digits n)"

definition sprintf_0d :: "nat \<Rightarrow> nat \<Rightarrow> string" where
  "sprintf_0d w n = replicate (w - length (decimal n)) CHR ''0'' @ decimal n"

lemma length_decimal_digits: "n < 10 ^ k \<Longrightarrow> 0 < k \<Longrightarrow> length (decimal_digits n) \<le> k"
proof (induction n arbitrary: k rule: decimal_digits.induct)
  case (1 n)
  show ?case
  proof (cases "n < 10")
    case True
    with "1.prems" show ?thesis by (simp add: decimal_digits.simps [of n])
  next
    case False
    with "1.prems" obtain j where k: "k = Suc j" and j: "0 < j"
      by (cases k; cases "k - 1") auto
    then have "n div 10 < 10 ^ j" using "1.prems"(1) by (simp add: less_mult_imp_div_less mult.commute)
    with "1.IH" [OF False _ j] k False show ?thesis by (simp add: decimal_digits.simps [of n])
  qed
qed

lemma decimal_digits_less: "d \<in> set (decimal_digits n) \<Longrightarrow> d < 10"
proof (induction n rule: decimal_digits.induct)
  case (1 n)
  then show ?case by (cases "n < 10") (auto simp: decimal_digits.simps [of n])
qed

lemma decimal_digits_not_Nil [simp]: "decimal_digits n \<noteq> []"
  by (subst decimal_digits.simps) simp

lemma undigits_decimal: "undigits 10 (decimal_digits n) = n"
proof (induction n rule: decimal_digits.induct)
  case (1 n)
  then show ?case
    by (cases "n < 10") (simp_all add: decimal_digits.simps [of n] undigits_def)
qed

lemma digit_char_range: "d < 10 \<Longrightarrow> 48 \<le> nat_of_byte (digit_char d) \<and> nat_of_byte (digit_char d) \<le> 57"
  by (simp add: digit_char_def)

section \<open>Scanning\<close>

definition is_digit :: "char \<Rightarrow> bool" where
  "is_digit c \<longleftrightarrow> 48 \<le> nat_of_byte c \<and> nat_of_byte c \<le> 57"

definition digit_value :: "char \<Rightarrow> nat" where
  "digit_value c = nat_of_byte c - 48"

lemma spaces_nonempty: "[] \<notin> set utf8_spaces"
  by (simp add: utf8_spaces_def)

text \<open>Blanks before a verb; a newline is an error, not a blank.\<close>

function skip_blanks :: "string \<Rightarrow> string option" where
  "skip_blanks s =
     (if s \<noteq> [] \<and> hd s = CHR 0x0A then None
      else (case drop_one utf8_spaces s of None \<Rightarrow> Some s | Some r \<Rightarrow> skip_blanks r))"
  by pat_completeness auto
termination
  by (relation "measure length") (auto dest: drop_one_shorter simp: spaces_nonempty)

declare skip_blanks.simps [simp del]

definition scan_literal :: "string \<Rightarrow> string \<Rightarrow> string option" where
  "scan_literal lit s = strip_prefix lit s"

text \<open>A run of digits, at least one: its value and the rest.\<close>

definition scan_number :: "string \<Rightarrow> (nat \<times> string) option" where
  "scan_number s =
     (let ds = takeWhile is_digit s in
      if ds = [] then None else Some (undigits 10 (map digit_value ds), dropWhile is_digit s))"

definition scan_uint :: "nat \<Rightarrow> string \<Rightarrow> (nat \<times> string) option" where
  "scan_uint bits s =
     Option.bind (skip_blanks s) (\<lambda>s.
     Option.bind (scan_number s) (\<lambda>(n, r). if n < 2 ^ bits then Some (n, r) else None))"

definition scan_int :: "string \<Rightarrow> (int \<times> string) option" where
  "scan_int s =
     Option.bind (skip_blanks s) (\<lambda>s.
       case s of
         [] \<Rightarrow> None
       | c # r \<Rightarrow>
           if c = CHR ''-'' then
             Option.bind (scan_number r) (\<lambda>(n, r). if n \<le> 2 ^ 63 then Some (- int n, r) else None)
           else
             Option.bind (scan_number (if c = CHR ''+'' then r else s))
               (\<lambda>(n, r). if n < 2 ^ 63 then Some (int n, r) else None))"

lemma digit_value_char: "d < 10 \<Longrightarrow> digit_value (digit_char d) = d" "d < 10 \<Longrightarrow> is_digit (digit_char d)"
  by (simp_all add: digit_value_def digit_char_def is_digit_def)

lemma decimal_is_digit: "c \<in> set (decimal n) \<Longrightarrow> is_digit c"
  by (auto simp: decimal_def digit_value_char dest!: decimal_digits_less)

lemma decimal_not_Nil [simp]: "decimal n \<noteq> []"
  by (simp add: decimal_def)

lemma scan_number_decimal:
  assumes "r = [] \<or> \<not> is_digit (hd r)"
  shows "scan_number (decimal n @ r) = Some (n, r)"
proof -
  have "map digit_value (decimal n) = decimal_digits n"
    unfolding decimal_def using decimal_digits_less digit_value_char(1) by (simp add: map_idI)
  moreover have "takeWhile is_digit (decimal n @ r) = decimal n" "dropWhile is_digit (decimal n @ r) = r"
    using assms decimal_is_digit by (cases r; auto simp: takeWhile_append dropWhile_append)+
  ultimately show ?thesis by (simp add: scan_number_def Let_def undigits_decimal)
qed

lemma drop_one_None: "\<forall>w \<in> set ws. w \<noteq> [] \<and> hd w \<noteq> c \<Longrightarrow> drop_one ws (c # t) = None"
proof (induction ws)
  case (Cons w ws)
  then show ?case by (cases w) auto
qed simp

lemma skip_blanks_digit:
  assumes "s \<noteq> []" and "is_digit (hd s)"
  shows "skip_blanks s = Some s"
proof -
  obtain c t where s: "s = c # t" using assms(1) by (cases s) auto
  have d: "is_digit c" using assms(2) s by simp
  have ne: "c \<noteq> w" if "w \<in> set (map hd utf8_spaces)" for w
    using that d by (auto simp: utf8_spaces_def is_digit_def nat_of_byte_def)
  have "drop_one utf8_spaces s = None"
    unfolding s by (rule drop_one_None) (use ne spaces_nonempty in \<open>auto simp: image_iff\<close>)
  moreover have "c \<noteq> CHR 0x0A" using ne [of "CHR 0x0A"] by (simp add: utf8_spaces_def)
  ultimately show ?thesis by (subst skip_blanks.simps) (simp add: s)
qed

lemma scan_uint_decimal:
  assumes "n < 2 ^ bits" and "r = [] \<or> \<not> is_digit (hd r)"
  shows "scan_uint bits (decimal n @ r) = Some (n, r)"
proof -
  have "is_digit (hd (decimal n @ r))" using decimal_is_digit [of "hd (decimal n)" n] by simp
  then have "skip_blanks (decimal n @ r) = Some (decimal n @ r)" by (intro skip_blanks_digit) simp_all
  with assms scan_number_decimal [OF assms(2)] show ?thesis by (simp add: scan_uint_def)
qed

lemma scan_int_decimal:
  assumes "n < 2 ^ 63" and "r = [] \<or> \<not> is_digit (hd r)"
  shows "scan_int (decimal n @ r) = Some (int n, r)"
proof -
  obtain c t where ct: "decimal n = c # t" by (cases "decimal n") auto
  then have d: "is_digit c" using decimal_is_digit [of c n] by simp
  then have sg: "c \<noteq> CHR ''-''" "c \<noteq> CHR ''+''" by (auto simp: is_digit_def nat_of_byte_def)
  have "skip_blanks (decimal n @ r) = Some (decimal n @ r)" by (rule skip_blanks_digit) (simp_all add: ct d)
  with assms(1) scan_number_decimal [OF assms(2), of n] sg ct show ?thesis by (simp add: scan_int_def)
qed

lemma scan_uint_bound: "scan_uint bits s = Some (n, r) \<Longrightarrow> n < 2 ^ bits"
  by (auto simp: scan_uint_def bind_eq_Some_conv split: if_splits)

end
