(* ===== verification/Totp.thy ===== *)
theory Totp imports UrlEscape GoFmt "HOL-Library.Signed_Division"
begin

text \<open>
  \<^verbatim>\<open>internal/auth/totp.go\<close>: RFC 6238 codes over HMAC-SHA1, their verification in a window of
  one step either side, and the \<^verbatim>\<open>otpauth://\<close> URI. HMAC-SHA1 is an argument of which only the
  twenty bytes of its output are used. Go's \<^verbatim>\<open>int64\<close> division truncates towards zero
  (\<open>sdiv\<close>), the counter is the step modulo 2^64, and the truncated word is a
  \<^typ>\<open>32 word\<close>.
\<close>

unbundle bit_operations_syntax

section \<open>The package\<close>

definition TOTPSecretLength :: nat where
  "TOTPSecretLength = 20"

definition totpPeriod :: time where
  "totpPeriod = 30 * 1000000000"

definition totpDigits :: nat where
  "totpDigits = 6"

definition totpSkewSteps :: int where
  "totpSkewSteps = 1"

definition NewTOTPSecret :: "(nat \<Rightarrow> bytes option) \<Rightarrow> unit + bytes" where
  "NewTOTPSecret rand = (case rand TOTPSecretLength of None \<Rightarrow> Inl () | Some secret \<Rightarrow> Inr secret)"

fun pow10 :: "nat \<Rightarrow> 32 word" where
  "pow10 0 = 1"
| "pow10 (Suc n) = pow10 n * 10"

text \<open>\<open>None\<close> is a run-time panic of an index or a slice.\<close>

definition totpCode :: "(bytes \<Rightarrow> bytes \<Rightarrow> bytes) \<Rightarrow> bytes \<Rightarrow> int \<Rightarrow> string option" where
  "totpCode mac secret step =
     (let counter = bytes_be 8 (nat (step mod 2 ^ 64));
          sum = mac secret counter in
      Option.bind (if sum = [] then None else go_index (length sum - 1) sum) (\<lambda>last_byte.
        let offset = nat_of_byte last_byte mod 16 in
        Option.bind (go_slice offset (offset + 4) sum) (\<lambda>word.
          let truncated = (word_of_nat (nat_of_bytes word) :: 32 word) AND 0x7FFFFFFF in
          Some (sprintf_0d totpDigits (unat (truncated mod pow10 totpDigits))))))"

text \<open>The loop over the bytes: the first one out of range answers false.\<close>

definition isTOTPCode :: "string \<Rightarrow> bool" where
  "isTOTPCode code \<longleftrightarrow>
     (if length code \<noteq> totpDigits then False
      else list_all (\<lambda>c. \<not> (nat_of_byte c < nat_of_byte CHR ''0'' \<or> nat_of_byte c > nat_of_byte CHR ''9'')) code)"

definition ConstantTimeCompare :: "bytes \<Rightarrow> bytes \<Rightarrow> nat" where
  "ConstantTimeCompare x y = (if length x \<noteq> length y then 0 else if x = y then 1 else 0)"

text \<open>The loop accumulates with bitwise or and never stops early.\<close>

fun compare_steps :: "(int \<Rightarrow> string option) \<Rightarrow> string \<Rightarrow> int list \<Rightarrow> nat \<Rightarrow> nat option" where
  "compare_steps candidate code [] matched = Some matched"
| "compare_steps candidate code (s # ss) matched =
     Option.bind (candidate s) (\<lambda>c. compare_steps candidate code ss (matched OR ConstantTimeCompare c code))"

definition totp_step :: "time \<Rightarrow> int" where
  "totp_step at = (at div 1000000000) sdiv (totpPeriod sdiv 1000000000)"

definition VerifyTOTP :: "(bytes \<Rightarrow> bytes \<Rightarrow> bytes) \<Rightarrow> bytes \<Rightarrow> string \<Rightarrow> time \<Rightarrow> bool option" where
  "VerifyTOTP mac secret code at =
     (if length secret \<noteq> TOTPSecretLength then Some False
      else if \<not> isTOTPCode code then Some False
      else map_option (\<lambda>matched. matched = 1)
             (compare_steps (\<lambda>offset. totpCode mac secret (totp_step at + offset)) code
               [- totpSkewSteps .. totpSkewSteps] 0))"

section \<open>The enrolment URI\<close>

datatype uri_error = TOTPSecretHasLength nat | NeedsLabel string string

text \<open>\<^verbatim>\<open>URL.String\<close> of a URL with a scheme, a host and a path that starts with a slash.\<close>

definition url_string :: "string \<Rightarrow> string \<Rightarrow> string \<Rightarrow> string \<Rightarrow> string" where
  "url_string scheme host path query = scheme @ ''://'' @ host @ path_escape path @ CHR ''?'' # query"

definition TOTPURI :: "bytes \<Rightarrow> string \<Rightarrow> string \<Rightarrow> uri_error + string" where
  "TOTPURI secret issuer_name account =
     (if length secret \<noteq> TOTPSecretLength then Inl (TOTPSecretHasLength (length secret))
      else if issuer_name = [] \<or> account = [] then Inl (NeedsLabel issuer_name account)
      else Inr (url_string ''otpauth'' ''totp'' (''/'' @ issuer_name @ '':'' @ account)
             (values_encode
               [(''secret'', base32_encode secret), (''issuer'', issuer_name), (''algorithm'', ''SHA1''),
                (''digits'', ''6''), (''period'', ''30'')])))"

section \<open>Facts\<close>

locale mac20 =
  fixes mac :: "bytes \<Rightarrow> bytes \<Rightarrow> bytes"
  assumes mac_length [simp]: "length (mac key msg) = 20"
begin

lemma offset_in_range: "nat_of_byte b mod 16 + 4 \<le> length (mac key msg)"
  by simp

end

lemma zero_nine: "nat_of_byte CHR ''0'' = 48" "nat_of_byte CHR ''9'' = 57"
  by (simp_all add: nat_of_byte_def)

lemma isTOTPCode_iff: "isTOTPCode code \<longleftrightarrow> length code = 6 \<and> (\<forall>c \<in> set code. 48 \<le> nat_of_byte c \<and> nat_of_byte c \<le> 57)"
  by (auto simp: isTOTPCode_def totpDigits_def list_all_iff zero_nine not_less)

lemma sprintf_isTOTPCode:
  assumes "n < 10 ^ 6"
  shows "isTOTPCode (sprintf_0d 6 n)"
proof -
  have "length (decimal_digits n) \<le> 6" using length_decimal_digits [OF assms] by simp
  moreover have "48 \<le> nat_of_byte c \<and> nat_of_byte c \<le> 57" if "c \<in> set (sprintf_0d 6 n)" for c
  proof -
    from that have "c = CHR ''0'' \<or> (\<exists>d \<in> set (decimal_digits n). c = digit_char d)"
      by (auto simp: sprintf_0d_def decimal_def split: if_splits)
    then show ?thesis using digit_char_range decimal_digits_less zero_nine by auto
  qed
  ultimately show ?thesis by (simp add: isTOTPCode_iff sprintf_0d_def decimal_def)
qed

lemma pow10_6: "pow10 6 = 1000000"
  by (simp add: numeral_eq_Suc)

lemma totpCode_Some:
  assumes "mac20 mac"
  shows "\<exists>code. totpCode mac secret step = Some code \<and> isTOTPCode code"
proof -
  let ?sum = "mac secret (bytes_be 8 (nat (step mod 2 ^ 64)))"
  have len: "length ?sum = 20" by (rule mac20.mac_length [OF assms])
  then have ne: "?sum \<noteq> []" by auto
  have small: "unat ((w :: 32 word) mod pow10 6) < 10 ^ 6" for w by (simp add: pow10_6 unat_mod)
  from len ne show ?thesis
    by (simp add: totpCode_def Let_def go_index_def go_slice_def totpDigits_def sprintf_isTOTPCode [OF small])
qed

lemma totpCode_the: "mac20 mac \<Longrightarrow> totpCode mac secret step = Some (the (totpCode mac secret step))"
  using totpCode_Some [of mac secret step] by auto

lemma ConstantTimeCompare_eq: "ConstantTimeCompare x y = (if x = y then 1 else 0)"
  by (auto simp: ConstantTimeCompare_def)

lemma compare_steps_all:
  assumes "\<And>s. candidate s = Some (f s)" and "m = 0 \<or> m = 1"
  shows "compare_steps candidate code ss m = Some (if m = 1 \<or> (\<exists>s \<in> set ss. f s = code) then 1 else 0)"
  using assms(2)
proof (induction ss arbitrary: m)
  case (Cons s ss)
  let ?m = "m OR ConstantTimeCompare (f s) code"
  have m: "?m = (if m = 1 \<or> f s = code then 1 else 0)"
    using Cons.prems by (auto simp: ConstantTimeCompare_eq)
  then have "?m = 0 \<or> ?m = 1" by auto
  from Cons.IH [OF this] m assms(1) show ?case by (auto split: if_splits)
qed auto

lemma verify_iff:
  assumes "mac20 mac"
  shows "VerifyTOTP mac secret code at = Some (length secret = 20 \<and>
    (\<exists>offset \<in> {-1, 0, 1}. totpCode mac secret (totp_step at + offset) = Some code))"
proof -
  let ?f = "\<lambda>offset. the (totpCode mac secret (totp_step at + offset))"
  have range: "[- totpSkewSteps .. totpSkewSteps] = [-1, 0, 1]"
    by (simp add: totpSkewSteps_def upto.simps)
  have steps: "compare_steps (\<lambda>offset. totpCode mac secret (totp_step at + offset)) code [-1, 0, 1] 0
      = Some (if \<exists>s \<in> set [-1, 0, 1]. ?f s = code then 1 else 0)"
    using compare_steps_all [of "\<lambda>offset. totpCode mac secret (totp_step at + offset)" ?f 0 code "[-1, 0, 1]"]
      totpCode_the [OF assms] by simp
  have code: "totpCode mac secret s = Some code \<longleftrightarrow> the (totpCode mac secret s) = code" for s
    using totpCode_the [OF assms, of secret s] by auto
  have digits: "totpCode mac secret s = Some code \<Longrightarrow> isTOTPCode code" for s
    using totpCode_Some [OF assms, of secret s] by auto
  show ?thesis
    unfolding VerifyTOTP_def range steps TOTPSecretLength_def using digits code by auto
qed

lemma totp_step_nonneg: "0 \<le> at \<Longrightarrow> totp_step at = at div 1000000000 div 30"
  using pos_imp_zdiv_nonneg_iff [of 1000000000 at]
  by (cases "at div 1000000000 = 0") (simp_all add: totp_step_def totpPeriod_def signed_divide_int_def sgn_if)

lemma div_near:
  fixes x y :: int
  assumes "0 < d" and "\<bar>x - y\<bar> \<le> d * k"
  shows "\<bar>x div d - y div d\<bar> \<le> k"
proof -
  have "x div d \<le> (y + d * k) div d" by (rule zdiv_mono1) (use assms in linarith)+
  moreover have "y div d \<le> (x + d * k) div d" by (rule zdiv_mono1) (use assms in linarith)+
  ultimately show ?thesis using assms(1) by simp
qed

lemma step_near:
  assumes "0 \<le> t" and "0 \<le> t'" and "\<bar>t' - t\<bar> \<le> totpPeriod"
  shows "\<bar>totp_step t' - totp_step t\<bar> \<le> 1"
proof -
  have "\<bar>t' div 1000000000 - t div 1000000000\<bar> \<le> 30"
    by (rule div_near) (use assms(3) in \<open>simp_all add: totpPeriod_def\<close>)
  then have "\<bar>t' div 1000000000 div 30 - t div 1000000000 div 30\<bar> \<le> 1"
    using div_near [of 30 "t' div 1000000000" "t div 1000000000" 1] by simp
  with assms(1,2) show ?thesis by (simp add: totp_step_nonneg)
qed

section \<open>Properties\<close>

text \<open>C25: Verification never panics, and answers true exactly when the secret has its length and the code
  is the code of the current step or of one of its two neighbours.\<close>

theorem totp_accepts_exactly_the_window:
  assumes "mac20 mac"
  shows "VerifyTOTP mac secret code at = Some (length secret = 20 \<and>
    (\<exists>offset \<in> {-1, 0, 1}. totpCode mac secret (totp_step at + offset) = Some code))"
  using assms by (rule verify_iff)

text \<open>A code made at one instant is accepted at every instant at most thirty seconds before or after
  it, so a clock that is off by a whole period still lets its owner in.\<close>

theorem totp_tolerates_a_period:
  assumes "mac20 mac" and "length secret = 20" and "0 \<le> t" and "0 \<le> t'" and "\<bar>t' - t\<bar> \<le> totpPeriod"
    and "totpCode mac secret (totp_step t) = Some code"
  shows "VerifyTOTP mac secret code t' = Some True"
proof -
  from step_near [OF assms(3-5)] have "totp_step t - totp_step t' \<in> {-1, 0, 1}" by auto
  moreover have "totpCode mac secret (totp_step t' + (totp_step t - totp_step t')) = Some code"
    using assms(6) by simp
  ultimately show ?thesis unfolding verify_iff [OF assms(1)] using assms(2) by blast
qed

text \<open>Every code, at any step before or after the epoch, is exactly six ASCII digits; a secret of any
  other length than twenty bytes verifies nothing.\<close>

theorem totp_code_shape:
  assumes "mac20 mac"
  shows "(\<exists>code. totpCode mac secret step = Some code \<and> length code = 6
      \<and> (\<forall>c \<in> set code. c \<in> set ''0123456789''))
    \<and> (length secret \<noteq> 20 \<longrightarrow> VerifyTOTP mac secret code' at = Some False)"
proof -
  have digit: "c \<in> set ''0123456789''" if "48 \<le> nat_of_byte c \<and> nat_of_byte c \<le> 57" for c
  proof -
    from that have "nat_of_byte c \<in> {48, 49, 50, 51, 52, 53, 54, 55, 56, 57}" by (simp, presburger)
    also have "\<dots> = nat_of_byte ` set ''0123456789''" by (simp add: nat_of_byte_def)
    finally obtain d where "d \<in> set ''0123456789''" "nat_of_byte c = nat_of_byte d" by blast
    then show ?thesis by (metis nat_of_byte_inj)
  qed
  obtain code where c: "totpCode mac secret step = Some code" and "isTOTPCode code"
    using totpCode_Some [OF assms] by blast
  then have "length code = 6 \<and> (\<forall>c \<in> set code. c \<in> set ''0123456789'')"
    unfolding isTOTPCode_iff using digit by blast
  with c show ?thesis by (simp add: VerifyTOTP_def TOTPSecretLength_def)
qed

text \<open>The enrolment URI is built for every secret of twenty bytes with a non-empty issuer and account,
  and a reader that splits its query gets back the five parameters with their exact values.\<close>

theorem totp_uri_parameters:
  assumes "length secret = 20" and "iss \<noteq> []" and "account \<noteq> []"
  shows "\<exists>path query. TOTPURI secret iss account = Inr (''otpauth://totp'' @ path @ CHR ''?'' # query)
    \<and> map (split_on CHR ''='') (split_on CHR ''&'' query) =
      [[''algorithm'', ''SHA1''], [''digits'', ''6''], [''issuer'', query_escape iss], [''period'', ''30''],
       [''secret'', base32_encode secret]]
    \<and> query_unescape (query_escape iss) = Some iss"
proof -
  let ?q = "values_encode [(''secret'', base32_encode secret), (''issuer'', iss), (''algorithm'', ''SHA1''),
                (''digits'', ''6''), (''period'', ''30'')]"
  have plain: "unreserved c" if "c \<in> set (base32_encode secret)" for c
  proof -
    from that have "c \<in> set base32_std_alphabet"
      unfolding base32_encode_def by (auto simp: std32.digit_in_alph dest: quintets_less)
    then show ?thesis by (auto simp: base32_std_alphabet_def unreserved_def)
  qed
  then have sec: "query_escape (base32_encode secret) = base32_encode secret"
    by (intro query_escape_plain) blast
  have words: "query_escape k = k" if "k \<in> {''secret'', ''issuer'', ''algorithm'', ''digits'', ''period'', ''SHA1'', ''6'', ''30''}" for k
    by (rule query_escape_plain) (use that in \<open>auto simp: unreserved_def\<close>)
  have q: "?q = join_with CHR ''&'' [''algorithm=SHA1'', ''digits=6'', ''issuer='' @ query_escape iss, ''period=30'',
      ''secret='' @ base32_encode secret]"
    by (simp add: values_encode_def sort_key_def words sec)
  have "split_on CHR ''&'' ?q = [''algorithm=SHA1'', ''digits=6'', ''issuer='' @ query_escape iss, ''period=30'',
      ''secret='' @ base32_encode secret]"
    unfolding q using query_escape_separators(1) [of "base32_encode secret"] sec
    by (intro split_on_join) auto
  moreover have "split_on CHR ''='' (''issuer='' @ query_escape iss) = [''issuer'', query_escape iss]"
    "split_on CHR ''='' (''secret='' @ base32_encode secret) = [''secret'', base32_encode secret]"
    using query_escape_separators(2) [of "base32_encode secret"] sec by (simp_all add: split_on_plain)
  ultimately show ?thesis
    using assms by (intro exI [of _ "path_escape (''/'' @ iss @ '':'' @ account)"] exI [of _ ?q])
      (simp add: TOTPURI_def TOTPSecretLength_def url_string_def)
qed

section \<open>Worked examples\<close>

theorem totp_uri_parameters_witness:
  "\<exists>path query. TOTPURI (replicate 20 CHR 0x00) ''Mascot App'' ''a@b'' = Inr (''otpauth://totp'' @ path @ CHR ''?'' # query)"
  using totp_uri_parameters [of "replicate 20 CHR 0x00" "''Mascot App''" "''a@b''"] by auto

definition toy_hmac :: "bytes \<Rightarrow> bytes \<Rightarrow> bytes" where
  "toy_hmac key msg = take 20 (msg @ replicate 20 CHR 0x01)"

interpretation toy_hmac: mac20 toy_hmac
  by unfold_locales (simp add: toy_hmac_def)

theorem totp_accepts_exactly_the_window_witness:
  "VerifyTOTP toy_hmac ''short'' ''000000'' 0 = Some False"
  by (subst totp_accepts_exactly_the_window [OF toy_hmac.mac20_axioms]) simp

theorem totp_tolerates_a_period_witness:
  "VerifyTOTP toy_hmac (replicate 20 CHR ''s'') (the (totpCode toy_hmac (replicate 20 CHR ''s'') (totp_step 0))) 30000000000
    = Some True"
  by (rule totp_tolerates_a_period [OF toy_hmac.mac20_axioms _ _ _ _ totpCode_the [OF toy_hmac.mac20_axioms]])
    (simp_all add: totpPeriod_def)

theorem totp_code_shape_witness:
  "\<exists>code. totpCode toy_hmac (replicate 20 CHR ''s'') (-1) = Some code \<and> length code = 6"
  using totp_code_shape [OF toy_hmac.mac20_axioms] by blast

end
