(* ===== verification/Password.thy ===== *)
theory Password imports GoFmt Encodings
begin

text \<open>
  \<^verbatim>\<open>internal/auth/password.go\<close>: Argon2id hashes in PHC format. The derivation
  \<^verbatim>\<open>argon2.IDKey\<close> (\<open>idkey password salt time memory threads keyLen\<close>) is an argument of which
  only the length of its output is used; the random source is \<open>rand n\<close>. Parameters keep their
  Go widths, and the stored string is read with the scanning rules of \<^verbatim>\<open>fmt.Sscanf\<close>.
\<close>

section \<open>The package\<close>

record params =
  Memory :: "32 word"
  Time :: "32 word"
  Parallelism :: "8 word"
  SaltLength :: "32 word"
  KeyLength :: "32 word"

definition DefaultParams :: params where
  "DefaultParams = \<lparr>Memory = 64 * 1024, Time = 3, Parallelism = 1, SaltLength = 16, KeyLength = 32\<rparr>"

definition argon2idVersion :: int where
  "argon2idVersion = 19"

type_synonym kdf = "bytes \<Rightarrow> bytes \<Rightarrow> 32 word \<Rightarrow> 32 word \<Rightarrow> 8 word \<Rightarrow> 32 word \<Rightarrow> bytes"

datatype hash_error = ZeroCost | SaltErr

datatype invalid_hash = FieldCount nat | NotArgon2id string | UnreadableVersion string
  | UnsupportedVersion int | UnreadableParameters string | UndecodableSalt | UndecodableHash
  | SaltIs nat | HashIs nat | ZeroCostParameter string

definition dollar :: char where
  "dollar = CHR ''$''"

definition phc :: "params \<Rightarrow> bytes \<Rightarrow> bytes \<Rightarrow> string" where
  "phc p salt key =
     ''$argon2id$v='' @ decimal (nat argon2idVersion) @ ''$m='' @ decimal (unat (Memory p)) @
     '',t='' @ decimal (unat (Time p)) @ '',p='' @ decimal (unat (Parallelism p)) @
     [dollar] @ raw_std_encode salt @ [dollar] @ raw_std_encode key"

definition HashPasswordWithParams ::
  "kdf \<Rightarrow> (nat \<Rightarrow> bytes option) \<Rightarrow> string \<Rightarrow> params \<Rightarrow> hash_error + string" where
  "HashPasswordWithParams idkey rand password p =
     (if SaltLength p = 0 \<or> KeyLength p = 0 \<or> Memory p = 0 \<or> Time p = 0 \<or> Parallelism p = 0
      then Inl ZeroCost
      else (case rand (unat (SaltLength p)) of
              None \<Rightarrow> Inl SaltErr
            | Some salt \<Rightarrow>
                (let key = idkey password salt (Time p) (Memory p) (Parallelism p) (KeyLength p) in
                 Inr (phc p salt key))))"

definition HashPassword :: "kdf \<Rightarrow> (nat \<Rightarrow> bytes option) \<Rightarrow> string \<Rightarrow> hash_error + string" where
  "HashPassword idkey rand password = HashPasswordWithParams idkey rand password DefaultParams"

definition componentLength :: "int \<Rightarrow> (32 word) option" where
  "componentLength n = (if n \<le> 0 \<or> n > 1024 then None else Some (word_of_int n))"

text \<open>\<^verbatim>\<open>Sscanf(s, "v=%d", &version)\<close> and \<^verbatim>\<open>Sscanf(s, "m=%d,t=%d,p=%d", ...)\<close>.\<close>

definition scan_version :: "string \<Rightarrow> int option" where
  "scan_version s = Option.bind (scan_literal ''v='' s) (\<lambda>s. map_option fst (scan_int s))"

definition scan_costs :: "string \<Rightarrow> (nat \<times> nat \<times> nat) option" where
  "scan_costs s =
     Option.bind (scan_literal ''m='' s) (\<lambda>s. Option.bind (scan_uint 32 s) (\<lambda>(m, s).
     Option.bind (scan_literal '',t='' s) (\<lambda>s. Option.bind (scan_uint 32 s) (\<lambda>(t, s).
     Option.bind (scan_literal '',p='' s) (\<lambda>s. Option.bind (scan_uint 8 s) (\<lambda>(p, s).
       Some (m, t, p)))))))"

definition parse_fields ::
  "string \<Rightarrow> string \<Rightarrow> string \<Rightarrow> string \<Rightarrow> invalid_hash + params \<times> bytes \<times> bytes" where
  "parse_fields f2 f3 f4 f5 =
     (case scan_version f2 of
        None \<Rightarrow> Inl (UnreadableVersion f2)
      | Some version \<Rightarrow>
          if version \<noteq> argon2idVersion then Inl (UnsupportedVersion version)
          else (case scan_costs f3 of
                  None \<Rightarrow> Inl (UnreadableParameters f3)
                | Some (m, t, q) \<Rightarrow>
                    (case raw_std_decode f4 of
                       None \<Rightarrow> Inl UndecodableSalt
                     | Some salt \<Rightarrow>
                         (case raw_std_decode f5 of
                            None \<Rightarrow> Inl UndecodableHash
                          | Some want \<Rightarrow>
                              (case componentLength (int (length salt)) of
                                 None \<Rightarrow> Inl (SaltIs (length salt))
                               | Some saltLen \<Rightarrow>
                                   (case componentLength (int (length want)) of
                                      None \<Rightarrow> Inl (HashIs (length want))
                                    | Some keyLen \<Rightarrow>
                                        (let p = \<lparr>Memory = word_of_nat m, Time = word_of_nat t,
                                                  Parallelism = word_of_nat q, SaltLength = saltLen,
                                                  KeyLength = keyLen\<rparr> in
                                         if Memory p = 0 \<or> Time p = 0 \<or> Parallelism p = 0
                                         then Inl (ZeroCostParameter f3)
                                         else Inr (p, salt, want))))))))"

definition parse_phc :: "string \<Rightarrow> invalid_hash + params \<times> bytes \<times> bytes" where
  "parse_phc encoded =
     (case split_on dollar encoded of
        [f0, f1, f2, f3, f4, f5] \<Rightarrow>
          if f0 \<noteq> [] then Inl (FieldCount 6)
          else if f1 \<noteq> ''argon2id'' then Inl (NotArgon2id f1)
          else parse_fields f2 f3 f4 f5
      | pieces \<Rightarrow> Inl (FieldCount (length pieces)))"

definition VerifyPassword :: "kdf \<Rightarrow> string \<Rightarrow> string \<Rightarrow> invalid_hash + bool" where
  "VerifyPassword idkey encoded password =
     (case parse_phc encoded of
        Inl e \<Rightarrow> Inl e
      | Inr (p, salt, want) \<Rightarrow>
          (let got = idkey password salt (Time p) (Memory p) (Parallelism p) (KeyLength p) in
           Inr (length got = length want \<and> got = want)))"

section \<open>Facts\<close>

lemma componentLength_Some: "componentLength n = Some w \<Longrightarrow> 0 < n \<and> n \<le> 1024 \<and> uint w = n"
  by (auto simp: componentLength_def unsigned_of_int take_bit_int_eq_self split: if_splits)

lemma componentLength_len: "0 < n \<Longrightarrow> n \<le> 1024 \<Longrightarrow> componentLength (int n) = Some (word_of_nat n)"
  by (simp add: componentLength_def)

lemma no_dollar_decimal [simp]: "CHR ''$'' \<notin> set (decimal n)"
  using decimal_is_digit [of "CHR ''$''" n] by (auto simp: is_digit_def nat_of_byte_def)

lemma split_phc:
  "split_on dollar (phc p salt key) = ['''', ''argon2id'', ''v='' @ decimal (nat argon2idVersion),
     ''m='' @ decimal (unat (Memory p)) @ '',t='' @ decimal (unat (Time p)) @ '',p='' @ decimal (unat (Parallelism p)),
     raw_std_encode salt, raw_std_encode key]"
proof -
  let ?fs = "['''', ''argon2id'', ''v='' @ decimal (nat argon2idVersion),
     ''m='' @ decimal (unat (Memory p)) @ '',t='' @ decimal (unat (Time p)) @ '',p='' @ decimal (unat (Parallelism p)),
     raw_std_encode salt, raw_std_encode key]"
  have "phc p salt key = join_with dollar ?fs" by (simp add: phc_def dollar_def)
  moreover have "split_on dollar (join_with dollar ?fs) = ?fs"
    by (rule split_on_join) (simp_all add: dollar_def)
  ultimately show ?thesis by simp
qed

lemma scan_literal_append [simp]: "scan_literal lit (lit @ r) = Some r"
  by (simp add: scan_literal_def strip_prefix_Some)

lemma scan_version_phc: "scan_version (''v='' @ decimal (nat argon2idVersion)) = Some argon2idVersion"
  unfolding scan_version_def scan_literal_append
  using scan_int_decimal [of 19 "[]"] by (simp add: argon2idVersion_def)

lemma scan_costs_phc:
  assumes "m < 2 ^ 32" and "t < 2 ^ 32" and "q < 2 ^ 8"
  shows "scan_costs (''m='' @ decimal m @ '',t='' @ decimal t @ '',p='' @ decimal q) = Some (m, t, q)"
proof -
  have "scan_uint 32 (decimal m @ '',t='' @ decimal t @ '',p='' @ decimal q) = Some (m, '',t='' @ decimal t @ '',p='' @ decimal q)"
    by (rule scan_uint_decimal [OF assms(1)]) (simp add: is_digit_def nat_of_byte_def)
  moreover have "scan_uint 32 (decimal t @ '',p='' @ decimal q) = Some (t, '',p='' @ decimal q)"
    by (rule scan_uint_decimal [OF assms(2)]) (simp add: is_digit_def nat_of_byte_def)
  moreover have "scan_uint 8 (decimal q) = Some (q, [])"
    using scan_uint_decimal [OF assms(3), of "[]"] by simp
  ultimately show ?thesis unfolding scan_costs_def by (simp only: scan_literal_append bind.bind_lunit prod.case)
qed

lemma parse_phc_phc:
  assumes "Memory p \<noteq> 0" "Time p \<noteq> 0" "Parallelism p \<noteq> 0"
  shows "parse_phc (phc p salt key) =
    (if length salt = 0 \<or> length salt > 1024 then Inl (SaltIs (length salt))
     else if length key = 0 \<or> length key > 1024 then Inl (HashIs (length key))
     else Inr (p\<lparr>SaltLength := word_of_nat (length salt), KeyLength := word_of_nat (length key)\<rparr>, salt, key))"
proof -
  have c: "scan_costs (''m='' @ decimal (unat (Memory p)) @ '',t='' @ decimal (unat (Time p)) @ '',p='' @ decimal (unat (Parallelism p)))
      = Some (unat (Memory p), unat (Time p), unat (Parallelism p))"
    using unsigned_less [of "Memory p"] unsigned_less [of "Time p"] unsigned_less [of "Parallelism p"]
    by (intro scan_costs_phc) simp_all
  have l: "componentLength (int n) = (if n = 0 \<or> n > 1024 then None else Some (word_of_nat n))" for n
    by (simp add: componentLength_def)
  obtain f2 f3 where f: "scan_version f2 = Some argon2idVersion"
      "scan_costs f3 = Some (unat (Memory p), unat (Time p), unat (Parallelism p))"
    and split: "split_on dollar (phc p salt key) =
      [[], ''argon2id'', f2, f3, raw_std_encode salt, raw_std_encode key]"
    using scan_version_phc c split_phc by blast
  show ?thesis
    unfolding parse_phc_def split using assms by (cases p) (simp add: parse_fields_def f l Let_def)
qed

lemma parse_phc_Inr:
  assumes "parse_phc encoded = Inr (p, salt, want)"
  shows "Memory p \<noteq> 0 \<and> Time p \<noteq> 0 \<and> Parallelism p \<noteq> 0
    \<and> unat (SaltLength p) = length salt \<and> 1 \<le> length salt \<and> length salt \<le> 1024
    \<and> unat (KeyLength p) = length want \<and> 1 \<le> length want \<and> length want \<le> 1024"
proof -
  from assms obtain f2 f3 f4 f5 where "parse_fields f2 f3 f4 f5 = Inr (p, salt, want)"
    by (auto simp: parse_phc_def split: list.splits if_splits)
  then obtain sl kl where c: "componentLength (int (length salt)) = Some sl" "componentLength (int (length want)) = Some kl"
    and "Memory p \<noteq> 0" "Time p \<noteq> 0" "Parallelism p \<noteq> 0" "SaltLength p = sl" "KeyLength p = kl"
    by (auto simp: parse_fields_def Let_def split: option.splits if_splits)
  moreover have "unat sl = length salt" "unat kl = length want"
    using c [THEN componentLength_Some] by (simp_all add: unat_eq_nat_uint)
  ultimately show ?thesis using c [THEN componentLength_Some] by (auto simp: Suc_le_eq)
qed

section \<open>Properties\<close>

text \<open>C26: A hash this package makes is read back with the salt and parameters it was made with, and
  verifies exactly the passwords whose derivation is the same, the hashed one among them, as long
  as salt and key are at most 1024 bytes; a longer salt or key is stored but never read back.\<close>

theorem hashed_password_verifies:
  assumes "\<And>pw s t m q k. length (idkey pw s t m q k) = unat k" and "\<And>n bs. rand n = Some bs \<Longrightarrow> length bs = n"
    and "HashPasswordWithParams idkey rand pw p = Inr encoded"
  shows "\<exists>salt. rand (unat (SaltLength p)) = Some salt \<and> (\<forall>pw'. VerifyPassword idkey encoded pw' =
    (if unat (SaltLength p) > 1024 then Inl (SaltIs (unat (SaltLength p)))
     else if unat (KeyLength p) > 1024 then Inl (HashIs (unat (KeyLength p)))
     else Inr (idkey pw' salt (Time p) (Memory p) (Parallelism p) (KeyLength p)
       = idkey pw salt (Time p) (Memory p) (Parallelism p) (KeyLength p))))"
proof -
  from assms(3) obtain salt where nz: "SaltLength p \<noteq> 0" "KeyLength p \<noteq> 0" "Memory p \<noteq> 0" "Time p \<noteq> 0" "Parallelism p \<noteq> 0"
    and r: "rand (unat (SaltLength p)) = Some salt"
    and e: "encoded = phc p salt (idkey pw salt (Time p) (Memory p) (Parallelism p) (KeyLength p))"
    by (auto simp: HashPasswordWithParams_def Let_def split: if_splits option.splits)
  have ls: "length salt = unat (SaltLength p)" using assms(2) [OF r] .
  have pos: "unat (SaltLength p) \<noteq> 0" "unat (KeyLength p) \<noteq> 0" using nz by (simp_all add: unat_eq_0)
  have same: "p\<lparr>SaltLength := word_of_nat (unat (SaltLength p)), KeyLength := word_of_nat (unat (KeyLength p))\<rparr> = p"
    by (cases p) simp
  have "VerifyPassword idkey encoded pw' =
    (if unat (SaltLength p) > 1024 then Inl (SaltIs (unat (SaltLength p)))
     else if unat (KeyLength p) > 1024 then Inl (HashIs (unat (KeyLength p)))
     else Inr (idkey pw' salt (Time p) (Memory p) (Parallelism p) (KeyLength p)
       = idkey pw salt (Time p) (Memory p) (Parallelism p) (KeyLength p)))" for pw'
    unfolding VerifyPassword_def e parse_phc_phc [OF nz(3-5)] assms(1) ls using pos
    by (simp add: Let_def assms(1) same del: of_nat_unat)
  with r show ?thesis by blast
qed

text \<open>Hashing refuses every zero parameter, and otherwise fails only when the salt cannot be drawn.\<close>

theorem zero_cost_refused:
  "(HashPasswordWithParams idkey rand pw p = Inl ZeroCost) =
     (SaltLength p = 0 \<or> KeyLength p = 0 \<or> Memory p = 0 \<or> Time p = 0 \<or> Parallelism p = 0)"
  by (auto simp: HashPasswordWithParams_def Let_def split: option.splits)

text \<open>C27: Whatever is stored in the column, a hash that parses asks for a derivation with non-zero costs
  over a salt of 1 to 1024 bytes into a key of exactly the stored length, so the derivation cannot
  panic and the final comparison never meets two lengths.\<close>

theorem parsed_hash_is_derivable:
  assumes "parse_phc encoded = Inr (p, salt, want)"
  shows "Memory p \<noteq> 0 \<and> Time p \<noteq> 0 \<and> Parallelism p \<noteq> 0
    \<and> unat (SaltLength p) = length salt \<and> 1 \<le> length salt \<and> length salt \<le> 1024
    \<and> unat (KeyLength p) = length want \<and> 1 \<le> length want \<and> length want \<le> 1024"
  using assms by (rule parse_phc_Inr)

text \<open>The version field is read up to its number and no further: text after it that does not continue
  the number is ignored, so a stored string that is not in PHC format parses like one that is.\<close>

theorem version_field_ignores_trailing_text:
  assumes "CHR ''$'' \<notin> set junk" and "junk = [] \<or> \<not> is_digit (hd junk)"
  shows "parse_phc (''$argon2id$v=19'' @ junk @ CHR ''$'' # rest) = parse_phc (''$argon2id$v=19$'' @ rest)"
proof -
  have "decimal 19 = ''19''" by code_simp
  then have v: "scan_version (''v=19'' @ junk) = Some 19" "scan_version ''v=19'' = Some 19"
    using scan_int_decimal [OF _ assms(2), of 19] scan_int_decimal [of 19 "[]"]
    by (simp_all add: scan_version_def scan_literal_def)
  have s1: "split_on dollar (''$argon2id$v=19'' @ junk @ CHR ''$'' # rest)
      = [] # ''argon2id'' # (''v=19'' @ junk) # split_on dollar rest"
    using split_on_append [of dollar "''v=19'' @ junk" rest] assms(1) by (simp add: dollar_def)
  have s2: "split_on dollar (''$argon2id$v=19$'' @ rest) = [] # ''argon2id'' # ''v=19'' # split_on dollar rest"
    by (simp add: dollar_def)
  have "parse_fields (''v=19'' @ junk) f3 f4 f5 = parse_fields ''v=19'' f3 f4 f5" for f3 f4 f5
    unfolding parse_fields_def v by (simp add: argon2idVersion_def)
  then show ?thesis
    unfolding parse_phc_def s1 s2 by (auto split: list.splits)
qed

section \<open>Worked examples\<close>

definition toy_kdf :: kdf where
  "toy_kdf pw salt t m q k = take (unat k) (pw @ salt @ replicate (unat k) CHR 0x00)"

lemma toy_kdf_length: "length (toy_kdf pw s t m q k) = unat k"
  by (simp add: toy_kdf_def)

theorem hashed_password_verifies_witness:
  "\<exists>encoded. HashPassword toy_kdf (\<lambda>n. Some (replicate n CHR ''s'')) ''pw'' = Inr encoded
    \<and> VerifyPassword toy_kdf encoded ''pw'' = Inr True"
proof -
  obtain encoded where e: "HashPasswordWithParams toy_kdf (\<lambda>n. Some (replicate n CHR ''s'')) ''pw'' DefaultParams = Inr encoded"
    by (simp add: HashPasswordWithParams_def DefaultParams_def Let_def)
  from hashed_password_verifies [OF toy_kdf_length _ e] e show ?thesis
    by (auto simp: HashPassword_def DefaultParams_def)
qed

theorem parsed_hash_is_derivable_witness:
  "\<exists>p salt want. parse_phc (phc DefaultParams (replicate 16 CHR ''s'') (replicate 32 CHR ''k'')) = Inr (p, salt, want)
    \<and> length want \<le> 1024"
proof -
  obtain p where "parse_phc (phc DefaultParams (replicate 16 CHR ''s'') (replicate 32 CHR ''k''))
      = Inr (p, replicate 16 CHR ''s'', replicate 32 CHR ''k'')"
    using parse_phc_phc [of DefaultParams "replicate 16 CHR ''s''" "replicate 32 CHR ''k''"]
    by (simp add: DefaultParams_def)
  with parsed_hash_is_derivable [OF this] show ?thesis by blast
qed

theorem version_field_ignores_trailing_text_witness:
  "parse_phc (''$argon2id$v=19'' @ ''-draft'' @ CHR ''$'' # ''m=1,t=1,p=1$AAAA$AAAA'')
    = parse_phc (''$argon2id$v=19$'' @ ''m=1,t=1,p=1$AAAA$AAAA'')"
  by (rule version_field_ignores_trailing_text) (simp_all add: is_digit_def nat_of_byte_def)

end
