(* ===== verification/NetIp.thy ===== *)
theory NetIp imports GoFmt Encodings "HOL-Library.Word"
begin

text \<open>
  The part of \<^verbatim>\<open>net/netip\<close>, \<^verbatim>\<open>net\<close> and \<^verbatim>\<open>strconv\<close> the client address resolver and the
  configuration use: \<^verbatim>\<open>ParseAddr\<close> for both families, \<^verbatim>\<open>Addr.WithZone\<close>, \<^verbatim>\<open>Addr.Unmap\<close>,
  \<^verbatim>\<open>ParsePrefix\<close>, \<^verbatim>\<open>Prefix.Masked\<close>, \<^verbatim>\<open>Prefix.Contains\<close>, \<^verbatim>\<open>net.SplitHostPort\<close> and
  \<^verbatim>\<open>strconv.Atoi\<close>. Addresses are words of their width, with the zone an IPv6 address may
  carry.
\<close>

datatype addr = IP4 "32 word" | IP6 "128 word" string

unbundle bit_operations_syntax

section \<open>Numbers\<close>

definition atoi :: "string \<Rightarrow> int option" where
  "atoi s =
     (let digits = (case s of c # r \<Rightarrow> if c = CHR ''-'' \<or> c = CHR ''+'' then r else s | [] \<Rightarrow> s);
          neg = (s \<noteq> [] \<and> hd s = CHR ''-'') in
      if digits = [] \<or> \<not> list_all is_digit digits then None
      else let n = int (undigits 10 (map digit_value digits)) in
        if neg then (if n \<le> 2 ^ 63 then Some (- n) else None)
        else if n < 2 ^ 63 then Some n else None)"

definition lower_hex_value :: "char \<Rightarrow> nat option" where
  "lower_hex_value c = index_of (ascii_lower c) ''0123456789abcdef''"

section \<open>Parsing addresses\<close>

text \<open>One field of a dotted quad: decimal, no leading zero, at most 255.\<close>

definition octet :: "string \<Rightarrow> nat option" where
  "octet f =
     (if f = [] \<or> \<not> list_all is_digit f \<or> (hd f = CHR ''0'' \<and> length f > 1) then None
      else let n = undigits 10 (map digit_value f) in if n \<le> 255 then Some n else None)"

definition parseIPv4Fields :: "string \<Rightarrow> nat list option" where
  "parseIPv4Fields s =
     (let fields = split_on CHR ''.'' s in
      if length fields = 4 then those (map octet fields) else None)"

definition parseIPv4 :: "string \<Rightarrow> addr option" where
  "parseIPv4 s = map_option (\<lambda>bs. IP4 (word_of_nat (undigits 256 bs))) (parseIPv4Fields s)"

text \<open>
  The loop of \<^verbatim>\<open>parseIPv6\<close>: the bytes read so far, the position of the ellipsis, and the rest
  of the string; it ends with all bytes and the ellipsis, or fails.
\<close>

function v6_groups :: "nat list \<Rightarrow> nat option \<Rightarrow> string \<Rightarrow> (nat list \<times> nat option) option" where
  "v6_groups bs ell s =
     (if 16 \<le> length bs then (if s = [] then Some (bs, ell) else None)
      else
        let digits = takeWhile (\<lambda>c. lower_hex_value c \<noteq> None) s;
            rest = dropWhile (\<lambda>c. lower_hex_value c \<noteq> None) s;
            n = undigits 16 (map (\<lambda>c. the (lower_hex_value c)) digits);
            bs' = bs @ [n div 256, n mod 256] in
        if digits = [] \<or> 4 < length digits then None
        else (case rest of
                [] \<Rightarrow> Some (bs', ell)
              | c # rest' \<Rightarrow>
                  if c = CHR ''.'' then
                    (if (ell = None \<and> length bs \<noteq> 12) \<or> 16 < length bs + 4 then None
                     else map_option (\<lambda>fields. (bs @ fields, ell)) (parseIPv4Fields s))
                  else if c \<noteq> CHR '':'' \<or> rest' = [] then None
                  else if hd rest' = CHR '':'' then
                    (if ell \<noteq> None then None
                     else if tl rest' = [] then Some (bs', Some (length bs'))
                     else v6_groups bs' (Some (length bs')) (tl rest'))
                  else v6_groups bs' ell rest'))"
  by pat_completeness auto
termination
proof (relation "measure (\<lambda>(bs, ell, s). length s)", goal_cases)
  case (2 bs ell s digits rest n bs' c rest')
  then have "length (c # rest') \<le> length s" by (metis length_dropWhile_le)
  with 2 show ?case by simp
next
  case (3 bs ell s digits rest n bs' c rest')
  then have "length (c # rest') \<le> length s" by (metis length_dropWhile_le)
  with 3 show ?case by simp
qed simp

declare v6_groups.simps [simp del]

text \<open>The ellipsis stands for at least one group of zeros; without one, all sixteen bytes were read.\<close>

definition expand_ellipsis :: "nat list \<times> nat option \<Rightarrow> nat list option" where
  "expand_ellipsis r =
     (case r of (bs, ell) \<Rightarrow>
        if length bs < 16
        then map_option (\<lambda>e. take e bs @ replicate (16 - length bs) 0 @ drop e bs) ell
        else if ell = None then Some bs else None)"

definition parseIPv6 :: "string \<Rightarrow> addr option" where
  "parseIPv6 input =
     (case cut_on CHR ''%'' input of (s, zone, zoned) \<Rightarrow>
        if zoned \<and> zone = [] then None
        else let leading = take 2 s = ''::'';
                 s' = (if leading then drop 2 s else s) in
          if leading \<and> s' = [] then Some (IP6 0 zone)
          else map_option (\<lambda>bs. IP6 (word_of_nat (undigits 256 bs)) zone)
            (Option.bind (v6_groups [] (if leading then Some 0 else None) s') expand_ellipsis))"

definition ParseAddr :: "string \<Rightarrow> addr option" where
  "ParseAddr s =
     (case dropWhile (\<lambda>c. c \<noteq> CHR ''.'' \<and> c \<noteq> CHR '':'' \<and> c \<noteq> CHR ''%'') s of
        [] \<Rightarrow> None
      | c # _ \<Rightarrow> if c = CHR ''.'' then parseIPv4 s else if c = CHR '':'' then parseIPv6 s else None)"

text \<open>\<^verbatim>\<open>WithZone\<close> affects IPv6 addresses only; \<^verbatim>\<open>Unmap\<close> turns an IPv4-mapped one into IPv4.\<close>

fun WithZone :: "string \<Rightarrow> addr \<Rightarrow> addr" where
  "WithZone z (IP4 a) = IP4 a"
| "WithZone z (IP6 a _) = IP6 a z"

fun Unmap :: "addr \<Rightarrow> addr" where
  "Unmap (IP4 a) = IP4 a"
| "Unmap (IP6 a z) = (if drop_bit 32 a = 0xFFFF then IP4 (ucast a) else IP6 a z)"

fun BitLen :: "addr \<Rightarrow> nat" where
  "BitLen (IP4 a) = 32"
| "BitLen (IP6 a z) = 128"

section \<open>Prefixes\<close>

text \<open>A prefix carries no zone. An invalid bit length is none here, as no constructor the code
  calls yields one.\<close>

record prefix =
  paddr :: addr
  pbits :: nat

definition PrefixFrom :: "addr \<Rightarrow> nat \<Rightarrow> prefix" where
  "PrefixFrom a n = \<lparr>paddr = WithZone [] a, pbits = n\<rparr>"

definition same_prefix :: "nat \<Rightarrow> 'a::len word \<Rightarrow> 'a word \<Rightarrow> bool" where
  "same_prefix n a b \<longleftrightarrow> drop_bit (LENGTH('a) - n) (a XOR b) = 0"

definition Contains :: "prefix \<Rightarrow> addr \<Rightarrow> bool" where
  "Contains p a =
     (case (paddr p, a) of
        (IP4 b, IP4 a') \<Rightarrow> same_prefix (pbits p) a' b
      | (IP6 b _, IP6 a' z) \<Rightarrow> z = [] \<and> same_prefix (pbits p) a' b
      | _ \<Rightarrow> False)"

definition Masked :: "prefix \<Rightarrow> prefix" where
  "Masked p =
     (case paddr p of
        IP4 a \<Rightarrow> p\<lparr>paddr := IP4 (push_bit (32 - pbits p) (drop_bit (32 - pbits p) a))\<rparr>
      | IP6 a z \<Rightarrow> p\<lparr>paddr := IP6 (push_bit (128 - pbits p) (drop_bit (128 - pbits p) a)) z\<rparr>)"

text \<open>Split at the last occurrence of a character.\<close>

definition cut_last :: "char \<Rightarrow> string \<Rightarrow> (string \<times> string) option" where
  "cut_last c s =
     (if c \<in> set s
      then Some (rev (tl (dropWhile (\<lambda>x. x \<noteq> c) (rev s))), rev (takeWhile (\<lambda>x. x \<noteq> c) (rev s)))
      else None)"

definition ParsePrefix :: "string \<Rightarrow> prefix option" where
  "ParsePrefix s =
     (case cut_last CHR ''/'' s of
        None \<Rightarrow> None
      | Some (a, bits) \<Rightarrow>
          (case ParseAddr a of
             None \<Rightarrow> None
           | Some ip \<Rightarrow>
               if (case ip of IP6 _ z \<Rightarrow> z \<noteq> [] | _ \<Rightarrow> False) then None
               else if 1 < length bits \<and> \<not> (is_digit (hd bits) \<and> hd bits \<noteq> CHR ''0'') then None
               else (case atoi bits of
                       None \<Rightarrow> None
                     | Some n \<Rightarrow> if n < 0 \<or> int (BitLen ip) < n then None else Some (PrefixFrom ip (nat n)))))"

section \<open>Splitting host and port\<close>

text \<open>The host of \<^verbatim>\<open>net.SplitHostPort\<close>; \<open>None\<close> is its error.\<close>

definition split_host :: "string \<Rightarrow> string option" where
  "split_host hp =
     (case cut_last CHR '':'' hp of
        None \<Rightarrow> None
      | Some (front, port) \<Rightarrow>
          if hd hp = CHR ''['' then
            (case cut_on CHR '']'' hp of (inside, after, found) \<Rightarrow>
               if \<not> found \<or> front \<noteq> inside @ '']'' then None
               else if CHR ''['' \<in> set (tl hp) \<or> CHR '']'' \<in> set after then None
               else Some (tl inside))
          else if CHR '':'' \<in> set front \<or> CHR ''['' \<in> set hp \<or> CHR '']'' \<in> set hp then None
          else Some front)"

section \<open>Facts\<close>

text \<open>What is compared with a prefix has no zone and is never a mapped address.\<close>

definition canonical_addr :: "addr \<Rightarrow> bool" where
  "canonical_addr a \<longleftrightarrow> (case a of IP4 _ \<Rightarrow> True | IP6 w z \<Rightarrow> z = [] \<and> drop_bit 32 w \<noteq> 0xFFFF)"

lemma canonical_Unmap: "canonical_addr (Unmap (WithZone [] a))"
  by (cases a) (simp_all add: canonical_addr_def)

text \<open>Membership is agreement on the leading bits, so a masked prefix has the same members.\<close>

lemma xor_zero_iff: "a XOR b = 0 \<longleftrightarrow> a = (b :: 'a::len word)"
  by (metis word_bw_same(3) xor.left_commute xor.right_neutral)

lemma same_prefix_bits: "same_prefix n (a :: 'a::len word) b \<longleftrightarrow>
    drop_bit (LENGTH('a) - n) a = drop_bit (LENGTH('a) - n) b"
  by (simp add: same_prefix_def xor_zero_iff)

lemma drop_push_drop: "drop_bit n (push_bit n (drop_bit n (a :: 'a::len word))) = drop_bit n a"
  by (rule bit_word_eqI) (auto simp: bit_simps dest: bit_imp_le_length)

lemma Contains_Masked: "Contains (Masked p) a = Contains p a"
  by (auto simp: Contains_def Masked_def same_prefix_bits drop_push_drop split: addr.splits)

lemma Contains_full: "Contains (PrefixFrom b (BitLen b)) a \<longleftrightarrow> WithZone [] b = a"
  by (cases a; cases b) (auto simp: Contains_def PrefixFrom_def same_prefix_def xor_zero_iff)

end
