(* ===== verification/Http.thy ===== *)
theory Http imports UrlEscape NetIp Token
begin

text \<open>
  The part of \<^verbatim>\<open>net/http\<close> the handlers of \<^verbatim>\<open>internal/httpapi\<close> use: header maps with
  canonical keys, requests with the values the middlewares put in their context, a response
  writer whose status is fixed by the first write, and handlers and middlewares as functions.
\<close>

section \<open>Headers\<close>

text \<open>\<^verbatim>\<open>CanonicalMIMEHeaderKey\<close>: a key with a byte that no token has is left as it is.\<close>

definition token_char :: "char \<Rightarrow> bool" where
  "token_char c \<longleftrightarrow> is_digit c \<or> c \<in> set ''!#$%&*+-.^_`|~'' \<or> c = CHR 0x27
     \<or> (let n = nat_of_byte c in 65 \<le> n \<and> n \<le> 90 \<or> 97 \<le> n \<and> n \<le> 122)"

fun canonical_from :: "bool \<Rightarrow> string \<Rightarrow> string" where
  "canonical_from up [] = []"
| "canonical_from up (c # s) =
     (if up then ascii_upper c else ascii_lower c) # canonical_from (c = CHR ''-'') s"

definition canonical_key :: "string \<Rightarrow> string" where
  "canonical_key k = (if list_all token_char k then canonical_from True k else k)"

type_synonym header = "string \<Rightarrow> string list"

definition header_values :: "header \<Rightarrow> string \<Rightarrow> string list" where
  "header_values h k = h (canonical_key k)"

definition header_get :: "header \<Rightarrow> string \<Rightarrow> string" where
  "header_get h k = (case header_values h k of [] \<Rightarrow> [] | v # _ \<Rightarrow> v)"

definition header_set :: "string \<Rightarrow> string \<Rightarrow> header \<Rightarrow> header" where
  "header_set k v h = h(canonical_key k := [v])"

definition header_add :: "string \<Rightarrow> string \<Rightarrow> header \<Rightarrow> header" where
  "header_add k v h = h(canonical_key k := header_values h k @ [v])"

definition header_del :: "string \<Rightarrow> header \<Rightarrow> header" where
  "header_del k h = h(canonical_key k := [])"

section \<open>Requests\<close>

text \<open>
  \<open>URLParam\<close> is what the chi router matched for a path parameter, the empty string for one the
  route does not have. The context holds what the middlewares put there under their own keys.
\<close>

record request =
  req_method :: string
  RemoteAddr :: string
  URLPath :: string
  RawQuery :: string
  req_header :: header
  URLParam :: "string \<Rightarrow> string"
  ctx_claims :: "access_claims option"
  ctx_tx :: bool
  ctx_ip :: "addr option"

text \<open>\<^verbatim>\<open>url.ParseQuery\<close> as \<^verbatim>\<open>URL.Query\<close> calls it, passing over malformed pairs; the cap the library
  puts on the number of pairs is not modelled.\<close>

fun form_unescape :: "string \<Rightarrow> string option" where
  "form_unescape [] = Some []"
| "form_unescape (c # s) =
     (if c = CHR ''+'' then map_option (Cons (CHR '' '')) (form_unescape s)
      else if c = CHR ''%'' then
        (case s of
           a # b # r \<Rightarrow>
             (case (lower_hex_value a, lower_hex_value b) of
                (Some hi, Some lo) \<Rightarrow> map_option (Cons (byte_of (hi * 16 + lo))) (form_unescape r)
              | _ \<Rightarrow> None)
         | _ \<Rightarrow> None)
      else map_option (Cons c) (form_unescape s))"

definition query_pair :: "string \<Rightarrow> (string \<times> string) option" where
  "query_pair p =
     (if CHR '';'' \<in> set p \<or> p = [] then None
      else (case cut_on CHR ''='' p of (k, v, _) \<Rightarrow>
        (case (form_unescape k, form_unescape v) of (Some k', Some v') \<Rightarrow> Some (k', v') | _ \<Rightarrow> None)))"

definition query_get :: "string \<Rightarrow> string \<Rightarrow> string" where
  "query_get raw k =
     (case filter (\<lambda>p. fst p = k) (List.map_filter query_pair (split_on CHR ''&'' raw)) of
        [] \<Rightarrow> [] | (_, v) # _ \<Rightarrow> v)"

section \<open>Responses\<close>

text \<open>
  The header map is live until the status is written; \<open>sent\<close> is the status with the headers as
  they were then. A later \<^verbatim>\<open>WriteHeader\<close> is ignored, a write without one sends 200.
\<close>

record reply =
  rheader :: header
  sent :: "(nat \<times> header) option"
  rbody :: string

definition fresh_reply :: reply where
  "fresh_reply = \<lparr>rheader = (\<lambda>_. []), sent = None, rbody = []\<rparr>"

definition set_header :: "string \<Rightarrow> string \<Rightarrow> reply \<Rightarrow> reply" where
  "set_header k v w = w\<lparr>rheader := header_set k v (rheader w)\<rparr>"

definition add_header :: "string \<Rightarrow> string \<Rightarrow> reply \<Rightarrow> reply" where
  "add_header k v w = w\<lparr>rheader := header_add k v (rheader w)\<rparr>"

definition WriteHeader :: "nat \<Rightarrow> reply \<Rightarrow> reply" where
  "WriteHeader code w = (case sent w of None \<Rightarrow> w\<lparr>sent := Some (code, rheader w)\<rparr> | Some _ \<Rightarrow> w)"

definition write_body :: "string \<Rightarrow> reply \<Rightarrow> reply" where
  "write_body s w = (let w = WriteHeader 200 w in w\<lparr>rbody := rbody w @ s\<rparr>)"

text \<open>\<^verbatim>\<open>http.Error\<close>.\<close>

definition http_error :: "string \<Rightarrow> nat \<Rightarrow> reply \<Rightarrow> reply" where
  "http_error msg code w =
     write_body (msg @ [CHR 0x0A])
       (WriteHeader code
         (set_header ''X-Content-Type-Options'' ''nosniff''
           (set_header ''Content-Type'' ''text/plain; charset=utf-8''
             (w\<lparr>rheader := header_del ''Content-Length'' (rheader w)\<rparr>))))"

text \<open>The status the client sees: a handler that returns without writing is answered 200.\<close>

definition status :: "reply \<Rightarrow> nat" where
  "status w = (case sent w of None \<Rightarrow> 200 | Some (code, _) \<Rightarrow> code)"

section \<open>Handlers\<close>

text \<open>
  A handler writes a reply and acts on the world behind it; it returns or panics. A middleware
  makes a handler from the next one.
\<close>

datatype ending = Served | Panicked

type_synonym 'w handler = "request \<Rightarrow> reply \<times> 'w \<Rightarrow> ending \<times> reply \<times> 'w"
type_synonym 'w middleware = "'w handler \<Rightarrow> 'w handler"

text \<open>A handler that only answers.\<close>

definition answer :: "(reply \<Rightarrow> reply) \<Rightarrow> reply \<times> 'w \<Rightarrow> ending \<times> reply \<times> 'w" where
  "answer f ws = (Served, f (fst ws), snd ws)"

lemma answer_simps [simp]: "answer f (w, s) = (Served, f w, s)" by (simp add: answer_def)

lemma status_sent [simp]: "sent w = Some (code, h) \<Longrightarrow> status w = code" by (simp add: status_def)

text \<open>Writing an error decides the status only when none was sent before.\<close>

lemma sent_http_error: "sent w = None \<Longrightarrow> \<exists>h. sent (http_error msg code w) = Some (code, h)"
  by (simp add: http_error_def write_body_def WriteHeader_def set_header_def Let_def)

lemma http_error_late: "sent w = Some x \<Longrightarrow> sent (http_error msg code w) = Some x
    \<and> rbody (http_error msg code w) = rbody w @ msg @ [CHR 0x0A]"
  by (simp add: http_error_def write_body_def WriteHeader_def set_header_def Let_def)

lemma status_http_error [simp]: "sent w = None \<Longrightarrow> status (http_error msg code w) = code"
  using sent_http_error [of w msg code] by auto

lemma status_fresh [simp]: "sent fresh_reply = None" "rheader fresh_reply k = []"
  by (simp_all add: fresh_reply_def)

end
