(* ===== verification/Middleware.thy ===== *)
theory Middleware imports Http TxScope
begin

text \<open>
  The tenant boundary of \<^verbatim>\<open>httpapi/middleware_auth.go\<close>: \<open>RequireAuth\<close> verifies the bearer
  token and puts its claims in the request context, \<open>RequireTenant\<close> takes the shelter from
  those claims alone, refuses a request that names another one, and only then opens the scoped
  transaction the handler runs in. The scope opener is the parameter \<^verbatim>\<open>TenantScoper\<close> of the Go
  code; the composed theorems give it \<^verbatim>\<open>WithTenant\<close> on the connection model.
\<close>

section \<open>The code\<close>

definition ShelterIDPathParam :: string where
  "ShelterIDPathParam = ''shelterID''"

definition shelterIDQueryParam :: string where
  "shelterIDQueryParam = ''shelter_id''"

definition shelterIDHeader :: string where
  "shelterIDHeader = ''X-Shelter-ID''"

type_synonym ('w, 'e) tenant_scoper =
  "uuid \<Rightarrow> (reply \<times> 'w \<Rightarrow> unit call \<times> reply \<times> 'w) \<Rightarrow> reply \<times> 'w \<Rightarrow> 'e call \<times> reply \<times> 'w"

definition unauthorized :: "reply \<Rightarrow> reply" where
  "unauthorized w = http_error ''unauthorized'' 401 (set_header ''WWW-Authenticate'' ''Bearer'' w)"

definition forbidden :: "reply \<Rightarrow> reply" where
  "forbidden w = http_error ''forbidden'' 403 w"

definition bearerToken :: "string \<Rightarrow> string option" where
  "bearerToken header =
     (case cut_on CHR '' '' header of (scheme, credential, found) \<Rightarrow>
        if \<not> found \<or> \<not> equal_fold scheme ''Bearer'' \<or> credential = [] then None else Some credential)"

definition ClaimsFromContext :: "request \<Rightarrow> access_claims option" where
  "ClaimsFromContext r = ctx_claims r"

definition TxFromContext :: "request \<Rightarrow> bool" where
  "TxFromContext r = ctx_tx r"

definition RequireAuth ::
  "(string \<Rightarrow> uuid option) \<Rightarrow> (parser_options \<Rightarrow> bytes \<Rightarrow> string \<Rightarrow> access_token_claims option)
   \<Rightarrow> token_issuer \<Rightarrow> time \<Rightarrow> 'w middleware" where
  "RequireAuth uparse parse i now next r ws =
     (case bearerToken (header_get (req_header r) ''Authorization'') of
        None \<Rightarrow> answer unauthorized ws
      | Some raw \<Rightarrow>
          (case Verify uparse parse i raw now of
             Inl _ \<Rightarrow> answer unauthorized ws
           | Inr claims \<Rightarrow> next (r\<lparr>ctx_claims := Some claims\<rparr>) ws))"

fun supplied_agree :: "(string \<Rightarrow> uuid option) \<Rightarrow> uuid \<Rightarrow> string list \<Rightarrow> bool" where
  "supplied_agree uparse claimed [] = True"
| "supplied_agree uparse claimed (raw # rest) =
     (if raw = [] then supplied_agree uparse claimed rest
      else (case uparse raw of
              None \<Rightarrow> False
            | Some parsed \<Rightarrow> if parsed \<noteq> claimed then False else supplied_agree uparse claimed rest))"

definition requestAgreesOnShelter :: "(string \<Rightarrow> uuid option) \<Rightarrow> request \<Rightarrow> uuid \<Rightarrow> bool" where
  "requestAgreesOnShelter uparse r claimed =
     supplied_agree uparse claimed
       [URLParam r ShelterIDPathParam, query_get (RawQuery r) shelterIDQueryParam,
        header_get (req_header r) shelterIDHeader]"

text \<open>The function \<^verbatim>\<open>RequireTenant\<close> hands to the scoper: the next handler, with the transaction in
  its context; it returns \<^verbatim>\<open>nil\<close> whatever the handler answered.\<close>

definition serve_in_tx :: "'w handler \<Rightarrow> request \<Rightarrow> reply \<times> 'w \<Rightarrow> unit call \<times> reply \<times> 'w" where
  "serve_in_tx next r ws =
     (case next (r\<lparr>ctx_tx := True\<rparr>) ws of
        (Served, ws') \<Rightarrow> (Return None, ws')
      | (Panicked, ws') \<Rightarrow> (Panic, ws'))"

definition RequireTenant ::
  "(string \<Rightarrow> uuid option) \<Rightarrow> ('w, 'e) tenant_scoper \<Rightarrow> 'w middleware" where
  "RequireTenant uparse scope next r ws =
     (case ClaimsFromContext r of
        None \<Rightarrow> answer (http_error ''server misconfigured'' 500) ws
      | Some claims \<Rightarrow>
          (case ShelterID claims of
             None \<Rightarrow> answer forbidden ws
           | Some shelterID \<Rightarrow>
               if shelterID = uuid_nil then answer forbidden ws
               else if \<not> requestAgreesOnShelter uparse r shelterID then answer forbidden ws
               else (case scope shelterID (serve_in_tx next r) ws of
                       (Panic, ws') \<Rightarrow> (Panicked, ws')
                     | (Return None, ws') \<Rightarrow> (Served, ws')
                     | (Return (Some _), ws') \<Rightarrow> answer (http_error ''internal error'' 500) ws')))"

section \<open>Facts\<close>

lemma supplied_agree_iff:
  "supplied_agree uparse u raws \<longleftrightarrow> (\<forall>raw \<in> set raws. raw = [] \<or> uparse raw = Some u)"
  by (induction raws) (auto split: option.splits)

lemma agrees_iff: "requestAgreesOnShelter uparse r u \<longleftrightarrow>
    (\<forall>raw \<in> {URLParam r ''shelterID'', query_get (RawQuery r) ''shelter_id'',
        header_get (req_header r) ''X-Shelter-ID''}. raw = [] \<or> uparse raw = Some u)"
  by (simp add: requestAgreesOnShelter_def supplied_agree_iff ShelterIDPathParam_def shelterIDQueryParam_def
      shelterIDHeader_def)

text \<open>The shelter a request may act for: the one its claims name, if nothing contradicts it.\<close>

definition shelter_of :: "(string \<Rightarrow> uuid option) \<Rightarrow> request \<Rightarrow> uuid option" where
  "shelter_of uparse r = Option.bind (ctx_claims r) (\<lambda>claims.
     Option.bind (ShelterID claims) (\<lambda>u.
       if u \<noteq> uuid_nil \<and> requestAgreesOnShelter uparse r u then Some u else None))"

definition tenant_refusal :: "request \<Rightarrow> reply \<Rightarrow> reply" where
  "tenant_refusal r = (if ctx_claims r = None then http_error ''server misconfigured'' 500 else forbidden)"

definition after_scope :: "'e call \<times> reply \<times> 'w \<Rightarrow> ending \<times> reply \<times> 'w" where
  "after_scope x = (case x of
       (Panic, ws) \<Rightarrow> (Panicked, ws)
     | (Return None, ws) \<Rightarrow> (Served, ws)
     | (Return (Some _), ws) \<Rightarrow> answer (http_error ''internal error'' 500) ws)"

lemma RequireTenant_eq: "RequireTenant uparse scope next r ws =
    (case shelter_of uparse r of
       None \<Rightarrow> answer (tenant_refusal r) ws
     | Some u \<Rightarrow> after_scope (scope u (serve_in_tx next r) ws))"
  by (auto simp: RequireTenant_def shelter_of_def tenant_refusal_def after_scope_def ClaimsFromContext_def
      split: option.splits)

lemma shelter_of_Some: "shelter_of uparse r = Some u \<longleftrightarrow>
    (\<exists>claims. ctx_claims r = Some claims \<and> ShelterID claims = Some u) \<and> u \<noteq> uuid_nil \<and> requestAgreesOnShelter uparse r u"
  by (auto simp: shelter_of_def bind_eq_Some_conv)

lemma bearerToken_Some: "bearerToken h = Some cred \<longleftrightarrow>
    (\<exists>scheme. h = scheme @ CHR '' '' # cred \<and> CHR '' '' \<notin> set scheme \<and> equal_fold scheme ''Bearer'') \<and> cred \<noteq> []"
proof (cases "\<exists>a b. h = a @ CHR '' '' # b \<and> CHR '' '' \<notin> set a")
  case True
  then obtain a b where h: "h = a @ CHR '' '' # b" "CHR '' '' \<notin> set a" by blast
  have one: "h = s @ CHR '' '' # t \<and> CHR '' '' \<notin> set s \<longleftrightarrow> s = a \<and> t = b" for s t
    using h cut_on_found [of "CHR '' ''" h a b] cut_on_found [of "CHR '' ''" h s t] by auto
  have "cut_on CHR '' '' h = (a, b, True)" using h by (simp add: cut_on_found)
  then have "bearerToken h = Some cred \<longleftrightarrow> equal_fold a ''Bearer'' \<and> b \<noteq> [] \<and> b = cred"
    by (auto simp: bearerToken_def)
  then show ?thesis using one by blast
next
  case False
  obtain a b f where c: "cut_on CHR '' '' h = (a, b, f)" by (metis prod_cases3)
  with False have "\<not> f" using cut_on_found [of "CHR '' ''" h a b] by auto
  with c False show ?thesis by (auto simp: bearerToken_def)
qed

lemma forbidden_status: "sent w = None \<Longrightarrow> status (forbidden w) = 403"
  by (simp add: forbidden_def)

lemma unauthorized_status: "sent w = None \<Longrightarrow> status (unauthorized w) = 401"
  by (simp add: unauthorized_def set_header_def)

end
