(* ===== verification/MiddlewareProps.thy ===== *)
theory MiddlewareProps imports Middleware PgConn
begin

text \<open>
  What the tenant boundary guarantees: the scope comes from the verified claim and nothing else,
  a refused request never reaches the scope opener, and the whole stack on the connection model
  stores a request's work under its own tenant or not at all.
\<close>

interpretation pgr: tx_driver "paired (pg_driver :: ('d, 'z) pgconn_scheme beginner)"
  "\<lambda>x. pg_idle (snd x)" "\<lambda>x. pg_open (snd x)" "\<lambda>x. data (snd x)" "\<lambda>x. pg_pending (snd x)"
  "\<lambda>x. current_setting (snd x)" "\<lambda>x. session_setting (snd x)"
  by (rule pg.paired_driver)


section \<open>The stack on the connection model\<close>

definition tenant_stack ::
  "(uuid \<Rightarrow> string) \<Rightarrow> (string \<Rightarrow> uuid option) \<Rightarrow> (parser_options \<Rightarrow> bytes \<Rightarrow> string \<Rightarrow> access_token_claims option)
   \<Rightarrow> token_issuer \<Rightarrow> time \<Rightarrow> ('d, 'z) pgconn_scheme handler \<Rightarrow> ('d, 'z) pgconn_scheme handler" where
  "tenant_stack str uparse parse i now next =
     RequireAuth uparse parse i now (RequireTenant uparse (WithTenant str (paired pg_driver)) next)"

text \<open>A handler works in the transaction it is given: it does not end it.\<close>

definition confined_handler :: "('d, 'z) pgconn_scheme handler \<Rightarrow> bool" where
  "confined_handler next \<longleftrightarrow> (\<forall>r. pgr.confined (serve_in_tx next r))"

lemma after_scope_state: "after_scope (e, w, c) = (res, w', c') \<Longrightarrow> c' = c"
  by (auto simp: after_scope_def split: call.splits option.splits)

lemma tenant_scope_run:
  assumes "pgr.confined fn" and "pg_idle c" and "str u \<noteq> []"
    and "WithTenant str (paired pg_driver) u fn (w, c) = (e, w', c')"
  shows "pg_idle c' \<and> session_setting c' = session_setting c \<and> (data c' = data c
    \<or> (\<exists>w1 c1. pg_pending c1 = data c \<and> current_setting c1 = (session_setting c)(''app.shelter_id'' \<mapsto> str u)
        \<and> fst (fn (w1, c1)) = Return None \<and> data c' = pg_pending (snd (snd (fn (w1, c1))))))"
proof -
  have "pg_idle c' \<and> session_setting c' = session_setting c \<and>
    (data c' = data c \<and> refused e \<or> (\<exists>x. pg_open (snd x) \<and> pg_pending (snd x) = data c \<and> data (snd x) = data c
      \<and> current_setting (snd x) = (session_setting c)(''app.shelter_id'' := Some (str u))
      \<and> commit_or_nothing (\<lambda>x. data (snd x)) (\<lambda>x. pg_pending (snd x)) fn (w, c) x e (w', c')))"
    using pgr.with_scope_contract [where str = str and w = "(w, c)" and w' = "(w', c')", OF assms(1) _ assms(3),
        of ErrNoTenant "''app.shelter_id''" e] assms(2,4)
    by (simp add: WithTenant_scope setScopeSQL_def refused_def)
  moreover have "data c' = data c \<or> fst (fn x) = Return None \<and> data c' = pg_pending (snd (snd (fn x)))"
    if "commit_or_nothing (\<lambda>x. data (snd x)) (\<lambda>x. pg_pending (snd x)) fn (w, c) x e (w', c')" for x
    using that by (auto simp: commit_or_nothing_def split: call.splits option.splits tx_error.splits)
  ultimately show ?thesis by (metis prod.collapse)
qed

text \<open>C29: Whatever a request contains, its handler's work is stored only if the bearer token verified, and
  then was done in one transaction under the shelter that token names, on the data as it was;
  otherwise nothing is stored. Either way the connection goes back idle with no scope left on it.\<close>

theorem request_confined_to_its_tenant:
  assumes "confined_handler next" and "pg_idle c" and "\<And>u. str u \<noteq> []"
    and "tenant_stack str uparse parse i now next r (w, c) = (res, w', c')"
  shows "pg_idle c' \<and> session_setting c' = session_setting c \<and> (data c' = data c
    \<or> (\<exists>raw claims u w1 c1. bearerToken (header_get (req_header r) ''Authorization'') = Some raw
        \<and> Verify uparse parse i raw now = Inr claims \<and> ShelterID claims = Some u
        \<and> pg_pending c1 = data c \<and> current_setting c1 = (session_setting c)(''app.shelter_id'' \<mapsto> str u)
        \<and> data c' = pg_pending (snd (snd (next (r\<lparr>ctx_claims := Some claims, ctx_tx := True\<rparr>) (w1, c1))))))"
proof -
  let ?h = "bearerToken (header_get (req_header r) ''Authorization'')"
  show ?thesis
  proof (cases "\<exists>raw claims u. ?h = Some raw \<and> Verify uparse parse i raw now = Inr claims
      \<and> shelter_of uparse (r\<lparr>ctx_claims := Some claims\<rparr>) = Some u")
    case False
    then have "c' = c" using assms(4)
      by (auto simp: tenant_stack_def RequireAuth_def RequireTenant_eq split: option.splits sum.splits)
    with assms(2) show ?thesis by simp
  next
    case True
    then obtain raw claims u where h: "?h = Some raw" "Verify uparse parse i raw now = Inr claims"
      and u: "shelter_of uparse (r\<lparr>ctx_claims := Some claims\<rparr>) = Some u" by blast
    let ?r = "r\<lparr>ctx_claims := Some claims\<rparr>"
    obtain e w2 c2 where run: "WithTenant str (paired pg_driver) u (serve_in_tx next ?r) (w, c) = (e, w2, c2)"
      by (metis prod_cases3)
    with assms(4) h u have "after_scope (e, w2, c2) = (res, w', c')"
      by (simp add: tenant_stack_def RequireAuth_def RequireTenant_eq)
    then have c2: "c2 = c'" by (auto dest: after_scope_state)
    have work: "snd (serve_in_tx next ?r x) = snd (next (?r\<lparr>ctx_tx := True\<rparr>) x)" for x
      by (simp add: serve_in_tx_def split: prod.splits ending.splits)
    from u have "ShelterID claims = Some u" by (simp add: shelter_of_Some)
    with h tenant_scope_run [OF _ assms(2,3) run] assms(1) c2 work show ?thesis
      unfolding confined_handler_def by auto
  qed
qed

section \<open>A valid request is served\<close>

lemma paired_healthy:
  assumes "faults c = []" and "u \<noteq> uuid_nil"
  shows "\<exists>c1. scoped_start ''app.shelter_id'' (str u) c c1 \<and> faults c1 = []
    \<and> WithTenant str (paired pg_driver) u fn (w, c)
      = deferred_rollback (paired pg_driver) (run_and_commit (paired pg_driver) fn (w, c1))"
  by (rule exI [of _ "c\<lparr>work := Some (data c), ro := False, aborted := False,
      staged_guc := (\<lambda>_. None), xact_locks := [], local_guc := [''app.shelter_id'' \<mapsto> str u]\<rparr>"])
    (use assms in \<open>simp add: WithTenant_def paired_def beside_def pg_driver_def pg_begin_def pg_exec_config_def
       setScopeSQL_def take_fault_def scoped_start_def\<close>)

lemma paired_commit:
  assumes "fn (w, c1) = (Return None, w2, c2)" and "work c2 = Some db" and "\<not> aborted c2" and "faults c2 = []"
  shows "\<exists>c'. deferred_rollback (paired pg_driver) (run_and_commit (paired pg_driver) fn (w, c1))
    = (Return None, w2, c') \<and> data c' = db \<and> pg_idle c'"
  using assms by (simp add: deferred_rollback_def run_and_commit_def paired_def beside_def pg_driver_def
      pg_commit_def take_fault_def pg_idle_def)

text \<open>C30: A token the issuer minted for a shelter, presented inside its fifteen minutes with nothing in the
  request contradicting it, lets its bearer in: on a healthy database the handler runs once, with
  those claims, under that shelter and no other new setting, and its work is committed.\<close>

theorem issued_token_is_served:
  assumes "jwt_lib sign parse" and lib: "uuid_lib str uparse fb" and "plain_token i claims minted"
    and "Issue str sign i claims minted = Inr raw" and "raw \<noteq> []"
    and win: "Unix minted * 1000000000 \<le> now" "now < (Unix minted + 900) * 1000000000"
    and u: "ShelterID claims = Some u" "u \<noteq> uuid_nil" "requestAgreesOnShelter uparse r u"
    and auth: "header_get (req_header r) ''Authorization'' = ''Bearer '' @ raw"
    and c: "pg_idle c" "faults c = []"
    and handler: "\<And>c1. scoped_start ''app.shelter_id'' (str u) c c1 \<Longrightarrow> faults c1 = []
      \<Longrightarrow> \<exists>c2. next (r\<lparr>ctx_claims := Some claims, ctx_tx := True\<rparr>) (w, c1) = (Served, w2, c2)
        \<and> work c2 = Some db \<and> \<not> aborted c2 \<and> faults c2 = []"
  shows "\<exists>c'. tenant_stack str uparse parse i now next r (w, c) = (Served, w2, c') \<and> data c' = db \<and> pg_idle c'"
proof -
  let ?r = "r\<lparr>ctx_claims := Some claims\<rparr>"
  have v: "Verify uparse parse i raw now = Inr claims"
    using verify_issued [OF assms(1-4) refl, of now] win by (simp add: window_bounds(1))
  have b: "bearerToken (header_get (req_header r) ''Authorization'') = Some raw"
    unfolding bearerToken_Some auth using assms(5)
    by (intro conjI exI [of _ "''Bearer''"]) (simp_all add: equal_fold_def)
  have "requestAgreesOnShelter uparse ?r u" using u(3) by (simp add: requestAgreesOnShelter_def)
  then have s: "shelter_of uparse ?r = Some u" using u by (simp add: shelter_of_Some)
  obtain c1 where c1: "scoped_start ''app.shelter_id'' (str u) c c1" "faults c1 = []"
    and run: "WithTenant str (paired pg_driver) u (serve_in_tx next ?r) (w, c)
      = deferred_rollback (paired pg_driver) (run_and_commit (paired pg_driver) (serve_in_tx next ?r) (w, c1))"
    using paired_healthy [where str = str and fn = "serve_in_tx next ?r" and w = w, OF c(2) u(2)] by blast
  from handler [OF c1]
  obtain c2 where c2: "next (?r\<lparr>ctx_tx := True\<rparr>) (w, c1) = (Served, w2, c2)" "work c2 = Some db" "\<not> aborted c2" "faults c2 = []"
    by blast
  then have "serve_in_tx next ?r (w, c1) = (Return None, w2, c2)" by (simp add: serve_in_tx_def)
  from paired_commit [of "serve_in_tx next ?r", OF this c2(2-4)] obtain c'
    where "WithTenant str (paired pg_driver) u (serve_in_tx next ?r) (w, c) = (Return None, w2, c')"
      and c': "data c' = db" "pg_idle c'" unfolding run by blast
  then have "tenant_stack str uparse parse i now next r (w, c) = (Served, w2, c')"
    by (simp add: tenant_stack_def RequireAuth_def b v RequireTenant_eq s after_scope_def)
  with c' show ?thesis by blast
qed

section \<open>What the client is told when the commit fails\<close>


section \<open>Worked examples\<close>

text \<open>A handler that adds one to the counter it finds and answers 201.\<close>

definition count_up :: "nat pgconn handler" where
  "count_up r ws = (Served, WriteHeader 201 (fst ws), (snd ws)\<lparr>work := map_option Suc (work (snd ws))\<rparr>)"

definition sample_request :: request where
  "sample_request = \<lparr>req_method = ''POST'', RemoteAddr = ''10.0.0.1:99'', URLPath = ''/'', RawQuery = [],
     req_header = (\<lambda>_. [])(''Authorization'' := [''Bearer '' @ sample_raw]), URLParam = (\<lambda>_. []),
     ctx_claims = None, ctx_tx = False, ctx_ip = None\<rparr>"

lemma count_up_confined: "confined_handler count_up"
  unfolding confined_handler_def pgr.confined_def
  by (auto simp: serve_in_tx_def count_up_def pg_open_def intro: session_setting_cong)

lemma sample_auth: "header_get (req_header sample_request) ''Authorization'' = ''Bearer '' @ sample_raw"
  by (simp add: sample_request_def header_get_def header_values_def canonical_key_def token_char_def
      is_digit_def nat_of_byte_def ascii_upper_def ascii_lower_def byte_of_def Let_def)

lemma other_headers [simp]: "header_get (req_header sample_request) ''X-Shelter-ID'' = []"
  by (simp add: sample_request_def header_get_def header_values_def canonical_key_def token_char_def
      is_digit_def nat_of_byte_def ascii_upper_def ascii_lower_def byte_of_def Let_def)

lemma sample_agrees: "requestAgreesOnShelter uuid_of_text sample_request 3"
  by (simp add: agrees_iff) (simp add: sample_request_def query_get_def query_pair_def List.map_filter_def)

lemma sample_raw_nonempty: "sample_raw \<noteq> []"
  by (simp add: sample_raw_def compact_sign_def accessTokenAlgorithm_def Let_def)


theorem issued_token_is_served_witness:
  "\<exists>c'. tenant_stack uuid_text uuid_of_text (compact_parse toy_mac) sample_issuer 2000000000 count_up sample_request
    (fresh_reply, idle_conn 4 0 []) = (Served, WriteHeader 201 fresh_reply, c') \<and> data c' = 5 \<and> pg_idle c'"
  by (rule issued_token_is_served [where u = 3, OF compact.jwt_lib_axioms canonical.uuid_lib_axioms sample_plain sample_issued
        sample_raw_nonempty _ _ _ _ sample_agrees sample_auth])
    (auto simp: Unix_def sample_claims_def uuid_nil_def count_up_def scoped_start_def idle_conn_def pg_idle_def)

theorem request_confined_to_its_tenant_witness:
  "pg_idle (snd (snd (tenant_stack uuid_text uuid_of_text (compact_parse toy_mac) sample_issuer 2000000000 count_up
    sample_request (fresh_reply, idle_conn 4 0 [NoFault, NoFault, LoseAck]))))"
  using request_confined_to_its_tenant [where str = uuid_text and uparse = uuid_of_text and parse = "compact_parse toy_mac"
      and i = sample_issuer and now = 2000000000 and r = sample_request and w = fresh_reply
      and c = "idle_conn 4 0 [NoFault, NoFault, LoseAck]", OF count_up_confined _ canonical.str_nonempty]
  by (metis (no_types, lifting) idle_conn_def pg_idle_def pgconn.select_convs(2) prod.collapse)


end
