(* ===== verification/UrlParse.thy ===== *)
theory UrlParse imports NetIp
begin

text \<open>
  \<^verbatim>\<open>net/url.Parse\<close> as far as \<^verbatim>\<open>validOrigin\<close> reads its result: scheme, authority with user info
  and host, path, query and fragment, with the library's own checks on each.
\<close>

record url =
  uScheme :: string
  uOpaque :: string
  uUser :: bool
  uHost :: string
  uPath :: string
  uRawQuery :: string
  uFragment :: string

datatype escape_mode = encodeHost | encodeZone | encodePath | encodeFragment | encodeUserPassword

section \<open>Unescaping\<close>

definition alnum :: "char \<Rightarrow> bool" where
  "alnum c \<longleftrightarrow> is_digit c \<or> (let n = nat_of_byte c in 65 \<le> n \<and> n \<le> 90 \<or> 97 \<le> n \<and> n \<le> 122)"

text \<open>The bytes below 128 that may stand in a host as they are.\<close>

definition host_char :: "char \<Rightarrow> bool" where
  "host_char c \<longleftrightarrow> alnum c \<or> c \<in> set ''!$&()*+,;=:[]<>-_.~'' \<or> c = CHR 0x27 \<or> c = CHR 0x22"

fun url_unescape :: "escape_mode \<Rightarrow> string \<Rightarrow> string option" where
  "url_unescape m [] = Some []"
| "url_unescape m (c # s) =
     (if c = CHR ''%'' then
        (case s of
           a # b # r \<Rightarrow>
             (case (lower_hex_value a, lower_hex_value b) of
                (Some hi, Some lo) \<Rightarrow>
                  if m = encodeHost \<and> hi < 8 \<and> [a, b] \<noteq> ''25'' then None
                  else if m = encodeZone \<and> [a, b] \<noteq> ''25'' \<and> byte_of (hi * 16 + lo) \<noteq> CHR '' ''
                    \<and> \<not> host_char (byte_of (hi * 16 + lo)) then None
                  else map_option (Cons (byte_of (hi * 16 + lo))) (url_unescape m r)
              | _ \<Rightarrow> None)
         | _ \<Rightarrow> None)
      else if (m = encodeHost \<or> m = encodeZone) \<and> nat_of_byte c < 128 \<and> \<not> host_char c then None
      else map_option (Cons c) (url_unescape m s))"

section \<open>The parts\<close>

definition scheme_char :: "char \<Rightarrow> bool" where
  "scheme_char c \<longleftrightarrow> alnum c \<or> c \<in> set ''+-.''"

definition is_letter :: "char \<Rightarrow> bool" where
  "is_letter c \<longleftrightarrow> alnum c \<and> \<not> is_digit c"

text \<open>\<^verbatim>\<open>getScheme\<close>: everything before the first colon, if it has the form of a scheme; an empty one
  is an error.\<close>

definition getScheme :: "string \<Rightarrow> (string \<times> string) option" where
  "getScheme s =
     (let front = takeWhile scheme_char s; rest = dropWhile scheme_char s in
      if front \<noteq> [] \<and> \<not> is_letter (hd front) then Some ([], s)
      else if rest \<noteq> [] \<and> hd rest = CHR '':'' then
        (if front = [] then None else Some (front, tl rest))
      else Some ([], s))"

definition validOptionalPort :: "string \<Rightarrow> bool" where
  "validOptionalPort p \<longleftrightarrow> p = [] \<or> hd p = CHR '':'' \<and> list_all is_digit (tl p)"

text \<open>Split at the first occurrence of a string, which begins the second half.\<close>

fun split_before :: "string \<Rightarrow> string \<Rightarrow> (string \<times> string) option" where
  "split_before pat s =
     (if strip_prefix pat s \<noteq> None then Some ([], s)
      else (case s of [] \<Rightarrow> None
            | c # r \<Rightarrow> map_option (\<lambda>(a, b). (c # a, b)) (split_before pat r)))"

definition ip_literal :: "string \<Rightarrow> string option" where
  "ip_literal hostname =
     (case (case split_before ''%25'' hostname of
              None \<Rightarrow> url_unescape encodeHost hostname
            | Some (h, z) \<Rightarrow>
                Option.bind (url_unescape encodeHost h) (\<lambda>h'. map_option ((@) h') (url_unescape encodeZone z))) of
        None \<Rightarrow> None
      | Some h \<Rightarrow> (case ParseAddr h of Some (IP6 _ _) \<Rightarrow> Some h | _ \<Rightarrow> None))"

definition parseHost :: "string \<Rightarrow> string option" where
  "parseHost host =
     (if CHR ''['' \<in> set host then
        (if hd host \<noteq> CHR ''['' \<or> CHR ''['' \<in> set (tl host) then None
         else (case cut_last CHR '']'' host of
                 None \<Rightarrow> None
               | Some (inside, port) \<Rightarrow>
                   if \<not> validOptionalPort port then None
                   else map_option (\<lambda>h. ''['' @ h @ '']'' @ port) (ip_literal (tl inside))))
      else (case cut_on CHR '':'' host of (name, port, found) \<Rightarrow>
              if found \<and> \<not> list_all is_digit port then None else url_unescape encodeHost host))"

definition user_char :: "char \<Rightarrow> bool" where
  "user_char c \<longleftrightarrow> alnum c \<or> c \<in> set ''-._:~!$&()*+,;=%@'' \<or> c = CHR 0x27"

text \<open>\<^verbatim>\<open>parseAuthority\<close>: whether there is user info, and the host.\<close>

definition parseAuthority :: "string \<Rightarrow> (bool \<times> string) option" where
  "parseAuthority authority =
     (case cut_last CHR ''@'' authority of
        None \<Rightarrow> map_option (Pair False) (parseHost authority)
      | Some (userinfo, host) \<Rightarrow>
          (case parseHost host of
             None \<Rightarrow> None
           | Some h \<Rightarrow>
               if \<not> list_all user_char userinfo then None
               else (case cut_on CHR '':'' userinfo of (name, password, _) \<Rightarrow>
                 if url_unescape encodeUserPassword name = None \<or> url_unescape encodeUserPassword password = None
                 then None else Some (True, h))))"

text \<open>The part before the fragment. A query of a lone question mark is empty.\<close>

definition cut_query :: "string \<Rightarrow> string \<times> string" where
  "cut_query s = (case cut_on CHR ''?'' s of (a, q, _) \<Rightarrow> (a, q))"

definition parse_url :: "string \<Rightarrow> url option" where
  "parse_url raw =
     (if list_ex (\<lambda>c. nat_of_byte c < 32 \<or> nat_of_byte c = 127) raw then None
      else if raw = ''*'' then
        Some \<lparr>uScheme = [], uOpaque = [], uUser = False, uHost = [], uPath = ''*'', uRawQuery = [], uFragment = []\<rparr>
      else (case getScheme raw of
          None \<Rightarrow> None
        | Some (scheme, after) \<Rightarrow>
            let scheme = map ascii_lower scheme; (rest, query) = cut_query after;
                u = \<lparr>uScheme = scheme, uOpaque = [], uUser = False, uHost = [], uPath = [], uRawQuery = query,
                     uFragment = []\<rparr> in
            if take 1 rest \<noteq> ''/'' \<and> scheme \<noteq> [] then Some (u\<lparr>uOpaque := rest\<rparr>)
            else if take 1 rest \<noteq> ''/'' \<and> CHR '':'' \<in> set (takeWhile (\<lambda>c. c \<noteq> CHR ''/'') rest) then None
            else if (scheme \<noteq> [] \<or> take 3 rest \<noteq> ''///'') \<and> take 2 rest = ''//'' then
              (let authority = takeWhile (\<lambda>c. c \<noteq> CHR ''/'') (drop 2 rest);
                   path = dropWhile (\<lambda>c. c \<noteq> CHR ''/'') (drop 2 rest) in
               case (parseAuthority authority, url_unescape encodePath path) of
                 (Some (user, host), Some p) \<Rightarrow> Some (u\<lparr>uUser := user, uHost := host, uPath := p\<rparr>)
               | _ \<Rightarrow> None)
            else map_option (\<lambda>p. u\<lparr>uPath := p\<rparr>) (url_unescape encodePath rest)))"

definition url_Parse :: "string \<Rightarrow> url option" where
  "url_Parse raw =
     (case cut_on CHR ''#'' raw of (front, frag, _) \<Rightarrow>
        (case (parse_url front, url_unescape encodeFragment frag) of
           (Some u, Some f) \<Rightarrow> Some (u\<lparr>uFragment := f\<rparr>)
         | _ \<Rightarrow> None))"

section \<open>Facts\<close>

lemma cut_on_parts: "cut_on c s = (a, b, f) \<Longrightarrow> c \<notin> set a \<and> s = a @ (if f then c # b else []) \<and> (\<not> f \<longrightarrow> b = [])"
proof (induction c s arbitrary: a rule: cut_on.induct)
  case (2 c x s)
  then show ?case by (cases "cut_on c s") (auto split: if_splits prod.splits)
qed simp

lemma cut_on_build: "c \<notin> set a \<Longrightarrow> cut_on c a = (a, [], False)"
  by (induction a) auto

lemma cut_last_None: "cut_last c s = None \<longleftrightarrow> c \<notin> set s"
  by (simp add: cut_last_def)

lemma url_unescape_Nil: "url_unescape m s = Some [] \<longleftrightarrow> s = []"
  by (cases s) (auto split: list.splits option.splits)

lemma getScheme_Some:
  assumes "getScheme s = Some (scheme, after)" and "scheme \<noteq> []"
  shows "s = scheme @ CHR '':'' # after \<and> list_all scheme_char scheme"
proof -
  let ?front = "takeWhile scheme_char s" and ?rest = "dropWhile scheme_char s"
  from assms have scheme: "scheme = ?front" and "?rest \<noteq> []" "hd ?rest = CHR '':''" "after = tl ?rest"
    by (auto simp: getScheme_def Let_def split: if_splits)
  moreover have "s = f @ CHR '':'' # tl r" if "f @ r = s" "r \<noteq> []" "hd r = CHR '':''" for f r
    using that by (cases r) simp_all
  ultimately have "s = scheme @ CHR '':'' # after" using takeWhile_dropWhile_id by blast
  moreover have "list_all scheme_char scheme"
    using scheme by (auto simp: list_all_iff dest: set_takeWhileD)
  ultimately show ?thesis by blast
qed

lemma parseHost_Nil: "parseHost h = Some [] \<longleftrightarrow> h = []"
proof (cases "CHR ''['' \<in> set h")
  case True
  then have "parseHost h \<noteq> Some []" by (simp add: parseHost_def split: option.splits)
  with True show ?thesis by auto
next
  case False
  obtain a b f where c: "cut_on CHR '':'' h = (a, b, f)" by (metis prod_cases3)
  have "h = [] \<Longrightarrow> \<not> f" using c by auto
  with False c show ?thesis by (auto simp: parseHost_def url_unescape_Nil)
qed

end
