(* ===== verification/Cors.thy ===== *)
theory Cors imports Middleware UrlParse
begin

text \<open>
  Cross-origin requests: the origin allowlist and the CORS middleware of \<^verbatim>\<open>httpapi/cors.go\<close>, and
  the origin check on state-changing requests of \<^verbatim>\<open>httpapi/csrf.go\<close>.
\<close>

section \<open>The allowlist\<close>

definition corsMaxAge :: string where
  "corsMaxAge = ''600''"

definition allowedRequestHeaders :: string where
  "allowedRequestHeaders = ''Authorization, Content-Type''"

definition allowedMethods :: string where
  "allowedMethods = ''GET, HEAD, POST, PUT, PATCH, DELETE, OPTIONS''"

definition secFetchSiteHeader :: string where
  "secFetchSiteHeader = ''Sec-Fetch-Site''"

record origin_allowlist =
  allowed :: "string set"

datatype origin_error = EmptyAllowlist | EmptyOrigin | Wildcard | NullOrigin | NotAUrl string
  | NotHttps string | NoHost string | NotBare string

definition validOrigin :: "string \<Rightarrow> origin_error option" where
  "validOrigin raw =
     (if raw = [] then Some EmptyOrigin
      else if raw = ''*'' then Some Wildcard
      else if raw = ''null'' then Some NullOrigin
      else (case url_Parse raw of
              None \<Rightarrow> Some (NotAUrl raw)
            | Some parsed \<Rightarrow>
                if uScheme parsed \<noteq> ''https'' then Some (NotHttps raw)
                else if uHost parsed = [] then Some (NoHost raw)
                else if uPath parsed \<noteq> [] \<or> uRawQuery parsed \<noteq> [] \<or> uFragment parsed \<noteq> [] \<or> uUser parsed
                then Some (NotBare raw)
                else None))"

fun add_origins :: "string list \<Rightarrow> string set \<Rightarrow> origin_error + string set" where
  "add_origins [] s = Inr s"
| "add_origins (origin # rest) s =
     (case validOrigin origin of Some e \<Rightarrow> Inl e | None \<Rightarrow> add_origins rest (insert origin s))"

definition NewOriginAllowlist :: "string list \<Rightarrow> origin_error + origin_allowlist" where
  "NewOriginAllowlist origins =
     (if length origins = 0 then Inl EmptyAllowlist
      else (case add_origins origins {} of Inl e \<Rightarrow> Inl e | Inr s \<Rightarrow> Inr \<lparr>allowed = s\<rparr>))"

definition Allows :: "origin_allowlist \<Rightarrow> string \<Rightarrow> bool" where
  "Allows a origin \<longleftrightarrow> origin \<in> allowed a"

section \<open>The middlewares\<close>

definition CORS :: "origin_allowlist \<Rightarrow> 'w middleware" where
  "CORS allowlist next r ws =
     (let origin = header_get (req_header r) ''Origin'';
          w = add_header ''Vary'' ''Origin'' (fst ws) in
      if origin = [] then next r (w, snd ws)
      else if \<not> Allows allowlist origin then answer forbidden (w, snd ws)
      else
        let w = set_header ''Access-Control-Allow-Credentials'' ''true''
                  (set_header ''Access-Control-Allow-Origin'' origin w) in
        if req_method r = ''OPTIONS'' \<and> header_get (req_header r) ''Access-Control-Request-Method'' \<noteq> [] then
          answer (\<lambda>w. WriteHeader 204
            (set_header ''Access-Control-Max-Age'' corsMaxAge
              (set_header ''Access-Control-Allow-Headers'' allowedRequestHeaders
                (set_header ''Access-Control-Allow-Methods'' allowedMethods w)))) (w, snd ws)
        else next r (w, snd ws))"

definition isStateChanging :: "string \<Rightarrow> bool" where
  "isStateChanging m \<longleftrightarrow> to_upper m \<notin> {''GET'', ''HEAD'', ''OPTIONS''}"

definition RequireTrustedOrigin :: "origin_allowlist \<Rightarrow> 'w middleware" where
  "RequireTrustedOrigin allowlist next r ws =
     (if \<not> isStateChanging (req_method r) then next r ws
      else
        let origin = header_get (req_header r) ''Origin'' in
        if origin \<noteq> [] then
          (if \<not> Allows allowlist origin then answer forbidden ws else next r ws)
        else if header_get (req_header r) secFetchSiteHeader = ''same-origin'' then next r ws
        else answer forbidden ws)"

section \<open>Facts\<close>

lemma add_origins_Inr: "add_origins os s = Inr t \<longleftrightarrow> (\<forall>x \<in> set os. validOrigin x = None) \<and> t = set os \<union> s"
  by (induction os arbitrary: s) (auto split: option.splits)

lemma NewOriginAllowlist_Inr: "NewOriginAllowlist os = Inr a \<longleftrightarrow>
    os \<noteq> [] \<and> (\<forall>x \<in> set os. validOrigin x = None) \<and> a = \<lparr>allowed = set os\<rparr>"
  by (auto simp: NewOriginAllowlist_def add_origins_Inr split: sum.splits)
    (metis Inl_Inr_False add_origins_Inr)

lemmas key_eval = canonical_key_def token_char_def is_digit_def nat_of_byte_def ascii_upper_def ascii_lower_def
  byte_of_def Let_def

lemma canonical_keys [simp]:
  "canonical_key ''Vary'' = ''Vary''" "canonical_key ''Content-Type'' = ''Content-Type''"
  "canonical_key ''Content-Length'' = ''Content-Length''"
  "canonical_key ''X-Content-Type-Options'' = ''X-Content-Type-Options''"
  "canonical_key ''Access-Control-Allow-Origin'' = ''Access-Control-Allow-Origin''"
  "canonical_key ''Access-Control-Allow-Credentials'' = ''Access-Control-Allow-Credentials''"
  "canonical_key ''Access-Control-Allow-Methods'' = ''Access-Control-Allow-Methods''"
  "canonical_key ''Access-Control-Allow-Headers'' = ''Access-Control-Allow-Headers''"
  "canonical_key ''Access-Control-Max-Age'' = ''Access-Control-Max-Age''"
  by (simp_all add: key_eval)

lemma header_map_simps [simp]:
  "rheader (set_header k v w) = header_set k v (rheader w)" "sent (set_header k v w) = sent w"
  "rheader (add_header k v w) = header_add k v (rheader w)" "sent (add_header k v w) = sent w"
  "rheader (WriteHeader code w) = rheader w"
  by (simp_all add: set_header_def add_header_def WriteHeader_def split: option.splits)

lemma header_values_simps [simp]:
  "header_values (header_set k v h) k' = (if canonical_key k' = canonical_key k then [v] else header_values h k')"
  "header_values (header_add k v h) k' =
     header_values h k' @ (if canonical_key k' = canonical_key k then [v] else [])"
  by (auto simp: header_values_def header_set_def header_add_def)

lemma forbidden_headers [simp]:
  "header_values (rheader (forbidden w)) ''Vary'' = header_values (rheader w) ''Vary''"
  "header_values (rheader (forbidden w)) ''Access-Control-Allow-Origin'' = header_values (rheader w) ''Access-Control-Allow-Origin''"
  by (simp_all add: forbidden_def http_error_def write_body_def Let_def header_values_def header_set_def
      header_del_def WriteHeader_def set_header_def split: option.splits)

lemma options_safe: "isStateChanging m \<Longrightarrow> m \<noteq> ''OPTIONS''"
  by (auto simp: isStateChanging_def ascii_upper_def nat_of_byte_def Let_def)

section \<open>Which requests pass\<close>

definition origin_of :: "request \<Rightarrow> string" where
  "origin_of r = header_get (req_header r) ''Origin''"

text \<open>A request the browser vouches for, or one the allowlist does.\<close>

definition trusted :: "origin_allowlist \<Rightarrow> request \<Rightarrow> bool" where
  "trusted a r \<longleftrightarrow> (if origin_of r = [] then header_get (req_header r) ''Sec-Fetch-Site'' = ''same-origin''
     else Allows a (origin_of r))"

lemma CORS_eq: "CORS a next r (w, s) =
    (let w = add_header ''Vary'' ''Origin'' w;
         g = set_header ''Access-Control-Allow-Credentials'' ''true'' (set_header ''Access-Control-Allow-Origin'' (origin_of r) w) in
     if origin_of r = [] then next r (w, s)
     else if \<not> Allows a (origin_of r) then (Served, forbidden w, s)
     else if req_method r = ''OPTIONS'' \<and> header_get (req_header r) ''Access-Control-Request-Method'' \<noteq> [] then
       (Served, WriteHeader 204
         (set_header ''Access-Control-Max-Age'' corsMaxAge
           (set_header ''Access-Control-Allow-Headers'' allowedRequestHeaders
             (set_header ''Access-Control-Allow-Methods'' allowedMethods g))), s)
     else next r (g, s))"
  by (simp add: CORS_def origin_of_def Let_def)

lemma RequireTrustedOrigin_eq: "RequireTrustedOrigin a next r (w, s) =
    (if isStateChanging (req_method r) \<and> \<not> trusted a r then (Served, forbidden w, s) else next r (w, s))"
  by (simp add: RequireTrustedOrigin_def trusted_def origin_of_def secFetchSiteHeader_def Let_def)

text \<open>C32: A state-changing request reaches the handler behind both middlewares only with an allowlisted
  origin, or with no origin and the browser's word that it is same-origin; any other is answered
  403 without the handler or anything behind it being touched.\<close>

theorem no_untrusted_write:
  assumes "isStateChanging (req_method r)" and "sent w = None"
  shows "if (if origin_of r = [] then header_get (req_header r) ''Sec-Fetch-Site'' = ''same-origin'' else Allows a (origin_of r))
    then \<exists>w1. \<forall>next. CORS a (RequireTrustedOrigin a next) r (w, s) = next r (w1, s)
    else \<exists>w1. status w1 = 403 \<and> (\<forall>next. CORS a (RequireTrustedOrigin a next) r (w, s) = (Served, w1, s))"
proof (cases "trusted a r")
  case True
  then have "\<exists>w1. \<forall>next. CORS a (RequireTrustedOrigin a next) r (w, s) = next r (w1, s)"
    using options_safe [OF assms(1)] unfolding CORS_eq RequireTrustedOrigin_eq
    by (cases "origin_of r = []") (auto simp: trusted_def Let_def)
  with True show ?thesis by (simp add: trusted_def)
next
  case False
  then have "\<forall>next. CORS a (RequireTrustedOrigin a next) r (w, s) = (Served, forbidden (add_header ''Vary'' ''Origin'' w), s)"
    using assms(1) by (auto simp: CORS_eq RequireTrustedOrigin_eq trusted_def Let_def)
  moreover have "status (forbidden (add_header ''Vary'' ''Origin'' w)) = 403" using assms(2) by (simp add: forbidden_status)
  ultimately show ?thesis using False unfolding trusted_def by (auto split: if_splits)
qed

text \<open>Whatever the request, the reply that leaves CORS or that the handler goes on writing carries
  \<^verbatim>\<open>Vary: Origin\<close>, and it grants access to the request's origin exactly if that origin is on the
  allowlist; a preflight of such an origin is answered 204 and an origin off the list 403, both
  without the handler.\<close>

theorem cors_grants_exactly_the_allowlist:
  assumes "sent w = None" and "header_values (rheader w) ''Access-Control-Allow-Origin'' = []"
  shows "\<exists>w1. ''Origin'' \<in> set (header_values (rheader w1) ''Vary'')
    \<and> header_values (rheader w1) ''Access-Control-Allow-Origin''
        = (if origin_of r \<noteq> [] \<and> Allows a (origin_of r) then [origin_of r] else [])
    \<and> (if origin_of r = [] \<or> (Allows a (origin_of r)
          \<and> (req_method r \<noteq> ''OPTIONS'' \<or> header_get (req_header r) ''Access-Control-Request-Method'' = []))
       then \<forall>next. CORS a next r (w, s) = next r (w1, s)
       else status w1 = (if Allows a (origin_of r) then 204 else 403)
          \<and> (\<forall>next. CORS a next r (w, s) = (Served, w1, s)))"
proof (cases "origin_of r = [] \<or> \<not> Allows a (origin_of r)")
  case True
  then show ?thesis unfolding CORS_eq using assms
    by (intro exI [of _ "(if origin_of r = [] then id else forbidden) (add_header ''Vary'' ''Origin'' w)"])
      (auto simp: Let_def forbidden_status)
next
  case False
  let ?g = "set_header ''Access-Control-Allow-Credentials'' ''true'' (set_header ''Access-Control-Allow-Origin'' (origin_of r)
    (add_header ''Vary'' ''Origin'' w))"
  show ?thesis
  proof (cases "req_method r = ''OPTIONS'' \<and> header_get (req_header r) ''Access-Control-Request-Method'' \<noteq> []")
    case True
    with False assms show ?thesis unfolding CORS_eq
      by (intro exI [of _ "WriteHeader 204 (set_header ''Access-Control-Max-Age'' corsMaxAge
           (set_header ''Access-Control-Allow-Headers'' allowedRequestHeaders
             (set_header ''Access-Control-Allow-Methods'' allowedMethods ?g)))"])
        (simp add: Let_def status_def WriteHeader_def)
  next
    case no: False
    with False assms show ?thesis unfolding CORS_eq by (intro exI [of _ ?g]) (auto simp: Let_def)
  qed
qed

end
