(* ===== verification/Origins.thy ===== *)
theory Origins imports Cors
begin

text \<open>
  Which configured origins \<^verbatim>\<open>validOrigin\<close> lets through, and what an allowlist built from them
  answers.
\<close>

section \<open>The shape of an accepted origin\<close>

definition bare_host :: "string \<Rightarrow> bool" where
  "bare_host h \<longleftrightarrow> h \<noteq> [] \<and> parseHost h \<noteq> None
     \<and> list_all (\<lambda>c. c \<notin> set ''/?#@'' \<and> 32 \<le> nat_of_byte c \<and> nat_of_byte c \<noteq> 127) h"

lemma https_letters:
  assumes "map ascii_lower s = ''https''"
  shows "list_all scheme_char s" and "s \<noteq> []" and "is_letter (hd s)" and "CHR ''#'' \<notin> set s" and "CHR '':'' \<notin> set s"
    and "list_all (\<lambda>c. 32 \<le> nat_of_byte c \<and> nat_of_byte c \<noteq> 127) s" and "length s = 5"
proof -
  have l: "is_letter c" if "ascii_lower c \<in> set ''https''" for c
    using that by (auto simp: ascii_lower_def is_letter_def alnum_def is_digit_def nat_of_byte_def byte_of_def Let_def
        split: if_splits)
  have all: "is_letter c" if "c \<in> set s" for c using assms that l by (metis image_eqI set_map)
  show "s \<noteq> []" "length s = 5" using assms by (auto dest: arg_cong [where f = length])
  then show "is_letter (hd s)" using all by simp
  show "list_all scheme_char s" using all by (auto simp: list_all_iff scheme_char_def is_letter_def)
  have "\<not> is_letter CHR ''#''" "\<not> is_letter CHR '':''"
    by (simp_all add: is_letter_def alnum_def is_digit_def nat_of_byte_def)
  then show "CHR ''#'' \<notin> set s" "CHR '':'' \<notin> set s" using all by auto
  show "list_all (\<lambda>c. 32 \<le> nat_of_byte c \<and> nat_of_byte c \<noteq> 127) s"
    using all by (fastforce simp: list_all_iff is_letter_def alnum_def is_digit_def Let_def)
qed

lemma getScheme_https:
  assumes "map ascii_lower s = ''https''"
  shows "getScheme (s @ CHR '':'' # r) = Some (s, r)"
proof -
  have c: "\<not> scheme_char CHR '':''" by (simp add: scheme_char_def alnum_def is_digit_def nat_of_byte_def)
  have "takeWhile scheme_char (s @ CHR '':'' # r) = s" "dropWhile scheme_char (s @ CHR '':'' # r) = CHR '':'' # r"
    using https_letters(1) [OF assms] c by (auto simp: list_all_iff)
  then show ?thesis using https_letters(2,3) [OF assms] by (simp add: getScheme_def Let_def)
qed

lemma bare_hostD:
  assumes "bare_host h"
  shows "CHR ''/'' \<notin> set h" "CHR ''?'' \<notin> set h" "CHR ''#'' \<notin> set h" "CHR ''@'' \<notin> set h"
    and "list_all (\<lambda>c. 32 \<le> nat_of_byte c \<and> nat_of_byte c \<noteq> 127) h"
  using assms by (auto simp: bare_host_def list_all_iff)

lemma parse_url_https:
  assumes s: "map ascii_lower s = ''https''" and h: "bare_host h" "parseHost h = Some h'" and t: "t = [] \<or> t = ''?''"
  shows "parse_url (s @ CHR '':'' # CHR ''/'' # CHR ''/'' # h @ t) = Some \<lparr>uScheme = ''https'', uOpaque = [],
    uUser = False, uHost = h', uPath = [], uRawQuery = [], uFragment = []\<rparr>"
proof -
  let ?raw = "s @ CHR '':'' # CHR ''/'' # CHR ''/'' # h @ t"
  have ctl: "\<not> list_ex (\<lambda>c. nat_of_byte c < 32 \<or> nat_of_byte c = 127) ?raw"
    using https_letters(6) [OF s] bare_hostD(5) [OF h(1)] t
    by (auto simp: list_ex_iff list_all_iff nat_of_byte_def)
  have "length ?raw \<noteq> length ''*''" by simp
  then have star: "?raw \<noteq> ''*''" by metis
  have "cut_query (CHR ''/'' # CHR ''/'' # h @ t) = (CHR ''/'' # CHR ''/'' # h, [])"
    using t bare_hostD(2) [OF h(1)] cut_on_found [of "CHR ''?''" "CHR ''/'' # CHR ''/'' # h @ ''?''" "CHR ''/'' # CHR ''/'' # h" "[]"]
    by (auto simp: cut_query_def cut_on_build)
  moreover have parts: "takeWhile (\<lambda>c. c \<noteq> CHR ''/'') h = h" "dropWhile (\<lambda>c. c \<noteq> CHR ''/'') h = []"
    using bare_hostD(1) [OF h(1)] by auto
  moreover have "parseAuthority h = Some (False, h')"
    using h bare_hostD(4) by (simp add: parseAuthority_def cut_last_def)
  ultimately show ?thesis
    unfolding parse_url_def using ctl star by (simp add: getScheme_https [OF s] s parts)
qed

lemma valid_bare:
  assumes s: "map ascii_lower s = ''https''" and h: "bare_host h" and t: "t \<in> {[], ''?'', ''#'', ''?#''}"
  shows "validOrigin (s @ ''://'' @ h @ t) = None"
proof -
  let ?raw = "s @ CHR '':'' # CHR ''/'' # CHR ''/'' # h @ t"
  obtain h' where h': "parseHost h = Some h'" "h' \<noteq> []" using h parseHost_Nil [of h] unfolding bare_host_def by force
  from t have "t = [] @ [] \<or> t = ''?'' @ [] \<or> t = [] @ ''#'' \<or> t = ''?'' @ ''#''" by simp
  then obtain q f where q: "q = [] \<or> q = ''?''" and f: "f = [] \<or> f = ''#''" and qf: "t = q @ f" by blast
  have "CHR ''#'' \<notin> set (s @ CHR '':'' # CHR ''/'' # CHR ''/'' # h @ q)"
    using https_letters(4) [OF s] bare_hostD(3) [OF h] q by auto
  then have "\<exists>b. cut_on CHR ''#'' ?raw = (s @ CHR '':'' # CHR ''/'' # CHR ''/'' # h @ q, [], b)"
    using f cut_on_build cut_on_found [of "CHR ''#''" ?raw "s @ CHR '':'' # CHR ''/'' # CHR ''/'' # h @ q" "[]"]
    unfolding qf by auto
  then have u: "url_Parse ?raw = Some \<lparr>uScheme = ''https'', uOpaque = [], uUser = False, uHost = h', uPath = [],
      uRawQuery = [], uFragment = []\<rparr>"
    using parse_url_https [OF s h h'(1) q] by (auto simp: url_Parse_def)
  have "length ?raw > 5" using https_letters(7) [OF s] by simp
  then have "?raw \<noteq> []" "?raw \<noteq> ''*''" "?raw \<noteq> ''null''" by force+
  with u h'(2) show ?thesis by (simp add: validOrigin_def)
qed

lemma parseAuthority_False:
  assumes "parseAuthority a = Some (False, h)"
  shows "CHR ''@'' \<notin> set a \<and> parseHost a = Some h"
proof (cases "cut_last CHR ''@'' a")
  case None
  with assms show ?thesis by (auto simp: parseAuthority_def cut_last_None)
next
  case (Some x)
  with assms show ?thesis
    by (cases x) (auto simp: parseAuthority_def split: option.splits prod.splits if_splits)
qed

text \<open>What the library returned for an accepted origin, read back into its text.\<close>

lemma accepted_shape:
  assumes "validOrigin raw = None"
  obtains s h t where "raw = s @ ''://'' @ h @ t" "map ascii_lower s = ''https''" "bare_host h"
    "t \<in> {[], ''?'', ''#'', ''?#''}"
proof -
  from assms obtain u where u: "url_Parse raw = Some u" "uScheme u = ''https''" "uHost u \<noteq> []" "uPath u = []"
    "uRawQuery u = []" "uFragment u = []" "\<not> uUser u"
    by (auto simp: validOrigin_def split: if_splits option.splits)
  obtain front frag b where cut: "cut_on CHR ''#'' raw = (front, frag, b)" by (metis prod_cases3)
  with u obtain p f where p: "parse_url front = Some p" "url_unescape encodeFragment frag = Some f" "u = p\<lparr>uFragment := f\<rparr>"
    by (auto simp: url_Parse_def split: option.splits)
  with u have "frag = []" using url_unescape_Nil by fastforce
  then have raw: "raw = front @ (if b then ''#'' else [])" and nohash: "CHR ''#'' \<notin> set front"
    using cut_on_parts [OF cut] by auto
  from p u have pu: "uScheme p = ''https''" "uHost p \<noteq> []" "uPath p = []" "uRawQuery p = []" "\<not> uUser p" by auto
  from p(1) pu(2) obtain scheme after where g: "getScheme front = Some (scheme, after)"
    and ctl: "\<not> list_ex (\<lambda>c. nat_of_byte c < 32 \<or> nat_of_byte c = 127) front"
    by (auto simp: parse_url_def split: if_splits option.splits)
  obtain rest query where q: "cut_query after = (rest, query)" by force
  from p(1) pu g ctl q have scheme: "map ascii_lower scheme = ''https''" and query: "query = []" and slashes: "take 2 rest = ''//''"
    by (auto simp: parse_url_def Let_def split: if_splits option.splits prod.splits)
  let ?a = "takeWhile (\<lambda>c. c \<noteq> CHR ''/'') (drop 2 rest)" and ?p = "dropWhile (\<lambda>c. c \<noteq> CHR ''/'') (drop 2 rest)"
  from p(1) pu g ctl q scheme slashes obtain host where host: "parseAuthority ?a = Some (False, host)" "host \<noteq> []"
    and path: "url_unescape encodePath ?p = Some []"
    by (auto simp: parse_url_def Let_def split: if_splits option.splits prod.splits)
  from path have "?p = []" by (simp only: url_unescape_Nil)
  then have "drop 2 rest = ?a" by (metis append_Nil2 takeWhile_dropWhile_id)
  moreover have "CHR ''/'' \<notin> set ?a" by (auto dest: set_takeWhileD)
  ultimately obtain a where a: "drop 2 rest = a" "CHR ''/'' \<notin> set a" "parseAuthority a = Some (False, host)"
    using host(1) by metis
  have rest: "rest = ''//'' @ a" using append_take_drop_id [of 2 rest] unfolding slashes a(1) by (rule sym)
  obtain f where "cut_on CHR ''?'' after = (rest, query, f)"
    using q by (auto simp: cut_query_def split: prod.splits)
  from cut_on_parts [OF this] query have after: "after = rest @ (if f then ''?'' else [])" and noq: "CHR ''?'' \<notin> set rest"
    by auto
  have front: "front = scheme @ CHR '':'' # after"
    using getScheme_Some [OF g] https_letters(2) [OF scheme] by simp
  note at = conjunct1 [OF parseAuthority_False [OF a(3)]] and ph = conjunct2 [OF parseAuthority_False [OF a(3)]]
  have "a \<noteq> []" using ph host(2) parseHost_Nil [of a] by auto
  moreover have "c \<notin> set ''/?#@'' \<and> 32 \<le> nat_of_byte c \<and> nat_of_byte c \<noteq> 127" if c: "c \<in> set a" for c
  proof -
    have "c \<in> set rest" using c by (simp add: rest)
    moreover from this have "c \<in> set front" by (simp add: front after)
    ultimately show ?thesis using c noq nohash at ctl a(2) by (auto simp: list_ex_iff not_less)
  qed
  ultimately have bare: "bare_host a" using ph by (simp add: bare_host_def list_all_iff)
  have written: "raw = scheme @ ''://'' @ a @ (if f then ''?'' else []) @ (if b then ''#'' else [])"
    by (simp add: raw front after rest)
  have tail: "(if f then ''?'' else []) @ (if b then ''#'' else []) \<in> {[], ''?'', ''#'', ''?#''}" by simp
  show thesis by (rule that [OF written scheme bare tail])
qed

text \<open>C33: A configured origin is accepted exactly if it is an https scheme in any mix of cases, \<^verbatim>\<open>://\<close>, an
  authority with no user info that the library takes for a host, and after it nothing but a lone
  question mark or hash. The entry is kept as written, so of these only the lower-case ones
  without such a tail can equal what a browser sends.\<close>

theorem accepted_origins:
  "validOrigin raw = None \<longleftrightarrow>
    (\<exists>s h t. raw = s @ ''://'' @ h @ t \<and> map ascii_lower s = ''https'' \<and> bare_host h \<and> t \<in> {[], ''?'', ''#'', ''?#''})"
  by (metis accepted_shape valid_bare)

section \<open>Worked examples\<close>

definition web_app :: origin_allowlist where
  "web_app = \<lparr>allowed = {''https://app.test''}\<rparr>"

definition post_from :: "string \<Rightarrow> request" where
  "post_from origin = \<lparr>req_method = ''POST'', RemoteAddr = [], URLPath = ''/'', RawQuery = [],
     req_header = (\<lambda>_. [])(''Origin'' := [origin]), URLParam = (\<lambda>_. []),
     ctx_claims = None, ctx_tx = False, ctx_ip = None\<rparr>"

lemma origin_post_from [simp]: "origin_of (post_from origin) = origin" "req_method (post_from origin) = ''POST''"
  by (simp_all add: origin_of_def post_from_def header_get_def header_values_def key_eval)

lemma post_changes_state: "isStateChanging ''POST''"
  by (simp add: isStateChanging_def key_eval)

theorem no_untrusted_write_witness:
  "\<exists>w1. status w1 = 403 \<and> (\<forall>next. CORS web_app (RequireTrustedOrigin web_app next) (post_from ''https://evil.test'')
    (fresh_reply, ()) = ((Served, w1, ()) :: ending \<times> reply \<times> unit))"
  using no_untrusted_write [of "post_from ''https://evil.test''" fresh_reply web_app "()"] post_changes_state
  by (simp add: Allows_def web_app_def)

theorem cors_grants_exactly_the_allowlist_witness:
  "\<exists>w1. header_values (rheader w1) ''Access-Control-Allow-Origin'' = [''https://app.test'']
    \<and> (\<forall>next. CORS web_app next (post_from ''https://app.test'') (fresh_reply, ())
      = (next (post_from ''https://app.test'') (w1, ()) :: ending \<times> reply \<times> unit))"
  using cors_grants_exactly_the_allowlist [of fresh_reply "post_from ''https://app.test''" web_app "()"]
  by (auto simp: Allows_def web_app_def header_values_def)

lemma upper_case_entry_accepted: "validOrigin ''HTTPS://app.test?'' = None"
proof -
  have "bare_host ''app.test''"
    by (simp add: bare_host_def parseHost_def host_char_def alnum_def is_digit_def nat_of_byte_def)
  moreover have "map ascii_lower ''HTTPS'' = ''https''" by code_simp
  ultimately show ?thesis using valid_bare [of "''HTTPS''" "''app.test''" "''?''"] by simp
qed

end
