(* ===== verification/ClientIP.thy ===== *)
theory ClientIP imports Http
begin

text \<open>
  The client address resolver of \<^verbatim>\<open>httpapi/clientip.go\<close>: the peer of the connection decides
  whether the forwarding header is read at all, and of the header the rightmost entry that is
  not one of the trusted proxies is the client. \<open>None\<close> is the zero address.
\<close>

section \<open>The code\<close>

definition forwardedForHeader :: string where
  "forwardedForHeader = ''X-Forwarded-For''"

record resolver =
  trusted_prefixes :: "prefix list"

definition NewClientIPResolver :: "prefix list \<Rightarrow> resolver" where
  "NewClientIPResolver ps = \<lparr>trusted_prefixes = ps\<rparr>"

definition hostOnly :: "string \<Rightarrow> string" where
  "hostOnly remoteAddr = (case split_host remoteAddr of Some host \<Rightarrow> host | None \<Rightarrow> remoteAddr)"

definition parseClientAddr :: "string \<Rightarrow> addr option" where
  "parseClientAddr raw = map_option (\<lambda>a. Unmap (WithZone [] a)) (ParseAddr (trim_space raw))"

fun chain_entries :: "string list \<Rightarrow> string list" where
  "chain_entries [] = []"
| "chain_entries (entry # rest) =
     (let entry = trim_space entry in
      if entry \<noteq> [] then entry # chain_entries rest else chain_entries rest)"

fun forwardedChain :: "string list \<Rightarrow> string list" where
  "forwardedChain [] = []"
| "forwardedChain (v # values) = chain_entries (split_on CHR '','' v) @ forwardedChain values"

fun any_contains :: "prefix list \<Rightarrow> addr \<Rightarrow> bool" where
  "any_contains [] a = False"
| "any_contains (p # ps) a = (if Contains p a then True else any_contains ps a)"

definition isTrusted :: "resolver \<Rightarrow> addr \<Rightarrow> bool" where
  "isTrusted res a = any_contains (trusted_prefixes res) a"

text \<open>The loop of \<^verbatim>\<open>ClientIP\<close>, with the next index to look at one below the argument.\<close>

fun scan_chain :: "resolver \<Rightarrow> addr \<Rightarrow> string list \<Rightarrow> nat \<Rightarrow> addr" where
  "scan_chain res peer chain 0 = peer"
| "scan_chain res peer chain (Suc i) =
     (case parseClientAddr (chain ! i) of
        None \<Rightarrow> peer
      | Some a \<Rightarrow> if \<not> isTrusted res a then a else scan_chain res peer chain i)"

definition ClientIP :: "resolver \<Rightarrow> request \<Rightarrow> addr option" where
  "ClientIP res r =
     (case parseClientAddr (hostOnly (RemoteAddr r)) of
        None \<Rightarrow> None
      | Some peer \<Rightarrow>
          if \<not> isTrusted res peer then Some peer
          else (let chain = forwardedChain (header_values (req_header r) forwardedForHeader) in
                Some (scan_chain res peer chain (length chain))))"

definition client_ip_middleware :: "resolver \<Rightarrow> 'w middleware" where
  "client_ip_middleware res next r ws =
     (case ClientIP res r of
        Some a \<Rightarrow> next (r\<lparr>ctx_ip := Some a\<rparr>) ws
      | None \<Rightarrow> next r ws)"

definition ClientIPFromContext :: "request \<Rightarrow> addr option" where
  "ClientIPFromContext r = ctx_ip r"

section \<open>Facts\<close>

lemma any_contains_iff: "any_contains ps a \<longleftrightarrow> (\<exists>p \<in> set ps. Contains p a)"
  by (induction ps) auto

lemma chain_entries_append: "chain_entries (xs @ ys) = chain_entries xs @ chain_entries ys"
  by (induction xs) (auto simp: Let_def)

lemma forwardedChain_append: "forwardedChain (xs @ ys) = forwardedChain xs @ forwardedChain ys"
  by (induction xs) auto

lemma strip_prefix_extend: "strip_prefix w s = Some r \<Longrightarrow> strip_prefix w (s @ t) = Some (r @ t)"
  by (simp add: strip_prefix_Some)

lemma drop_one_None_iff: "drop_one ws s = None \<longleftrightarrow> (\<forall>w \<in> set ws. strip_prefix w s = None)"
  by (induction ws) (auto split: option.splits)

lemma drop_one_prefix: "drop_one ws (s @ t) = None \<Longrightarrow> drop_one ws s = None"
  unfolding drop_one_None_iff by (metis not_None_eq strip_prefix_extend)

lemma trim_front_done: "[] \<notin> set ws \<Longrightarrow> drop_one ws (trim_front ws s) = None"
proof (induction ws s rule: trim_front.induct)
  case (1 ws s)
  then show ?case by (cases "drop_one ws s") (simp_all add: trim_front.simps [of ws s])
qed

lemma trim_front_stop: "drop_one ws s = None \<Longrightarrow> trim_front ws s = s"
  by (simp add: trim_front.simps [of ws s])

text \<open>Trimming twice is trimming once.\<close>

lemma trim_space_idem: "trim_space (trim_space s) = trim_space s"
proof -
  have ne: "[] \<notin> set utf8_spaces" "[] \<notin> set (map rev utf8_spaces)" using spaces_nonempty by auto
  obtain q where "rev (trim_left s) = q @ rev (trim_space s)"
    unfolding trim_space_def trim_right_def using trim_front_suffix by (metis rev_rev_ident)
  then have "trim_left s = trim_space s @ rev q" by (metis rev_append rev_rev_ident)
  moreover have "drop_one utf8_spaces (trim_left s) = None"
    unfolding trim_left_def by (rule trim_front_done [OF ne(1)])
  ultimately have "drop_one utf8_spaces (trim_space s) = None" using drop_one_prefix by metis
  then have "trim_left (trim_space s) = trim_space s" by (simp add: trim_left_def trim_front_stop)
  moreover have "drop_one (map rev utf8_spaces) (rev (trim_space s)) = None"
    unfolding trim_space_def trim_right_def rev_rev_ident by (rule trim_front_done [OF ne(2)])
  ultimately show ?thesis
    unfolding trim_space_def [of "trim_space s"] trim_right_def by (simp add: trim_front_stop)
qed

lemma parseClientAddr_trim [simp]: "parseClientAddr (trim_space s) = parseClientAddr s"
  by (simp add: parseClientAddr_def trim_space_idem)

lemma parseClientAddr_blank: "trim_space s = [] \<Longrightarrow> parseClientAddr s = None"
  by (simp add: parseClientAddr_def ParseAddr_def)

lemma parseClientAddr_canonical: "parseClientAddr s = Some a \<Longrightarrow> canonical_addr a"
  by (auto simp: parseClientAddr_def canonical_Unmap)

text \<open>The scan depends only on the entries it reaches, from the right.\<close>

lemma scan_chain_trusted:
  assumes "\<forall>h \<in> set hops. \<exists>a. parseClientAddr h = Some a \<and> isTrusted res a"
  shows "scan_chain res peer (xs @ hops) (length xs + length hops) = scan_chain res peer (xs @ hops) (length xs)"
  using assms
proof (induction hops rule: rev_induct)
  case (snoc h hops)
  have "scan_chain res peer (xs @ hops @ [h]) n = scan_chain res peer (xs @ hops) n" if "n \<le> length xs + length hops" for n
    using that by (induction n) (auto simp: nth_append split: option.splits)
  with snoc show ?case by (auto simp: nth_append)
qed simp

lemma scan_chain_result:
  "n \<le> length chain \<Longrightarrow> scan_chain res peer chain n = peer
   \<or> \<not> isTrusted res (scan_chain res peer chain n)
     \<and> (\<exists>entry \<in> set chain. parseClientAddr entry = Some (scan_chain res peer chain n))"
  by (induction n) (auto split: option.splits)

section \<open>What proxies append\<close>

text \<open>A forwarding hop records the address it observed at the right end: it adds a header line of its
  own, or appends to the last line after a comma.\<close>

fun append_hop :: "string list \<Rightarrow> bool \<times> string \<Rightarrow> string list" where
  "append_hop vs (own_line, h) =
     (if own_line \<or> vs = [] then vs @ [h] else butlast vs @ [last vs @ CHR '','' # h])"

lemma split_on_mid: "split_on c (a @ c # b) = split_on c a @ split_on c b"
proof (induction a)
  case (Cons x a)
  then show ?case using split_on_not_Nil [of c a] by (cases "split_on c a") auto
qed simp

lemma forwardedChain_append_hop:
  assumes "CHR '','' \<notin> set h" and "trim_space h \<noteq> []"
  shows "forwardedChain (append_hop vs (b, h)) = forwardedChain vs @ [trim_space h]"
proof (cases "b \<or> vs = []")
  case True
  with assms show ?thesis by (simp add: forwardedChain_append split_on_plain Let_def)
next
  case False
  then obtain us v where "vs = us @ [v]" by (metis rev_exhaust)
  with False assms show ?thesis
    by (simp add: forwardedChain_append split_on_mid chain_entries_append split_on_plain Let_def)
qed

definition bare_entry :: "string \<Rightarrow> bool" where
  "bare_entry h \<longleftrightarrow> CHR '','' \<notin> set h \<and> trim_space h \<noteq> []"

lemma forwardedChain_hops:
  "list_all (\<lambda>h. bare_entry (snd h)) hs \<Longrightarrow>
   forwardedChain (foldl append_hop vs hs) = forwardedChain vs @ map (\<lambda>h. trim_space (snd h)) hs"
proof (induction hs arbitrary: vs)
  case (Cons h hs)
  then show ?case by (cases h) (simp add: forwardedChain_append_hop bare_entry_def del: append_hop.simps)
qed simp

text \<open>C34: When the connection comes from a trusted proxy, the client is the address the outermost of the
  trusted proxies observed: whatever header lines the client itself sent, and whichever way each
  proxy appended to them, the forged part is never reached.\<close>

theorem forged_entries_are_ignored:
  assumes "parseClientAddr (hostOnly (RemoteAddr r)) = Some peer" and "isTrusted res peer"
    and "header_values (req_header r) forwardedForHeader = foldl append_hop forged ((b, observed) # hops)"
    and "CHR '','' \<notin> set observed" and "parseClientAddr observed = Some client" and "\<not> isTrusted res client"
    and "\<forall>h \<in> set hops. CHR '','' \<notin> set (snd h) \<and> (\<exists>a. parseClientAddr (snd h) = Some a \<and> isTrusted res a)"
  shows "ClientIP res r = Some client"
proof -
  let ?hops = "map (\<lambda>h. trim_space (snd h)) hops" and ?xs = "forwardedChain forged @ [trim_space observed]"
  have "bare_entry h" if "CHR '','' \<notin> set h" "parseClientAddr h = Some a" for h a
    using that parseClientAddr_blank [of h] by (auto simp: bare_entry_def)
  then have "list_all (\<lambda>h. bare_entry (snd h)) ((b, observed) # hops)"
    using assms(4,5,7) by (auto simp: list_all_iff)
  then have chain: "forwardedChain (header_values (req_header r) forwardedForHeader) = ?xs @ ?hops"
    unfolding assms(3) by (simp add: forwardedChain_hops del: foldl_Cons)
  have "\<forall>h \<in> set ?hops. \<exists>a. parseClientAddr h = Some a \<and> isTrusted res a" using assms(7) by auto
  from scan_chain_trusted [OF this, of peer ?xs]
  have "scan_chain res peer (?xs @ ?hops) (length (?xs @ ?hops)) = client"
    using assms(5,6) by (simp add: nth_append)
  with chain assms(1,2) show ?thesis by (simp add: ClientIP_def Let_def del: length_append)
qed

text \<open>The resolved address is the peer of the connection, or an entry of the chain that a trusted peer
  sent; it is never an untrusted peer's word, it never carries a zone or a mapped form, and there
  is none exactly if the peer's own address cannot be read.\<close>

theorem resolved_address_origin:
  "(ClientIP res r = None \<longleftrightarrow> parseClientAddr (hostOnly (RemoteAddr r)) = None)
   \<and> (\<forall>a. ClientIP res r = Some a \<longrightarrow> canonical_addr a \<and> (\<exists>peer. parseClientAddr (hostOnly (RemoteAddr r)) = Some peer
        \<and> (a = peer \<or> isTrusted res peer \<and> \<not> isTrusted res a
            \<and> (\<exists>entry \<in> set (forwardedChain (header_values (req_header r) ''X-Forwarded-For'')). parseClientAddr entry = Some a))))"
proof (cases "parseClientAddr (hostOnly (RemoteAddr r))")
  case None
  then show ?thesis by (simp add: ClientIP_def)
next
  case (Some peer)
  let ?chain = "forwardedChain (header_values (req_header r) forwardedForHeader)"
  have "ClientIP res r = Some (if isTrusted res peer then scan_chain res peer ?chain (length ?chain) else peer)"
    using Some by (simp add: ClientIP_def Let_def)
  moreover have "canonical_addr peer" using Some by (rule parseClientAddr_canonical)
  ultimately show ?thesis
    using Some scan_chain_result [of "length ?chain" ?chain res peer] parseClientAddr_canonical
    by (auto simp: forwardedForHeader_def)
qed

section \<open>Worked examples\<close>

lemmas parse_eval = ParseAddr_def parseIPv4_def parseIPv4Fields_def octet_def is_digit_def nat_of_byte_def
  digit_value_def undigits_def

lemma sample_addrs:
  "ParseAddr ''10.0.0.1'' = Some (IP4 167772161)" "ParseAddr ''10.0.0.9'' = Some (IP4 167772169)"
  "ParseAddr ''203.0.113.100'' = Some (IP4 3405803876)"
  by (simp_all add: parse_eval)

lemma sample_trims:
  "trim_space ''10.0.0.1'' = ''10.0.0.1''" "trim_space '' 10.0.0.9'' = ''10.0.0.9''"
  "trim_space ''203.0.113.100'' = ''203.0.113.100''" "trim_space ''10.0.0.0/8'' = ''10.0.0.0/8''"
  "trim_space ''::ffff:0:0/96'' = ''::ffff:0:0/96''"
  by code_simp+

lemma sample_parsed:
  "parseClientAddr ''10.0.0.1'' = Some (IP4 167772161)" "parseClientAddr '' 10.0.0.9'' = Some (IP4 167772169)"
  "parseClientAddr ''203.0.113.100'' = Some (IP4 3405803876)"
  by (simp_all add: parseClientAddr_def sample_trims sample_addrs)

definition ten_slash_eight :: prefix where
  "ten_slash_eight = \<lparr>paddr = IP4 167772160, pbits = 8\<rparr>"

lemma sample_trusted:
  "isTrusted (NewClientIPResolver [ten_slash_eight]) (IP4 167772161)"
  "isTrusted (NewClientIPResolver [ten_slash_eight]) (IP4 167772169)"
  "\<not> isTrusted (NewClientIPResolver [ten_slash_eight]) (IP4 3405803876)"
  by (simp_all add: isTrusted_def NewClientIPResolver_def ten_slash_eight_def Contains_def same_prefix_def)

text \<open>Two forged entries, the observed client, and an inner hop.\<close>

definition forwarded_request :: request where
  "forwarded_request = \<lparr>req_method = ''GET'', RemoteAddr = ''10.0.0.1:99'', URLPath = ''/'', RawQuery = [],
     req_header = (\<lambda>_. [])(''X-Forwarded-For'' := [''8.8.8.8'', ''9.9.9.9,203.0.113.100, 10.0.0.9'']),
     URLParam = (\<lambda>_. []), ctx_claims = None, ctx_tx = False, ctx_ip = None\<rparr>"

lemma forwarded_values: "header_values (req_header forwarded_request) forwardedForHeader
    = foldl append_hop [''8.8.8.8'', ''9.9.9.9''] ((False, ''203.0.113.100'') # [(False, '' 10.0.0.9'')])"
  by (simp add: forwarded_request_def forwardedForHeader_def header_values_def canonical_key_def token_char_def
      is_digit_def nat_of_byte_def ascii_upper_def ascii_lower_def byte_of_def)

lemma forwarded_peer: "parseClientAddr (hostOnly (RemoteAddr forwarded_request)) = Some (IP4 167772161)"
proof -
  have "split_host ''10.0.0.1:99'' = Some ''10.0.0.1''" by code_simp
  then show ?thesis by (simp add: forwarded_request_def hostOnly_def sample_parsed)
qed

theorem forged_entries_are_ignored_witness:
  "ClientIP (NewClientIPResolver [ten_slash_eight]) forwarded_request = Some (IP4 3405803876)"
  by (rule forged_entries_are_ignored [OF forwarded_peer sample_trusted(1) forwarded_values _ sample_parsed(3) sample_trusted(3)])
    (simp_all add: sample_parsed sample_trusted)

theorem resolved_address_origin_witness:
  "ClientIP (NewClientIPResolver []) forwarded_request = Some (IP4 167772161)"
proof -
  have "ClientIP (NewClientIPResolver []) forwarded_request \<noteq> None"
    using resolved_address_origin [of "NewClientIPResolver []" forwarded_request] forwarded_peer by simp
  then obtain a where a: "ClientIP (NewClientIPResolver []) forwarded_request = Some a" by blast
  with resolved_address_origin [of "NewClientIPResolver []" forwarded_request] forwarded_peer
  have "a = IP4 167772161 \<or> isTrusted (NewClientIPResolver []) (IP4 167772161)" by auto
  with a show ?thesis by (simp add: isTrusted_def NewClientIPResolver_def)
qed

end
