(* ===== verification/Config.thy ===== *)
theory Config imports ClientIP
begin

text \<open>
  The configuration loader \<^verbatim>\<open>config/config.go\<close>: defaults, validation, and the list of trusted
  proxies the client address resolver works with. The environment is a function, unset variables
  being empty as \<^verbatim>\<open>os.Getenv\<close> has them.
\<close>

section \<open>The code\<close>

definition defaultPort :: int where "defaultPort = 8080"

definition defaultEnv :: string where "defaultEnv = ''development''"

definition defaultLogLevel :: string where "defaultLogLevel = ''info''"

definition minPort :: int where "minPort = 1"

definition maxPort :: int where "maxPort = 65535"

definition validEnvs :: "string list" where
  "validEnvs = [''development'', ''staging'', ''production'']"

record config =
  Port :: int
  Env :: string
  LogLevel :: string
  DatabaseURL :: string
  TrustedProxies :: "prefix list"

datatype config_error = PortNotNumber string | PortOutOfRange int | InvalidEnv string | InvalidProxy string

fun parse_proxies :: "string list \<Rightarrow> config_error + prefix list" where
  "parse_proxies [] = Inr []"
| "parse_proxies (raw # rest) =
     (let entry = trim_space raw in
      if entry = [] then parse_proxies rest
      else (case ParsePrefix entry of
              Some p \<Rightarrow> map_sum id (Cons (Masked p)) (parse_proxies rest)
            | None \<Rightarrow>
                (case ParseAddr entry of
                   None \<Rightarrow> Inl (InvalidProxy entry)
                 | Some a \<Rightarrow>
                     let a = Unmap a in map_sum id (Cons (PrefixFrom a (BitLen a))) (parse_proxies rest))))"

definition parseTrustedProxies :: "string \<Rightarrow> config_error + prefix list" where
  "parseTrustedProxies raw = parse_proxies (split_on CHR '','' raw)"

definition load_port :: "string \<Rightarrow> config_error + int" where
  "load_port raw =
     (case (if raw \<noteq> [] then atoi raw else Some defaultPort) of
        None \<Rightarrow> Inl (PortNotNumber raw)
      | Some port \<Rightarrow> if port < minPort \<or> maxPort < port then Inl (PortOutOfRange port) else Inr port)"

definition Load :: "(string \<Rightarrow> string) \<Rightarrow> config_error + config" where
  "Load getenv =
     (case load_port (getenv ''PORT'') of
        Inl e \<Rightarrow> Inl e
      | Inr port \<Rightarrow>
          let env = (if getenv ''ENV'' \<noteq> [] then getenv ''ENV'' else defaultEnv);
              level = (if getenv ''LOG_LEVEL'' \<noteq> [] then getenv ''LOG_LEVEL'' else defaultLogLevel) in
          if env \<notin> set validEnvs then Inl (InvalidEnv env)
          else (case (if getenv ''TRUSTED_PROXIES'' \<noteq> [] then parseTrustedProxies (getenv ''TRUSTED_PROXIES'') else Inr []) of
                  Inl e \<Rightarrow> Inl e
                | Inr proxies \<Rightarrow> Inr \<lparr>Port = port, Env = env, LogLevel = level,
                    DatabaseURL = getenv ''DATABASE_URL'', TrustedProxies = proxies\<rparr>))"

section \<open>What a list of trusted proxies means\<close>

text \<open>What one entry of the list denotes: the addresses of its block, or its one address.\<close>

definition entry_contains :: "string \<Rightarrow> addr \<Rightarrow> bool" where
  "entry_contains raw a =
     (case ParsePrefix (trim_space raw) of
        Some p \<Rightarrow> Contains p a
      | None \<Rightarrow> (case ParseAddr (trim_space raw) of None \<Rightarrow> False | Some b \<Rightarrow> a = WithZone [] (Unmap b)))"

definition entry_ok :: "string \<Rightarrow> bool" where
  "entry_ok raw \<longleftrightarrow> trim_space raw = [] \<or> ParsePrefix (trim_space raw) \<noteq> None \<or> ParseAddr (trim_space raw) \<noteq> None"

lemma trim_space_Nil [simp]: "trim_space [] = []"
  using trim_space_infix [of "[]"] by simp

lemma blank_contains: "trim_space raw = [] \<Longrightarrow> \<not> entry_contains raw a"
  by (simp add: entry_contains_def ParsePrefix_def ParseAddr_def cut_last_def)

lemma map_sum_Inr: "map_sum id f x = Inr y \<longleftrightarrow> (\<exists>z. x = Inr z \<and> y = f z)"
  by (cases x) auto

lemma parse_proxies_Inr: "(\<exists>ps. parse_proxies raws = Inr ps) \<longleftrightarrow> list_all entry_ok raws"
  by (induction raws) (auto simp: entry_ok_def Let_def map_sum_Inr split: option.splits)

lemma parse_proxies_contains:
  "parse_proxies raws = Inr ps \<Longrightarrow> any_contains ps a \<longleftrightarrow> (\<exists>raw \<in> set raws. entry_contains raw a)"
proof (induction raws arbitrary: ps)
  case (Cons raw raws)
  show ?case
  proof (cases "trim_space raw = []")
    case True
    with Cons blank_contains [OF True] show ?thesis by (simp add: Let_def)
  next
    case False
    show ?thesis
    proof (cases "ParsePrefix (trim_space raw)")
      case (Some p)
      with False Cons show ?thesis
        by (auto simp: Let_def map_sum_Inr entry_contains_def [of raw] Contains_Masked split: if_splits)
    next
      case None
      with False Cons show ?thesis
        by (auto simp: Let_def map_sum_Inr entry_contains_def [of raw] Contains_full split: option.splits if_splits)
    qed
  qed
qed simp

definition masked :: "prefix \<Rightarrow> bool" where
  "masked p \<longleftrightarrow> Masked p = p \<and> pbits p \<le> BitLen (paddr p)"

lemma Masked_masked: "pbits p \<le> BitLen (paddr p) \<Longrightarrow> masked (Masked p)"
  by (cases "paddr p") (auto simp: masked_def Masked_def drop_push_drop)

lemma PrefixFrom_masked: "masked (PrefixFrom a (BitLen a))"
  by (cases a) (auto simp: masked_def Masked_def PrefixFrom_def)

lemma ParsePrefix_bits: "ParsePrefix s = Some p \<Longrightarrow> pbits p \<le> BitLen (paddr p)"
  by (auto simp: ParsePrefix_def PrefixFrom_def split: option.splits prod.splits if_splits addr.splits)

lemma parse_proxies_masked: "parse_proxies raws = Inr ps \<Longrightarrow> list_all masked ps"
proof (induction raws arbitrary: ps)
  case (Cons raw raws)
  then show ?case
    by (auto simp: Let_def map_sum_Inr Masked_masked [OF ParsePrefix_bits] PrefixFrom_masked split: if_splits option.splits)
qed simp

text \<open>C35: A configuration that loads has a port in range and a known environment; the proxies it trusts
  are canonical blocks, and an address is trusted exactly if some entry of the variable denotes it.
  A non-blank entry that is neither a block nor an address fails the load.\<close>

theorem loaded_config_valid:
  assumes "Load getenv = Inr cfg"
  shows "1 \<le> Port cfg \<and> Port cfg \<le> 65535 \<and> Env cfg \<in> {''development'', ''staging'', ''production''}
    \<and> (\<forall>p \<in> set (TrustedProxies cfg). Masked p = p \<and> pbits p \<le> BitLen (paddr p))
    \<and> (\<forall>raw \<in> set (split_on CHR '','' (getenv ''TRUSTED_PROXIES'')). entry_ok raw)
    \<and> (\<forall>a. isTrusted (NewClientIPResolver (TrustedProxies cfg)) a
        \<longleftrightarrow> (\<exists>raw \<in> set (split_on CHR '','' (getenv ''TRUSTED_PROXIES'')). entry_contains raw a))"
proof -
  let ?raws = "split_on CHR '','' (getenv ''TRUSTED_PROXIES'')"
  have "load_port (getenv ''PORT'') = Inr (Port cfg)" and env: "Env cfg \<in> set validEnvs"
    and p: "parse_proxies ?raws = Inr (TrustedProxies cfg)"
    using assms by (auto simp: Load_def Let_def parseTrustedProxies_def split: sum.splits if_splits)
  then have "minPort \<le> Port cfg \<and> Port cfg \<le> maxPort" by (auto simp: load_port_def split: option.splits if_splits)
  moreover note env parse_proxies_contains [OF p] parse_proxies_masked [OF p]
  moreover have "list_all entry_ok ?raws" using parse_proxies_Inr p by blast
  ultimately show ?thesis
    by (auto simp: minPort_def maxPort_def validEnvs_def masked_def list_all_iff isTrusted_def NewClientIPResolver_def)
qed

section \<open>A block the resolver can never match\<close>

text \<open>A block of IPv4-mapped addresses, such as \<^verbatim>\<open>::ffff:10.0.0.0/104\<close>, loads without an error and
  trusts nobody: every address the resolver compares has been unmapped first, while the bare
  address form of the same entry is unmapped on loading and does match.\<close>

theorem mapped_block_trusts_nobody:
  assumes "trim_space entry \<noteq> []" and "CHR '','' \<notin> set entry"
    and "ParsePrefix (trim_space entry) = Some \<lparr>paddr = IP6 w [], pbits = n\<rparr>" and "96 \<le> n"
    and "drop_bit 32 w = 0xFFFF" and "parseClientAddr raw = Some a"
  shows "\<exists>ps. parseTrustedProxies entry = Inr ps \<and> length ps = 1 \<and> \<not> isTrusted (NewClientIPResolver ps) a"
proof -
  let ?p = "\<lparr>paddr = IP6 w [], pbits = n\<rparr>"
  have "parseTrustedProxies entry = Inr [Masked ?p]"
    using assms(1-3) by (simp add: parseTrustedProxies_def split_on_plain Let_def)
  moreover have "\<not> Contains ?p a"
  proof
    assume "Contains ?p a"
    then obtain v where a: "a = IP6 v []" and eq: "drop_bit (128 - n) v = drop_bit (128 - n) w"
      by (auto simp: Contains_def same_prefix_bits split: addr.splits)
    have "drop_bit 32 v = drop_bit (32 - (128 - n)) (drop_bit (128 - n) v)" using assms(4) by simp
    also have "\<dots> = drop_bit 32 w" unfolding eq using assms(4) by simp
    finally have "drop_bit 32 v = 0xFFFF" using assms(5) by simp
    with a parseClientAddr_canonical [OF assms(6)] show False by (simp add: canonical_addr_def)
  qed
  ultimately show ?thesis by (simp add: isTrusted_def NewClientIPResolver_def Contains_Masked)
qed

section \<open>Worked examples\<close>

lemma sample_block: "ParsePrefix ''10.0.0.0/8'' = Some ten_slash_eight"
  by (simp add: parse_eval ParsePrefix_def cut_last_def atoi_def PrefixFrom_def ten_slash_eight_def)

definition sample_env :: "string \<Rightarrow> string" where
  "sample_env = (\<lambda>_. [])(''TRUSTED_PROXIES'' := ''10.0.0.0/8'', ''PORT'' := ''8081'')"

lemma sample_loads: "\<exists>cfg. Load sample_env = Inr cfg"
  by (simp add: Load_def sample_env_def load_port_def atoi_def is_digit_def nat_of_byte_def digit_value_def undigits_def
      minPort_def maxPort_def defaultEnv_def validEnvs_def parseTrustedProxies_def sample_trims sample_block Let_def)

theorem loaded_config_valid_witness:
  "\<exists>cfg. Load sample_env = Inr cfg \<and> 1 \<le> Port cfg
    \<and> isTrusted (NewClientIPResolver (TrustedProxies cfg)) (IP4 167772161)"
proof -
  obtain cfg where cfg: "Load sample_env = Inr cfg" using sample_loads by blast
  have "entry_contains ''10.0.0.0/8'' (IP4 167772161)"
    using sample_trusted(1) by (simp add: entry_contains_def sample_trims sample_block isTrusted_def NewClientIPResolver_def split: if_splits)
  moreover have "split_on CHR '','' (sample_env ''TRUSTED_PROXIES'') = [''10.0.0.0/8'']" by (simp add: sample_env_def)
  ultimately show ?thesis using loaded_config_valid [OF cfg] cfg by auto
qed

lemma sample_mapped: "ParsePrefix ''::ffff:0:0/96'' = Some \<lparr>paddr = IP6 281470681743360 [], pbits = 96\<rparr>"
proof -
  have h: "lower_hex_value CHR ''f'' = Some 15" "lower_hex_value CHR ''0'' = Some 0" "lower_hex_value CHR '':'' = None"
    by (simp_all add: lower_hex_value_def ascii_lower_def nat_of_byte_def byte_of_def)
  have "v6_groups [] (Some 0) ''ffff:0:0'' = Some ([255, 255, 0, 0, 0, 0], Some 0)"
    by (subst v6_groups.simps, simp add: h undigits_def Let_def, subst v6_groups.simps, simp add: h undigits_def Let_def,
        subst v6_groups.simps, simp add: h undigits_def Let_def)
  moreover have "replicate 10 (0 :: nat) = [0, 0, 0, 0, 0, 0, 0, 0, 0, 0]" by (simp add: numeral_eq_Suc)
  ultimately show ?thesis
    by (simp add: parse_eval ParsePrefix_def cut_last_def atoi_def PrefixFrom_def parseIPv6_def Let_def expand_ellipsis_def)
qed

theorem mapped_block_trusts_nobody_witness:
  "\<exists>ps. parseTrustedProxies ''::ffff:0:0/96'' = Inr ps \<and> \<not> isTrusted (NewClientIPResolver ps) (IP4 167772161)"
proof -
  have "drop_bit 32 (281470681743360 :: 128 word) = 0xFFFF" by simp
  with mapped_block_trusts_nobody [of "''::ffff:0:0/96''", OF _ _ _ _ _ sample_parsed(1)] show ?thesis
    by (simp add: sample_trims sample_mapped) blast
qed

end
