(* ===== verification/Health.thy ===== *)
theory Health imports ClientIP "HOL-Library.Multiset" "HOL-Library.List_Lexorder" "HOL-Library.Char_ord"
begin

text \<open>
  The health endpoints of \<^verbatim>\<open>httpapi/health.go\<close>. The readiness checks run concurrently and append
  their names to one list under a mutex, so the model is a step relation in which any running
  check may be the next to finish; the handler's reply must not depend on that order.
\<close>

section \<open>Writing JSON\<close>

datatype json = JString string | JList "json list" | JObject "(string \<times> json) list"

text \<open>
  The strings of \<^verbatim>\<open>encoding/json\<close>: quotes, backslashes, control characters and the three characters
  HTML gives a meaning are escaped. Bytes outside ASCII are passed on, which is what the encoder
  does with valid UTF-8 other than U+2028 and U+2029.
\<close>

definition json_char :: "char \<Rightarrow> string" where
  "json_char c =
     (let n = nat_of_byte c in
      if c = CHR 0x22 \<or> c = CHR 0x5C then [CHR 0x5C, c]
      else if n = 8 then CHR 0x5C # ''b'' else if n = 12 then CHR 0x5C # ''f''
      else if n = 10 then CHR 0x5C # ''n'' else if n = 13 then CHR 0x5C # ''r''
      else if n = 9 then CHR 0x5C # ''t''
      else if n < 32 \<or> c \<in> set ''<>&'' then CHR 0x5C # ''u00'' @ [hex_alphabet ! (n div 16), hex_alphabet ! (n mod 16)]
      else [c])"

definition json_string :: "string \<Rightarrow> string" where
  "json_string s = CHR 0x22 # concat (map json_char s) @ [CHR 0x22]"

text \<open>The keys of a Go map are written in order.\<close>

fun json_text :: "json \<Rightarrow> string" where
  "json_text (JString s) = json_string s"
| "json_text (JList xs) = ''['' @ join_with CHR '','' (map json_text xs) @ '']''"
| "json_text (JObject kvs) =
     CHR 0x7B # join_with CHR '','' (map (\<lambda>(k, v). json_string k @ '':'' @ v)
       (sort_key fst (map (\<lambda>(k, v). (k, json_text v)) kvs))) @ [CHR 0x7D]"

definition writeJSON :: "nat \<Rightarrow> json \<Rightarrow> reply \<Rightarrow> reply" where
  "writeJSON code body w =
     write_body (json_text body @ [CHR 0x0A])
       (WriteHeader code (set_header ''Content-Type'' ''application/json'' w))"

section \<open>The handlers\<close>

definition LivenessHandler :: "'w handler" where
  "LivenessHandler r ws = answer (writeJSON 200 (JObject [(''status'', JString ''ok'')])) ws"

text \<open>A check is given the deadline and returns, at some time, an error or none.\<close>

record readiness_check =
  Name :: string
  Check :: "time \<Rightarrow> time \<times> bool"

definition fails :: "time \<Rightarrow> readiness_check \<Rightarrow> bool" where
  "fails deadline c \<longleftrightarrow> \<not> snd (Check c deadline)"

text \<open>The running goroutines and the shared list: one of them finishes.\<close>

inductive finish :: "time \<Rightarrow> readiness_check list \<times> string list \<Rightarrow> readiness_check list \<times> string list \<Rightarrow> bool"
  for deadline where
  passed: "\<not> fails deadline c \<Longrightarrow> finish deadline (xs @ c # ys, failed) (xs @ ys, failed)"
| failed: "fails deadline c \<Longrightarrow> finish deadline (xs @ c # ys, failed) (xs @ ys, failed @ [Name c])"

inductive_cases finishE: "finish deadline s s'"

definition readiness_reply :: "string list \<Rightarrow> reply \<Rightarrow> reply" where
  "readiness_reply failed =
     (if length failed > 0
      then writeJSON 503 (JObject [(''status'', JString ''not ready''), (''failed'', JList (map JString (sort failed)))])
      else writeJSON 200 (JObject [(''status'', JString ''ready'')]))"

text \<open>
  The handler with one order of completion: the checks finish in the order given, and the reply
  is written when the last one has. The relation below admits every order.
\<close>

fun run_checks :: "time \<Rightarrow> readiness_check list \<Rightarrow> string list \<Rightarrow> string list" where
  "run_checks deadline [] failed = failed"
| "run_checks deadline (c # cs) failed =
     run_checks deadline cs (if fails deadline c then failed @ [Name c] else failed)"

definition NewReadinessHandler :: "time \<Rightarrow> readiness_check list \<Rightarrow> time \<Rightarrow> 'w handler" where
  "NewReadinessHandler timeout checks now r ws =
     answer (readiness_reply (run_checks (now + timeout) checks [])) ws"

text \<open>When the last check returns.\<close>

definition answered_at :: "time \<Rightarrow> readiness_check list \<Rightarrow> time \<Rightarrow> time" where
  "answered_at timeout checks now = Max (insert now (set (map (\<lambda>c. fst (Check c (now + timeout))) checks)))"

section \<open>Every order gives the same reply\<close>

definition failing :: "time \<Rightarrow> readiness_check list \<Rightarrow> string multiset" where
  "failing deadline cs = mset (map Name (filter (fails deadline) cs))"

lemma finish_invariant: "finish d s s' \<Longrightarrow>
    failing d (fst s') + mset (snd s') = failing d (fst s) + mset (snd s)"
  by (elim finishE) (auto simp: failing_def)

lemma finish_reachable: "(finish d)\<^sup>*\<^sup>* s s' \<Longrightarrow>
    failing d (fst s') + mset (snd s') = failing d (fst s) + mset (snd s)"
  by (induction rule: rtranclp_induct) (auto dest: finish_invariant)

lemma finish_shrinks: "finish d s s' \<Longrightarrow> length (fst s') < length (fst s)"
  by (elim finishE) auto

lemma finish_progress: "fst s \<noteq> [] \<Longrightarrow> \<exists>s'. finish d s s'"
proof (cases s)
  case (Pair cs failed)
  moreover assume "fst s \<noteq> []"
  ultimately obtain c ys where "s = ([] @ c # ys, failed)" by (cases cs) auto
  then show ?thesis using finish.passed [of d c "[]" ys failed] finish.failed [of d c "[]" ys failed] by blast
qed

lemma run_checks_mset: "mset (run_checks d cs failed) = failing d cs + mset failed"
  by (induction cs arbitrary: failed) (auto simp: failing_def)


text \<open>If every check returns by the deadline it is given, the probe is answered by that deadline,
  however many checks there are: the times are not added up.\<close>

lemma readiness_answers_in_time:
  assumes "0 \<le> timeout" and "\<And>c. c \<in> set checks \<Longrightarrow> fst (Check c (now + timeout)) \<le> now + timeout"
  shows "answered_at timeout checks now \<le> now + timeout"
  using assms by (auto simp: answered_at_def)

section \<open>Worked examples\<close>

definition down :: "string \<Rightarrow> readiness_check" where
  "down n = \<lparr>Name = n, Check = (\<lambda>deadline. (deadline, False))\<rparr>"

lemma down_fails [simp]: "fails d (down n)" "Name (down n) = n"
  by (simp_all add: fails_def down_def)


end
