(* ===== verification/Router.thy ===== *)
theory Router imports Health Config
begin

text \<open>
  The assembled server: \<^verbatim>\<open>httpapi/router.go\<close> with its request logger, and \<^verbatim>\<open>cmd/api/main.go\<close>,
  which loads the configuration, builds the router and serves until the listener ends or a
  signal arrives. chi is not part of the repository: its multiplexer and its two ready-made
  middlewares are parameters, and the locale \<open>chi_lib\<close> states what the code relies on.
\<close>

section \<open>Logging a request\<close>

record log_entry =
  log_method :: string
  log_path :: string
  log_status :: nat
  log_request_id :: string

text \<open>The status chi's wrapped writer reports: 0 while the handler has written none.\<close>

definition written_status :: "reply \<Rightarrow> nat" where
  "written_status w = (case sent w of None \<Rightarrow> 0 | Some (code, _) \<Rightarrow> code)"

definition requestLogger :: "(log_entry \<Rightarrow> 'w \<Rightarrow> 'w) \<Rightarrow> (request \<Rightarrow> string) \<Rightarrow> 'w middleware" where
  "requestLogger log getReqID next r ws =
     (case next r ws of
        (Panicked, ws') \<Rightarrow> (Panicked, ws')
      | (Served, w, s) \<Rightarrow>
          (Served, w, log \<lparr>log_method = req_method r, log_path = URLPath r,
             log_status = written_status w, log_request_id = getReqID r\<rparr> s))"

section \<open>The router\<close>

definition readinessTimeout :: time where
  "readinessTimeout = 2 * 1000000000"

type_synonym 'w route = "string \<times> string \<times> 'w handler"
type_synonym 'w mux = "'w middleware list \<Rightarrow> 'w route list \<Rightarrow> 'w handler"

definition health_routes :: "time \<Rightarrow> 'w route list" where
  "health_routes now =
     [(''GET'', ''/healthz'', LivenessHandler), (''GET'', ''/readyz'', NewReadinessHandler readinessTimeout [] now)]"

definition NewRouter ::
  "'w mux \<Rightarrow> 'w middleware \<Rightarrow> 'w middleware \<Rightarrow> (log_entry \<Rightarrow> 'w \<Rightarrow> 'w) \<Rightarrow> (request \<Rightarrow> string) \<Rightarrow> resolver \<Rightarrow> time
   \<Rightarrow> 'w handler" where
  "NewRouter mux requestID recoverer log getReqID clientIP now =
     mux [requestID, recoverer, client_ip_middleware clientIP, requestLogger log getReqID] (health_routes now)"

text \<open>
  chi as its documentation has it: a request that matches a route is served by its handler
  inside the middlewares in the order they were registered; \<^verbatim>\<open>RequestID\<close> only adds to the
  context, here to a part no handler of the repository reads; \<^verbatim>\<open>Recoverer\<close> passes a normal return
  through and answers a panic with 500 itself, unless a status was already sent.
\<close>

locale chi_lib =
  fixes mux :: "'w mux" and requestID :: "'w middleware" and recoverer :: "'w middleware"
  assumes mux_match: "(req_method r, URLPath r, h) \<in> set routes \<Longrightarrow> distinct (map (\<lambda>(m, p, _). (m, p)) routes) \<Longrightarrow>
      mux mws routes r ws = foldr (\<lambda>m h. m h) mws h r ws"
    and requestID_passes: "requestID next r ws = next r ws"
    and recoverer_served: "next r ws = (Served, ws') \<Longrightarrow> recoverer next r ws = (Served, ws')"
    and recoverer_panicked: "next r ws = (Panicked, w, s) \<Longrightarrow>
      \<exists>w'. recoverer next r ws = (Served, w', s) \<and> sent w' = (case sent w of None \<Rightarrow> Some (500, rheader w) | Some x \<Rightarrow> Some x)"
begin

lemma routed:
  assumes "(req_method r, URLPath r, h) \<in> set (health_routes now)"
  shows "NewRouter mux requestID recoverer log getReqID clientIP now r ws
    = recoverer (client_ip_middleware clientIP (requestLogger log getReqID h)) r ws"
  unfolding NewRouter_def by (subst mux_match [OF assms]) (simp_all add: health_routes_def requestID_passes)

lemma served_and_logged:
  assumes "(req_method r, URLPath r, h) \<in> set (health_routes now)"
    and "\<And>r'. req_method r' = req_method r \<Longrightarrow> URLPath r' = URLPath r \<Longrightarrow> h r' (w, s) = (Served, w', s)"
    and "\<And>r' a. getReqID (r'\<lparr>ctx_ip := a\<rparr>) = getReqID r'"
  shows "NewRouter mux requestID recoverer log getReqID clientIP now r (w, s) = (Served, w',
    log \<lparr>log_method = req_method r, log_path = URLPath r, log_status = written_status w',
      log_request_id = getReqID r\<rparr> s)"
  unfolding routed [OF assms(1)]
  by (rule recoverer_served) (auto simp: client_ip_middleware_def requestLogger_def assms(2,3) split: option.split)

text \<open>A handler that panics: the client gets a reply, the log gets nothing.\<close>

lemma panic_unlogged:
  assumes "\<And>r'. h r' (w, s) = (Panicked, w', s')"
  shows "\<exists>w2. recoverer (client_ip_middleware clientIP (requestLogger log getReqID h)) r (w, s) = (Served, w2, s')
    \<and> sent w2 = (case sent w' of None \<Rightarrow> Some (500, rheader w') | Some x \<Rightarrow> Some x)"
  by (rule recoverer_panicked) (auto simp: client_ip_middleware_def requestLogger_def assms split: option.split)

end

section \<open>chi by its documentation\<close>

fun simple_mux :: "'w middleware list \<Rightarrow> 'w route list \<Rightarrow> 'w handler" where
  "simple_mux mws [] r ws = foldr (\<lambda>m h. m h) mws (\<lambda>_. answer (http_error ''404 page not found'' 404)) r ws"
| "simple_mux mws ((m, p, h) # routes) r ws =
     (if m = req_method r \<and> p = URLPath r then foldr (\<lambda>m h. m h) mws h r ws else simple_mux mws routes r ws)"

definition recover_500 :: "'w middleware" where
  "recover_500 next r ws = (case next r ws of
       (Served, ws') \<Rightarrow> (Served, ws')
     | (Panicked, w, s) \<Rightarrow> (Served, WriteHeader 500 w, s))"

interpretation chi: chi_lib simple_mux "\<lambda>next. next" recover_500
proof (unfold_locales, goal_cases)
  case (1 r h routes mws ws)
  then show ?case by (induction routes) force+
qed (auto simp: recover_500_def WriteHeader_def split: option.splits)

section \<open>The process\<close>

definition readHeaderTimeout :: time where "readHeaderTimeout = 5 * 1000000000"

definition idleTimeout :: time where "idleTimeout = 60 * 1000000000"

definition shutdownTimeout :: time where "shutdownTimeout = 10 * 1000000000"

text \<open>
  \<^verbatim>\<open>slog.Level.UnmarshalText\<close>: a level name in any case, with an optional offset;
  anything else falls back to info.
\<close>

definition level_text :: "string \<Rightarrow> int option" where
  "level_text s =
     (let name = takeWhile (\<lambda>c. c \<noteq> CHR ''+'' \<and> c \<noteq> CHR ''-'') s; rest = drop (length name) s;
          upper = to_upper name;
          base = (if upper = ''DEBUG'' then Some (-4) else if upper = ''INFO'' then Some 0
                  else if upper = ''WARN'' then Some 4 else if upper = ''ERROR'' then Some (8 :: int) else None) in
      if rest = [] then base
      else (case atoi rest of None \<Rightarrow> None | Some offset \<Rightarrow> map_option (\<lambda>b. b + offset) base))"

definition newLogger :: "string \<Rightarrow> int" where
  "newLogger levelName = (case level_text levelName of None \<Rightarrow> 0 | Some level \<Rightarrow> level)"

record server =
  Addr :: string
  ReadHeaderTimeout :: time
  IdleTimeout :: time

definition server_of :: "config \<Rightarrow> server" where
  "server_of cfg = \<lparr>Addr = CHR '':'' # decimal (nat (Port cfg)), ReadHeaderTimeout = readHeaderTimeout, IdleTimeout = idleTimeout\<rparr>"

text \<open>What the \<^verbatim>\<open>select\<close> of \<^verbatim>\<open>run\<close> saw first, and how shutting down went.\<close>

datatype served_until = ListenerEnded "string option" | Signalled "time \<Rightarrow> string option"

datatype run_error = LoadConfig config_error | ServerError string | GracefulShutdown string

definition run :: "(string \<Rightarrow> string) \<Rightarrow> (server \<Rightarrow> served_until) \<Rightarrow> run_error option" where
  "run getenv serve =
     (case Load getenv of
        Inl e \<Rightarrow> Some (LoadConfig e)
      | Inr cfg \<Rightarrow>
          (case serve (server_of cfg) of
             ListenerEnded (Some e) \<Rightarrow> Some (ServerError e)
           | ListenerEnded None \<Rightarrow> None
           | Signalled shutdown \<Rightarrow>
               (case shutdown shutdownTimeout of Some e \<Rightarrow> Some (GracefulShutdown e) | None \<Rightarrow> None)))"

definition exit_code :: "run_error option \<Rightarrow> nat" where
  "exit_code r = (if r = None then 0 else 1)"

text \<open>The two health endpoints are reachable without credentials and answer 200 behind the whole
  stack, and each such request leaves one log entry with its method, path, identifier and the
  status that was sent, and nothing of the client's address.\<close>

theorem health_endpoints_answer:
  assumes "chi_lib mux requestID recoverer" and "req_method r = ''GET''" and "URLPath r \<in> {''/healthz'', ''/readyz''}"
    and "\<And>r' a. getReqID (r'\<lparr>ctx_ip := a\<rparr>) = getReqID r'"
  shows "\<exists>w. NewRouter mux requestID recoverer log getReqID clientIP now r (fresh_reply, s) = (Served, w,
      log \<lparr>log_method = ''GET'', log_path = URLPath r, log_status = 200, log_request_id = getReqID r\<rparr> s)
    \<and> status w = 200"
proof -
  let ?body = "\<lambda>s. writeJSON 200 (JObject [(''status'', JString s)]) fresh_reply"
  have st: "sent (?body x) \<noteq> None" "written_status (?body x) = 200" "status (?body x) = 200" for x
    by (simp_all add: writeJSON_def write_body_def WriteHeader_def set_header_def Let_def written_status_def status_def fresh_reply_def)
  consider "URLPath r = ''/healthz''" | "URLPath r = ''/readyz''" using assms(3) by auto
  then show ?thesis
  proof cases
    case 1
    have "(req_method r, URLPath r, LivenessHandler) \<in> set (health_routes now)" by (simp add: health_routes_def 1 assms(2))
    from chi_lib.served_and_logged [where h = "LivenessHandler" and requestID = requestID
        and recoverer = recoverer and getReqID = getReqID and w = fresh_reply and w' = "?body ''ok''",
        OF assms(1) this _ assms(4)] st assms(2)
    show ?thesis by (simp add: LivenessHandler_def)
  next
    case 2
    have "(req_method r, URLPath r, NewReadinessHandler readinessTimeout [] now) \<in> set (health_routes now)"
      by (simp add: health_routes_def 2 assms(2))
    from chi_lib.served_and_logged [where h = "NewReadinessHandler readinessTimeout [] now" and requestID = requestID
        and recoverer = recoverer and getReqID = getReqID and w = fresh_reply and w' = "?body ''ready''",
        OF assms(1) this _ assms(4)] st assms(2)
    show ?thesis by (simp add: NewReadinessHandler_def readiness_reply_def)
  qed
qed

section \<open>Worked example\<close>

definition ready_probe :: request where
  "ready_probe = \<lparr>req_method = ''GET'', RemoteAddr = ''10.0.0.1:99'', URLPath = ''/readyz'', RawQuery = [],
     req_header = (\<lambda>_. []), URLParam = (\<lambda>_. []), ctx_claims = None, ctx_tx = False, ctx_ip = None\<rparr>"

theorem health_endpoints_answer_witness:
  "\<exists>w. NewRouter simple_mux (\<lambda>next. next) recover_500 (\<lambda>e es. es @ [log_status e]) (\<lambda>_. ''id'') (NewClientIPResolver []) 0
      ready_probe (fresh_reply, []) = (Served, w, [200]) \<and> status w = 200"
  using health_endpoints_answer [OF chi.chi_lib_axioms, of ready_probe "\<lambda>_. ''id''" "\<lambda>e es. es @ [log_status e]"
      "NewClientIPResolver []" 0 "[]"]
  by (simp add: ready_probe_def)

end
