(* ===== verification/Email.thy ===== *)
theory Email imports Prelude
begin

text \<open>
  The outbound-email port \<^verbatim>\<open>email/email.go\<close> and its logging adapter \<^verbatim>\<open>email/logsender.go\<close>. The
  contract of the port is a locale; the adapter is its provider.
\<close>

section \<open>The port\<close>

type_synonym purpose = string

definition PurposeMagicLink :: purpose where
  "PurposeMagicLink = ''magic_link''"

record message =
  Purpose :: purpose
  msg_subject :: string
  Body :: string

datatype email_error = ContextErr string | ErrNoRecipient | ErrNoPurpose

text \<open>The context is its error, if it has ended.\<close>

definition checkSend :: "string option \<Rightarrow> string \<Rightarrow> message \<Rightarrow> email_error option" where
  "checkSend ctx_err recipient msg =
     (case ctx_err of
        Some e \<Rightarrow> Some (ContextErr e)
      | None \<Rightarrow> if recipient = [] then Some ErrNoRecipient
                else if Purpose msg = [] then Some ErrNoPurpose
                else None)"

text \<open>
  What every adapter owes its caller: a message without recipient or purpose, or under an ended
  context, is refused and leaves no trace; and what is left in the logs does not depend on what a
  message says, as far as an observer may compare two messages.
\<close>

locale sender =
  fixes send :: "string option \<Rightarrow> string \<Rightarrow> message \<Rightarrow> 'w \<Rightarrow> email_error option \<times> 'w"
    and alike :: "message \<Rightarrow> message \<Rightarrow> bool"
  assumes refuses: "checkSend ctx_err recipient msg = Some e \<Longrightarrow> send ctx_err recipient msg w = (Some e, w)"
    and hides: "alike m m' \<Longrightarrow> send ctx_err recipient m w = send ctx_err recipient m' w"
begin

text \<open>A whole run of sends reveals nothing more than the runs it resembles.\<close>

fun send_all :: "(string option \<times> string \<times> message) list \<Rightarrow> 'w \<Rightarrow> email_error option list \<times> 'w" where
  "send_all [] w = ([], w)"
| "send_all ((ctx_err, recipient, m) # rest) w =
     (case send ctx_err recipient m w of (e, w1) \<Rightarrow> (case send_all rest w1 of (es, w2) \<Rightarrow> (e # es, w2)))"

lemma send_all_hides:
  "list_all2 (\<lambda>(c, r, m) (c', r', m'). c = c' \<and> r = r' \<and> alike m m') ms ms' \<Longrightarrow> send_all ms w = send_all ms' w"
proof (induction ms ms' arbitrary: w rule: list_all2_induct)
  case (Cons x xs y ys)
  obtain c r m m' where "x = (c, r, m)" "y = (c, r, m')" "alike m m'" using Cons.hyps(1) by (cases x; cases y) auto
  with Cons.IH hides [of m m' c r w] show ?case by (auto split: prod.splits)
qed simp

end

section \<open>The logging adapter\<close>

record log_record =
  adapter :: string
  recipient :: string
  logged_purpose :: string
  body_bytes :: nat

text \<open>A sender holds a logger; the log it appends to is the world.\<close>

datatype logger = DefaultLogger | Logger nat

definition NewLogSender :: "logger option \<Rightarrow> logger" where
  "NewLogSender l = (case l of None \<Rightarrow> DefaultLogger | Some l \<Rightarrow> l)"

definition LogSender_Send ::
  "logger \<Rightarrow> string option \<Rightarrow> string \<Rightarrow> message \<Rightarrow> (logger \<times> log_record) list \<Rightarrow> email_error option \<times> (logger \<times> log_record) list"
where
  "LogSender_Send s ctx_err to_addr msg log =
     (case checkSend ctx_err to_addr msg of
        Some e \<Rightarrow> (Some e, log)
      | None \<Rightarrow> (None, log @ [(s, \<lparr>adapter = ''log'', recipient = to_addr, logged_purpose = Purpose msg,
                   body_bytes = length (Body msg)\<rparr>)]))"

interpretation log_sender: sender "LogSender_Send s"
  "\<lambda>m m'. Purpose m = Purpose m' \<and> length (Body m) = length (Body m')"
  by unfold_locales (auto simp: LogSender_Send_def checkSend_def split: option.splits)

text \<open>What a run of sends leaves in the log does not depend on the subjects, nor on the bodies beyond
  their lengths: two runs that differ only there return the same errors and write the same records,
  so the single-use credential in a magic-link body is never copied into the log.\<close>

theorem log_never_shows_a_body:
  assumes "list_all2 (\<lambda>(c, r, m) (c', r', m'). c = c' \<and> r = r' \<and> Purpose m = Purpose m' \<and> length (Body m) = length (Body m'))
    sends sends'"
  shows "log_sender.send_all s sends log = log_sender.send_all s sends' log"
  by (rule log_sender.send_all_hides) (rule assms)

theorem log_never_shows_a_body_witness:
  "log_sender.send_all (Logger 1) [(None, ''ana@example.org'', \<lparr>Purpose = PurposeMagicLink, msg_subject = ''Hi'', Body = ''token-1''\<rparr>)] []
    = log_sender.send_all (Logger 1) [(None, ''ana@example.org'', \<lparr>Purpose = PurposeMagicLink, msg_subject = ''Yo'', Body = ''token-2''\<rparr>)] []"
  by (rule log_never_shows_a_body) simp

end
