(* ===== verification/PoolConf.thy ===== *)
theory PoolConf imports GoStrings
begin

text \<open>
  The pool configurations of \<^verbatim>\<open>db/db.go\<close> and \<^verbatim>\<open>db/auth.go\<close>, and opening a pool. pgxpool is a
  parameter: parsing a connection string yields a configuration or an error, creating a pool
  fails or not, and so does the first ping.
\<close>

definition NeonAutoSuspendAfter :: time where "NeonAutoSuspendAfter = 5 * 60 * 1000000000"

definition maxConns :: int where "maxConns = 4"

definition maxConnIdleTime :: time where "maxConnIdleTime = 2 * 60 * 1000000000"

definition maxConnLifetime :: time where "maxConnLifetime = 30 * 60 * 1000000000"

text \<open>The fields the code reads or writes; \<open>RuntimeParams\<close> is \<open>None\<close> for a nil map.\<close>

record pool_config =
  MaxConns :: int
  MaxConnIdleTime :: time
  MaxConnLifetime :: time
  MinConns :: int
  MinIdleConns :: int
  RuntimeParams :: "(string \<rightharpoonup> string) option"
  Database :: string
  AfterConnect :: bool
  BeforeAcquire :: bool

datatype pool_error = DsnRequired | DsnInvalid string | PoolNotCreated string | NotConnected string string

definition PoolConfig :: "(string \<Rightarrow> string + pool_config) \<Rightarrow> string \<Rightarrow> pool_error + pool_config" where
  "PoolConfig parseConfig dsn =
     (if trim_space dsn = [] then Inl DsnRequired
      else (case parseConfig dsn of
              Inl e \<Rightarrow> Inl (DsnInvalid e)
            | Inr cfg \<Rightarrow> Inr (cfg\<lparr>MaxConns := maxConns, MaxConnIdleTime := maxConnIdleTime,
                MaxConnLifetime := maxConnLifetime, MinConns := 0, MinIdleConns := 0\<rparr>)))"

definition PublicPoolConfig :: "(string \<Rightarrow> string + pool_config) \<Rightarrow> string \<Rightarrow> pool_error + pool_config" where
  "PublicPoolConfig parseConfig dsn =
     (case PoolConfig parseConfig dsn of
        Inl e \<Rightarrow> Inl e
      | Inr cfg \<Rightarrow>
          let cfg = (if RuntimeParams cfg = None then cfg\<lparr>RuntimeParams := Some Map.empty\<rparr> else cfg) in
          Inr (cfg\<lparr>RuntimeParams := map_option (\<lambda>m. m(''default_transaction_read_only'' \<mapsto> ''on'')) (RuntimeParams cfg)\<rparr>))"

text \<open>Open pools by their configuration; a pool whose ping fails is closed again.\<close>

record pools =
  open_pools :: "pool_config list"

definition newPool ::
  "(pool_config \<Rightarrow> string option) \<Rightarrow> (pool_config \<Rightarrow> string option) \<Rightarrow> pool_config \<Rightarrow> pools
   \<Rightarrow> (pool_error + pool_config) \<times> pools" where
  "newPool newWithConfig ping cfg ps =
     (case newWithConfig cfg of
        Some e \<Rightarrow> (Inl (PoolNotCreated e), ps)
      | None \<Rightarrow>
          let opened = ps\<lparr>open_pools := cfg # open_pools ps\<rparr> in
          (case ping cfg of
             Some e \<Rightarrow> (Inl (NotConnected (Database cfg) e), opened\<lparr>open_pools := tl (open_pools opened)\<rparr>)
           | None \<Rightarrow> (Inr cfg, opened)))"

definition open_pool where
  "open_pool newWithConfig ping cfg ps =
     (case cfg of Inl e \<Rightarrow> (Inl e, ps) | Inr c \<Rightarrow> newPool newWithConfig ping c ps)"

definition NewPool where
  "NewPool parseConfig newWithConfig ping dsn ps = open_pool newWithConfig ping (PoolConfig parseConfig dsn) ps"

definition NewPublicPool where
  "NewPublicPool parseConfig newWithConfig ping dsn ps = open_pool newWithConfig ping (PublicPoolConfig parseConfig dsn) ps"

definition NewAuthPool where
  "NewAuthPool parseConfig newWithConfig ping dsn ps = open_pool newWithConfig ping (PoolConfig parseConfig dsn) ps"

text \<open>Every pool this package opens lets go of idle connections before the database suspends, keeps
  none open for warmth, never exceeds four, and the public one asks for read-only transactions;
  when opening fails, no pool is left open.\<close>

theorem opened_pool_settings:
  assumes "(r, ps') \<in> {NewPool parseConfig newWithConfig ping dsn ps, NewPublicPool parseConfig newWithConfig ping dsn ps,
      NewAuthPool parseConfig newWithConfig ping dsn ps}"
  shows "(case r of
      Inl _ \<Rightarrow> ps' = ps
    | Inr cfg \<Rightarrow> open_pools ps' = cfg # open_pools ps \<and> MaxConnIdleTime cfg < NeonAutoSuspendAfter
        \<and> MaxConns cfg = 4 \<and> MinConns cfg = 0 \<and> MinIdleConns cfg = 0)
    \<and> (\<forall>cfg. PublicPoolConfig parseConfig dsn = Inr cfg
        \<longrightarrow> (\<exists>m. RuntimeParams cfg = Some m \<and> m ''default_transaction_read_only'' = Some ''on''))"
proof -
  have settings: "MaxConnIdleTime c < NeonAutoSuspendAfter \<and> MaxConns c = 4 \<and> MinConns c = 0 \<and> MinIdleConns c = 0"
    if "PoolConfig parseConfig dsn = Inr c \<or> PublicPoolConfig parseConfig dsn = Inr c" for c
    using that by (auto simp: PublicPoolConfig_def PoolConfig_def maxConnIdleTime_def NeonAutoSuspendAfter_def maxConns_def
        Let_def split: sum.splits if_splits)
  have opened: "(case r of Inl _ \<Rightarrow> ps' = ps | Inr c \<Rightarrow> cfg = Inr c \<and> open_pools ps' = c # open_pools ps)"
    if "open_pool newWithConfig ping cfg ps = (r, ps')" for cfg
    using that by (auto simp: open_pool_def newPool_def Let_def split: sum.splits option.splits)
  have public: "\<exists>m. RuntimeParams cfg = Some m \<and> m ''default_transaction_read_only'' = Some ''on''"
    if "PublicPoolConfig parseConfig dsn = Inr cfg" for cfg
    using that by (auto simp: PublicPoolConfig_def Let_def split: sum.splits if_splits)
  from assms opened settings public show ?thesis
    by (fastforce simp: NewPool_def NewPublicPool_def NewAuthPool_def split: sum.splits)
qed

theorem opened_pool_settings_witness:
  "\<exists>cfg. fst (NewPublicPool (\<lambda>_. Inr \<lparr>MaxConns = 0, MaxConnIdleTime = 0, MaxConnLifetime = 0, MinConns = 9, MinIdleConns = 9,
      RuntimeParams = None, Database = ''d'', AfterConnect = False, BeforeAcquire = False\<rparr>) (\<lambda>_. None) (\<lambda>_. None) ''x'' \<lparr>open_pools = []\<rparr>)
    = Inr cfg \<and> MinConns cfg = 0"
proof -
  let ?parse = "\<lambda>_ :: string. Inr \<lparr>MaxConns = 0, MaxConnIdleTime = 0, MaxConnLifetime = 0, MinConns = 9, MinIdleConns = 9,
      RuntimeParams = None, Database = ''d'', AfterConnect = False, BeforeAcquire = False\<rparr> :: string + pool_config"
  let ?run = "NewPublicPool ?parse (\<lambda>_. None) (\<lambda>_. None) ''x'' \<lparr>open_pools = []\<rparr>"
  have "trim_space ''x'' = ''x''" by code_simp
  then obtain cfg where cfg: "fst ?run = Inr cfg"
    by (simp add: NewPublicPool_def open_pool_def PublicPoolConfig_def PoolConfig_def newPool_def Let_def)
  moreover have "(fst ?run, snd ?run) \<in> {NewPool ?parse (\<lambda>_. None) (\<lambda>_. None) ''x'' \<lparr>open_pools = []\<rparr>, ?run,
      NewAuthPool ?parse (\<lambda>_. None) (\<lambda>_. None) ''x'' \<lparr>open_pools = []\<rparr>}" by simp
  note opened_pool_settings [OF this]
  ultimately show ?thesis by simp
qed

end
