(* ===== verification/SessionConc.thy ===== *)
theory SessionConc imports SessionProps
begin

text \<open>
  Several refresh rotations at once: each is a transaction whose statements interleave with the
  others' at READ COMMITTED. A read and the candidate rows of an UPDATE are those of the committed
  table at that statement; the writes show at the commit; the advisory lock of
  \<^verbatim>\<open>LockRefreshTokenFamily\<close> is held from its statement to the end of the transaction. Any
  transaction may fail at any point and roll back. This is the race \<^verbatim>\<open>session.go\<close> takes the
  lock for.
\<close>

section \<open>The transactions\<close>

text \<open>
  Where a rotation stands: it has looked its token up, holds the family's lock, has fixed the rows
  it will revoke after detecting reuse, has spent the presented token, or has inserted (and then
  linked) the successor and is about to commit. Each carries the row as it was read.
\<close>

datatype phase = Idle | Looked refresh_token | Owning refresh_token | Burning refresh_token "uuid list"
  | Spent refresh_token | Inserted refresh_token refresh_token

record sessions =
  committed :: "refresh_token list"
  family_lock :: "uuid \<Rightarrow> nat option"
  tx :: "nat \<Rightarrow> phase"
  alarms :: "uuid set"
  wins :: "uuid list"

definition enter :: "nat \<Rightarrow> phase \<Rightarrow> sessions \<Rightarrow> sessions" where
  "enter i ph s = s\<lparr>tx := (tx s)(i := ph)\<rparr>"

text \<open>The end of a transaction: its lock is released.\<close>

definition finish_tx :: "nat \<Rightarrow> sessions \<Rightarrow> sessions" where
  "finish_tx i s = s\<lparr>tx := (tx s)(i := Idle),
     family_lock := (\<lambda>fam. if family_lock s fam = Some i then None else family_lock s fam)\<rparr>"

definition revoke_ids :: "uuid list \<Rightarrow> time \<Rightarrow> refresh_token list \<Rightarrow> refresh_token list" where
  "revoke_ids ids t ts = revoke_where (\<lambda>r. rt_id r \<in> set ids \<and> live r) t ts"

definition live_ids :: "uuid \<Rightarrow> uuid \<Rightarrow> refresh_token list \<Rightarrow> uuid list" where
  "live_ids u fam ts = map rt_id (filter (\<lambda>r. rt_user_id r = u \<and> family_id r = fam \<and> live r) ts)"

definition successor_of :: "refresh_token \<Rightarrow> uuid \<Rightarrow> bytes \<Rightarrow> time \<Rightarrow> time \<Rightarrow> refresh_token" where
  "successor_of p i h now t = new_token_row i (rt_user_id p) h (family_id p) (now + RefreshTokenLifetime) t"

inductive step :: "sessions \<Rightarrow> sessions \<Rightarrow> bool" where
  lookup: "tx s i = Idle \<Longrightarrow> find (\<lambda>r. rt_user_id r = u \<and> token_hash r = h) (committed s) = Some p \<Longrightarrow>
    step s (enter i (Looked p) s)"
| lock: "tx s i = Looked p \<Longrightarrow> family_lock s (family_id p) = None \<Longrightarrow>
    step s (enter i (Owning p) s\<lparr>family_lock := (family_lock s)(family_id p := Some i)\<rparr>)"
| detect: "tx s i = Owning p \<Longrightarrow> \<not> live p \<Longrightarrow>
    step s (enter i (Burning p (live_ids (rt_user_id p) (family_id p) (committed s))) s)"
| burn: "tx s i = Burning p ids \<Longrightarrow>
    step s (finish_tx i s\<lparr>committed := revoke_ids ids t (committed s), alarms := insert (family_id p) (alarms s)\<rparr>)"
| stale: "tx s i = Owning p \<Longrightarrow> live p \<Longrightarrow> expired now p \<Longrightarrow> step s (finish_tx i s)"
| spend: "tx s i = Owning p \<Longrightarrow> live p \<Longrightarrow> \<not> expired now p \<Longrightarrow> r \<in> set (committed s) \<Longrightarrow>
    rt_user_id r = rt_user_id p \<Longrightarrow> rt_id r = rt_id p \<Longrightarrow> live r \<Longrightarrow> step s (enter i (Spent p) s)"
| lost: "tx s i = Owning p \<Longrightarrow> live p \<Longrightarrow> \<not> expired now p \<Longrightarrow>
    (\<And>r. r \<in> set (committed s) \<Longrightarrow> rt_user_id r = rt_user_id p \<Longrightarrow> rt_id r = rt_id p \<Longrightarrow> \<not> live r) \<Longrightarrow>
    step s (finish_tx i s)"
| insert_successor: "tx s i = Spent p \<Longrightarrow> step s (enter i (Inserted p (successor_of p new h now t)) s)"
| commit: "tx s i = Inserted p new \<Longrightarrow> rt_id new \<notin> set (map rt_id (committed s)) \<Longrightarrow>
    token_hash new \<notin> set (map token_hash (committed s)) \<Longrightarrow>
    step s (finish_tx i s\<lparr>committed := link_to (rt_id p) (rt_id new) (revoke_ids [rt_id p] t (committed s) @ [new]),
      wins := wins s @ [rt_id p]\<rparr>)"
| abort: "step s (finish_tx i s)"
| login: "row = new_token_row new u h fam (now + RefreshTokenLifetime) t \<Longrightarrow> new \<notin> set (map rt_id (committed s)) \<Longrightarrow>
    h \<notin> set (map token_hash (committed s)) \<Longrightarrow> fam \<notin> set (map family_id (committed s)) \<Longrightarrow> fam \<notin> alarms s \<Longrightarrow>
    step s (s\<lparr>committed := committed s @ [row]\<rparr>)"

text \<open>\<open>alarms\<close> and \<open>wins\<close> only record: the families whose reuse was committed, and the rows whose
  rotation was.\<close>

definition start :: "refresh_token list \<Rightarrow> sessions" where
  "start ts = \<lparr>committed = ts, family_lock = (\<lambda>_. None), tx = (\<lambda>_. Idle), alarms = {}, wins = []\<rparr>"

definition reachable :: "refresh_token list \<Rightarrow> sessions \<Rightarrow> bool" where
  "reachable ts s \<longleftrightarrow> step\<^sup>*\<^sup>* (start ts) s"

section \<open>The invariant\<close>

text \<open>The row a transaction read is still in the table under the same keys; it can only have died since.\<close>

definition still_there :: "refresh_token \<Rightarrow> refresh_token list \<Rightarrow> bool" where
  "still_there p ts \<longleftrightarrow> (\<exists>r \<in> set ts. rt_id r = rt_id p \<and> rt_user_id r = rt_user_id p \<and> family_id r = family_id p
     \<and> (live r \<longrightarrow> live p))"

definition is_live :: "refresh_token \<Rightarrow> refresh_token list \<Rightarrow> bool" where
  "is_live p ts \<longleftrightarrow> (\<exists>r \<in> set ts. rt_id r = rt_id p \<and> rt_user_id r = rt_user_id p \<and> family_id r = family_id p \<and> live r)"

definition is_spent :: "uuid \<Rightarrow> refresh_token list \<Rightarrow> bool" where
  "is_spent i ts \<longleftrightarrow> (\<exists>r \<in> set ts. rt_id r = i \<and> \<not> live r)"

text \<open>What a transaction's progress promises about the table, and whether it holds its family's lock.\<close>

fun phase_ok :: "phase \<Rightarrow> refresh_token list \<Rightarrow> bool" where
  "phase_ok Idle ts \<longleftrightarrow> True"
| "phase_ok (Looked p) ts \<longleftrightarrow> still_there p ts"
| "phase_ok (Owning p) ts \<longleftrightarrow> still_there p ts"
| "phase_ok (Burning p ids) ts \<longleftrightarrow> still_there p ts
     \<and> (\<forall>r \<in> set ts. family_id r = family_id p \<and> live r \<longrightarrow> rt_id r \<in> set ids)
     \<and> (\<forall>j \<in> set ids. \<exists>r \<in> set ts. rt_id r = j \<and> family_id r = family_id p)"
| "phase_ok (Spent p) ts \<longleftrightarrow> is_live p ts"
| "phase_ok (Inserted p new) ts \<longleftrightarrow> is_live p ts \<and> live new \<and> replaced_by new = None
     \<and> family_id new = family_id p \<and> rt_user_id new = rt_user_id p"

fun lock_of :: "phase \<Rightarrow> uuid option" where
  "lock_of Idle = None"
| "lock_of (Looked p) = None"
| "lock_of (Owning p) = Some (family_id p)"
| "lock_of (Burning p ids) = Some (family_id p)"
| "lock_of (Spent p) = Some (family_id p)"
| "lock_of (Inserted p new) = Some (family_id p)"

definition inv :: "sessions \<Rightarrow> bool" where
  "inv s \<longleftrightarrow> tokens_ok (committed s) \<and> families_owned (committed s)
     \<and> (\<forall>i. phase_ok (tx s i) (committed s))
     \<and> (\<forall>i fam. lock_of (tx s i) = Some fam \<longleftrightarrow> family_lock s fam = Some i)
     \<and> (\<forall>fam \<in> alarms s. dead_family fam (committed s))
     \<and> distinct (wins s) \<and> (\<forall>i \<in> set (wins s). is_spent i (committed s))"

text \<open>How the table changes when one transaction commits: rows of other families are untouched, and
  within its family rows keep their keys and only die, apart from new ones.\<close>

definition within :: "uuid \<Rightarrow> refresh_token list \<Rightarrow> refresh_token list \<Rightarrow> bool" where
  "within fam ts ts' \<longleftrightarrow> (\<forall>r. family_id r \<noteq> fam \<longrightarrow> (r \<in> set ts' \<longleftrightarrow> r \<in> set ts))
     \<and> (\<forall>r \<in> set ts. \<exists>r' \<in> set ts'. rt_id r' = rt_id r \<and> rt_user_id r' = rt_user_id r
          \<and> family_id r' = family_id r \<and> (live r' \<longrightarrow> live r))"

lemma still_there_within: "within fam ts ts' \<Longrightarrow> still_there p ts \<Longrightarrow> still_there p ts'"
  unfolding within_def still_there_def by metis

lemma is_live_within: "within fam ts ts' \<Longrightarrow> family_id p \<noteq> fam \<Longrightarrow> is_live p ts \<Longrightarrow> is_live p ts'"
  unfolding within_def is_live_def by metis

lemma is_spent_within: "within fam ts ts' \<Longrightarrow> is_spent i ts \<Longrightarrow> is_spent i ts'"
  unfolding within_def is_spent_def by metis

lemma dead_within: "within fam ts ts' \<Longrightarrow> fam' \<noteq> fam \<Longrightarrow> dead_family fam' ts \<Longrightarrow> dead_family fam' ts'"
  unfolding within_def dead_family_def by metis

lemma phase_ok_within:
  "within fam ts ts' \<Longrightarrow> lock_of ph \<noteq> Some fam \<Longrightarrow> phase_ok ph ts \<Longrightarrow> phase_ok ph ts'"
proof (cases ph)
  case (Burning p ids)
  assume w: "within fam ts ts'" and l: "lock_of ph \<noteq> Some fam" and ok: "phase_ok ph ts"
  from l Burning have ne: "family_id p \<noteq> fam" by simp
  from ok Burning have there: "still_there p ts'" using still_there_within [OF w] by simp
  have "rt_id r \<in> set ids" if "r \<in> set ts'" "family_id r = family_id p" "live r" for r
    using that w ne ok Burning unfolding within_def by auto
  moreover have "\<exists>r \<in> set ts'. rt_id r = j \<and> family_id r = family_id p" if "j \<in> set ids" for j
  proof -
    from ok Burning that obtain r where "r \<in> set ts" "rt_id r = j" "family_id r = family_id p" by auto
    with w show ?thesis unfolding within_def by metis
  qed
  ultimately show ?thesis using Burning there by simp
qed (auto intro: still_there_within is_live_within)

lemma inv_enter:
  "inv s \<Longrightarrow> phase_ok ph (committed s) \<Longrightarrow> lock_of ph = lock_of (tx s i) \<Longrightarrow> inv (enter i ph s)"
  unfolding inv_def enter_def by auto

lemma inv_finish: "inv s \<Longrightarrow> inv (finish_tx i s)"
  unfolding inv_def finish_tx_def by auto

lemma inv_lock:
  assumes "inv s" and "tx s i = Looked p" and "family_lock s (family_id p) = None"
  shows "inv (enter i (Owning p) s\<lparr>family_lock := (family_lock s)(family_id p := Some i)\<rparr>)"
proof -
  have "lock_of (tx s j) \<noteq> Some (family_id p)" for j using assms(1,3) unfolding inv_def by fastforce
  moreover have "phase_ok (Owning p) (committed s)" using assms(1,2) unfolding inv_def by (metis phase_ok.simps(2,3))
  moreover have "family_lock s fam \<noteq> Some i" for fam
    using assms(1,2) unfolding inv_def by (metis lock_of.simps(2) option.distinct(1))
  ultimately show ?thesis using assms unfolding inv_def enter_def by auto
qed

text \<open>A change of the table inside a family nobody holds the lock of.\<close>

lemma inv_table:
  assumes inv: "inv s" and free: "family_lock s fam = None" and w: "within fam (committed s) ts"
    and ok: "tokens_ok ts" "families_owned ts" and al: "\<forall>f \<in> al. f \<in> alarms s \<and> f \<noteq> fam \<or> dead_family f ts"
    and wi: "distinct wi" "\<forall>j \<in> set wi. j \<in> set (wins s) \<or> is_spent j ts"
  shows "inv (s\<lparr>committed := ts, alarms := al, wins := wi\<rparr>)"
proof -
  have "lock_of (tx s j) \<noteq> Some fam" for j using inv free unfolding inv_def by fastforce
  then have "phase_ok (tx s j) ts" for j
    using inv phase_ok_within [OF w] unfolding inv_def by blast
  moreover have "dead_family f ts" if "f \<in> al" for f
    using that al inv dead_within [OF w] unfolding inv_def by blast
  moreover have "is_spent j ts" if "j \<in> set wi" for j
    using that wi(2) inv is_spent_within [OF w] unfolding inv_def by blast
  ultimately show ?thesis using inv ok wi(1) unfolding inv_def by simp
qed

lemma is_live_unique:
  assumes "tokens_ok ts" and "is_live p ts" and "r \<in> set ts" and "rt_id r = rt_id p"
  shows "rt_user_id r = rt_user_id p \<and> family_id r = family_id p \<and> live r"
  using assms distinct_map_key [of rt_id ts] unfolding tokens_ok_def is_live_def by metis

lemma owned_keys:
  assumes "families_owned ts" and "\<And>r. r \<in> set ts' \<Longrightarrow> \<exists>q \<in> set ts. family_id r = family_id q \<and> rt_user_id r = rt_user_id q"
  shows "families_owned ts'"
  using assms unfolding families_owned_def by metis

lemma within_append:
  assumes "family_id row = fam"
  shows "within fam ts (ts @ [row])"
  unfolding within_def
proof (intro conjI allI impI ballI)
  fix r :: refresh_token assume "family_id r \<noteq> fam"
  with assms have "r \<noteq> row" by blast
  then show "r \<in> set (ts @ [row]) \<longleftrightarrow> r \<in> set ts" by simp
next
  fix r assume "r \<in> set ts"
  then show "\<exists>r' \<in> set (ts @ [row]). rt_id r' = rt_id r \<and> rt_user_id r' = rt_user_id r \<and> family_id r' = family_id r
      \<and> (live r' \<longrightarrow> live r)"
    by (intro bexI [of _ r]) simp_all
qed

lemma within_trans: "within fam ts ts' \<Longrightarrow> within fam ts' ts'' \<Longrightarrow> within fam ts ts''"
  unfolding within_def by metis

lemma within_link:
  assumes "\<And>r. r \<in> set ts \<Longrightarrow> rt_id r = i \<Longrightarrow> family_id r = fam"
  shows "within fam ts (link_to i new ts)"
proof -
  let ?f = "\<lambda>r. if rt_id r = i then r\<lparr>replaced_by := Some new\<rparr> else r"
  have "r \<in> set (map ?f ts) \<longleftrightarrow> r \<in> set ts" if "family_id r \<noteq> fam" for r
    using that assms by (auto simp: image_iff)
  moreover have "\<exists>r' \<in> set (map ?f ts). rt_id r' = rt_id r \<and> rt_user_id r' = rt_user_id r \<and> family_id r' = family_id r
      \<and> (live r' \<longrightarrow> live r)" if "r \<in> set ts" for r
    using that by (intro bexI [of _ "?f r"]) (auto simp: live_def)
  ultimately show ?thesis unfolding within_def link_to_def by blast
qed

lemma owned_append:
  assumes "families_owned ts" and "\<And>q. q \<in> set ts \<Longrightarrow> family_id q = family_id row \<Longrightarrow> rt_user_id q = rt_user_id row"
  shows "families_owned (ts @ [row])"
  unfolding families_owned_def
proof (intro ballI impI)
  fix r q assume "r \<in> set (ts @ [row])" "q \<in> set (ts @ [row])" and eq: "family_id r = family_id q"
  then consider "r \<in> set ts" "q \<in> set ts" | "r = row" "q \<in> set ts" | "r \<in> set ts" "q = row" | "r = row" "q = row" by auto
  then show "rt_user_id r = rt_user_id q"
  proof cases
    case 1
    with assms(1) eq show ?thesis unfolding families_owned_def by blast
  next
    case 2
    with assms(2) [of q] eq show ?thesis by simp
  next
    case 3
    with assms(2) [of r] eq show ?thesis by simp
  qed simp
qed

lemma owned_link: "families_owned ts \<Longrightarrow> families_owned (link_to i new ts)"
  by (erule owned_keys) (drule set_link_to, blast)

lemma owned_revoke: "families_owned ts \<Longrightarrow> families_owned (revoke_where P t ts)"
  by (erule owned_keys) (drule set_revoke_where, blast)

lemma within_revoke:
  assumes "\<And>r. r \<in> set ts \<Longrightarrow> P r \<Longrightarrow> family_id r = fam"
  shows "within fam ts (revoke_where P t ts)"
proof -
  let ?f = "\<lambda>r. if P r then r\<lparr>revoked_at := Some t\<rparr> else r"
  have "r \<in> set (map ?f ts) \<longleftrightarrow> r \<in> set ts" if "family_id r \<noteq> fam" for r
    using that assms by (auto simp: image_iff)
  moreover have "\<exists>r' \<in> set (map ?f ts). rt_id r' = rt_id r \<and> rt_user_id r' = rt_user_id r \<and> family_id r' = family_id r
      \<and> (live r' \<longrightarrow> live r)" if "r \<in> set ts" for r
    using that by (intro bexI [of _ "?f r"]) (auto simp: live_def)
  ultimately show ?thesis unfolding within_def revoke_where_def by blast
qed

section \<open>Every step keeps the invariant\<close>

lemma phase_of: "inv s \<Longrightarrow> phase_ok (tx s i) (committed s)"
  unfolding inv_def by blast

lemma released: "inv s \<Longrightarrow> lock_of (tx s i) = Some fam \<Longrightarrow> family_lock (finish_tx i s) fam = None"
  unfolding inv_def finish_tx_def by simp

lemma still_there_find: "find P ts = Some p \<Longrightarrow> still_there p ts"
  by (auto simp: still_there_def dest: find_member)

lemma inv_burn:
  assumes inv: "inv s" and i: "tx s i = Burning p ids"
  shows "inv (finish_tx i s\<lparr>committed := revoke_ids ids t (committed s), alarms := insert (family_id p) (alarms s)\<rparr>)"
proof -
  let ?ts = "committed s" and ?ts' = "revoke_ids ids t (committed s)" and ?fam = "family_id p"
  have ph: "\<forall>r \<in> set ?ts. family_id r = ?fam \<and> live r \<longrightarrow> rt_id r \<in> set ids"
    "\<forall>j \<in> set ids. \<exists>r \<in> set ?ts. rt_id r = j \<and> family_id r = ?fam"
    using phase_of [OF inv, of i] i by simp_all
  have ok: "tokens_ok ?ts" "families_owned ?ts" using inv unfolding inv_def by simp_all
  have "family_id r = ?fam" if "r \<in> set ?ts" "rt_id r \<in> set ids \<and> live r" for r
    using that ph(2) ok(1) distinct_map_key [of rt_id ?ts] unfolding tokens_ok_def by metis
  then have w: "within ?fam ?ts ?ts'" unfolding revoke_ids_def by (rule within_revoke)
  have dead: "dead_family ?fam ?ts'"
    unfolding dead_family_def
  proof (intro ballI impI)
    fix r assume r: "r \<in> set ?ts'" "family_id r = ?fam"
    from set_revoke_where [OF r(1) [unfolded revoke_ids_def]] ph(1) r(2) show "\<not> live r" by auto
  qed
  have "families_owned ?ts'" unfolding revoke_ids_def by (rule owned_revoke [OF ok(2)])
  moreover have "tokens_ok ?ts'" unfolding revoke_ids_def by (rule revoke_where_tokens_ok [OF ok(1)])
  moreover have "family_lock (finish_tx i s) ?fam = None" using released [OF inv, of i] i by simp
  ultimately have "inv ((finish_tx i s)\<lparr>committed := ?ts', alarms := insert ?fam (alarms s), wins := wins s\<rparr>)"
    using inv inv_finish [OF inv, of i] w dead
    by (intro inv_table [where fam = ?fam]) (auto simp: finish_tx_def inv_def)
  then show ?thesis by (simp add: finish_tx_def)
qed

lemma inv_login:
  assumes inv: "inv s" and row: "row = new_token_row new u h fam e t" and "new \<notin> set (map rt_id (committed s))"
    and "h \<notin> set (map token_hash (committed s))" and fam: "fam \<notin> set (map family_id (committed s))" and "fam \<notin> alarms s"
  shows "inv (s\<lparr>committed := committed s @ [row]\<rparr>)"
proof -
  let ?ts = "committed s"
  have ok: "tokens_ok ?ts" "families_owned ?ts" using inv unfolding inv_def by simp_all
  have "fam \<notin> set (map family_id (filter live ?ts))" using fam by (simp add: image_iff)
  then have "tokens_ok (?ts @ [row])"
    by (intro tokens_ok_insert [OF ok(1)]) (use assms(3,4) in \<open>simp_all add: row\<close>)
  moreover have "families_owned (?ts @ [row])"
    by (rule owned_append [OF ok(2)]) (use fam in \<open>auto simp: row\<close>)
  moreover have "within fam ?ts (?ts @ [row])" by (rule within_append) (simp add: row)
  moreover have "family_lock s fam = None"
  proof (rule ccontr)
    assume "family_lock s fam \<noteq> None"
    then obtain j where "family_lock s fam = Some j" by blast
    then have "lock_of (tx s j) = Some fam" using inv unfolding inv_def by simp
    with phase_of [OF inv, of j] have "\<exists>r \<in> set ?ts. family_id r = fam"
      by (cases "tx s j") (auto simp: still_there_def is_live_def)
    with fam show False by auto
  qed
  ultimately have "inv (s\<lparr>committed := ?ts @ [row], alarms := alarms s, wins := wins s\<rparr>)"
    using inv assms(6) by (intro inv_table [OF inv, where fam = fam]) (auto simp: inv_def)
  then show ?thesis by simp
qed

lemma revoke_ids_keys: "map rt_id (revoke_ids ids t ts) = map rt_id ts" "map token_hash (revoke_ids ids t ts) = map token_hash ts"
  unfolding revoke_ids_def revoke_where_def by (rule map_update_same; simp)+

lemma commit_table:
  assumes ok: "tokens_ok ts" "families_owned ts" and p: "is_live p ts" and new: "live new" "replaced_by new = None"
    "family_id new = family_id p" "rt_user_id new = rt_user_id p" "rt_id new \<notin> set (map rt_id ts)"
    "token_hash new \<notin> set (map token_hash ts)"
    and ts': "ts' = link_to (rt_id p) (rt_id new) (revoke_ids [rt_id p] t ts @ [new])"
  shows "tokens_ok ts'" and "families_owned ts'" and "within (family_id p) ts ts'" and "is_spent (rt_id p) ts'"
proof -
  let ?ts1 = "revoke_ids [rt_id p] t ts" and ?P = "\<lambda>r. rt_id r \<in> set [rt_id p] \<and> live r"
  obtain r0 where r0: "r0 \<in> set ts" "rt_id r0 = rt_id p" "rt_user_id r0 = rt_user_id p" "family_id r0 = family_id p" "live r0"
    using p unfolding is_live_def by blast
  have only: "family_id r = family_id p" if "r \<in> set ts" "rt_id r = rt_id p" for r
    using is_live_unique [OF ok(1) p that] by simp
  have w1: "within (family_id p) ts ?ts1" unfolding revoke_ids_def by (rule within_revoke) (use only in auto)
  have gone: "family_id p \<notin> set (map family_id (filter live ?ts1))"
  proof
    assume "family_id p \<in> set (map family_id (filter live ?ts1))"
    then obtain r where r: "r \<in> set ?ts1" "live r" "family_id r = family_id p" by auto
    from set_revoke_where [OF r(1) [unfolded revoke_ids_def]] r(2) have rs: "r \<in> set ts" "\<not> ?P r" by auto
    have "distinct (map family_id (filter live ts))" using ok(1) unfolding tokens_ok_def by blast
    from distinct_map_key [OF this, of r r0] rs(1) r(2,3) r0 have "r = r0" by simp
    with rs(2) r0 r(2) show False by simp
  qed
  have "tokens_ok ?ts1" unfolding revoke_ids_def by (rule revoke_where_tokens_ok [OF ok(1)])
  then have ok2: "tokens_ok (?ts1 @ [new])"
    by (rule tokens_ok_insert) (use new gone in \<open>simp_all only: revoke_ids_keys not_False_eq_True\<close>)
  have "rt_id new \<in> set (map rt_id (?ts1 @ [new]))" by simp
  from tokens_ok_relink [OF ok2 this] show "tokens_ok ts'" unfolding ts' link_to_def .
  have "families_owned ?ts1" unfolding revoke_ids_def by (rule owned_revoke [OF ok(2)])
  moreover have "rt_user_id q = rt_user_id new" if q: "q \<in> set ?ts1" "family_id q = family_id new" for q
  proof -
    from set_revoke_where [OF q(1) [unfolded revoke_ids_def]] obtain s where
      "s \<in> set ts" "rt_user_id q = rt_user_id s" "family_id q = family_id s" by auto
    with ok(2) r0 q(2) new show ?thesis unfolding families_owned_def by metis
  qed
  ultimately show "families_owned ts'" unfolding ts' by (intro owned_link owned_append)
  have "family_id r = family_id p" if r: "r \<in> set (?ts1 @ [new])" "rt_id r = rt_id p" for r
  proof (cases "r = new")
    case False
    with r(1) have "r \<in> set ?ts1" by simp
    from set_revoke_where [OF this [unfolded revoke_ids_def]] only r(2) show ?thesis by auto
  qed (simp add: new)
  from within_trans [OF w1 within_trans [OF within_append within_link [OF this]]] new(3)
  show "within (family_id p) ts ts'" by (simp add: ts')
  have "r0\<lparr>revoked_at := Some t, replaced_by := Some (rt_id new)\<rparr> \<in> set ts'"
    using r0 by (auto simp: ts' link_to_def revoke_ids_def revoke_where_def image_iff intro!: bexI [of _ r0])
  then show "is_spent (rt_id p) ts'"
    unfolding is_spent_def by (rule bexI [rotated]) (simp add: r0 live_def)
qed

lemma inv_commit:
  assumes inv: "inv s" and i: "tx s i = Inserted p new" and fresh: "rt_id new \<notin> set (map rt_id (committed s))"
    "token_hash new \<notin> set (map token_hash (committed s))"
  shows "inv (finish_tx i s\<lparr>committed := link_to (rt_id p) (rt_id new) (revoke_ids [rt_id p] t (committed s) @ [new]),
      wins := wins s @ [rt_id p]\<rparr>)"
proof -
  let ?ts = "committed s"
  have ok: "tokens_ok ?ts" "families_owned ?ts" using inv unfolding inv_def by simp_all
  have ph: "is_live p ?ts" "live new" "replaced_by new = None" "family_id new = family_id p" "rt_user_id new = rt_user_id p"
    using phase_of [OF inv, of i] i by simp_all
  note table = commit_table [OF ok ph fresh refl, of t]
  obtain r where r: "r \<in> set ?ts" "rt_id r = rt_id p" "family_id r = family_id p" "live r" using ph(1) unfolding is_live_def by blast
  have "rt_id p \<notin> set (wins s)"
  proof
    assume "rt_id p \<in> set (wins s)"
    then obtain q where "q \<in> set ?ts" "rt_id q = rt_id p" "\<not> live q" using inv unfolding inv_def is_spent_def by blast
    with is_live_unique [OF ok(1) ph(1)] show False by blast
  qed
  moreover have "family_id p \<notin> alarms s"
    using inv r unfolding inv_def dead_family_def by blast
  moreover have "family_lock (finish_tx i s) (family_id p) = None" using released [OF inv, of i] i by simp
  ultimately have "inv ((finish_tx i s)\<lparr>committed := link_to (rt_id p) (rt_id new) (revoke_ids [rt_id p] t ?ts @ [new]),
      alarms := alarms s, wins := wins s @ [rt_id p]\<rparr>)"
    using inv inv_finish [OF inv, of i] table
    by (intro inv_table [where fam = "family_id p"]) (auto simp: finish_tx_def inv_def simp del: set_map)
  then show ?thesis by (simp add: finish_tx_def)
qed

lemma inv_detect:
  assumes inv: "inv s" and i: "tx s i = Owning p"
  shows "inv (enter i (Burning p (live_ids (rt_user_id p) (family_id p) (committed s))) s)"
proof (rule inv_enter [OF inv])
  have there: "still_there p (committed s)" using phase_of [OF inv, of i] i by simp
  then obtain q where q: "q \<in> set (committed s)" "family_id q = family_id p" "rt_user_id q = rt_user_id p"
    unfolding still_there_def by blast
  have "rt_user_id r = rt_user_id p" if "r \<in> set (committed s)" "family_id r = family_id p" for r
    using inv that q unfolding inv_def families_owned_def by metis
  with there show "phase_ok (Burning p (live_ids (rt_user_id p) (family_id p) (committed s))) (committed s)"
    by (auto simp: live_ids_def)
qed (simp add: i)

lemma inv_step: "step s s' \<Longrightarrow> inv s \<Longrightarrow> inv s'"
proof (induction rule: step.induct)
  case (lookup s i u h p)
  then show ?case by (intro inv_enter) (simp_all add: still_there_find)
next
  case (spend s i p now r)
  then have "still_there p (committed s)" using phase_of [of s i] by simp
  moreover have "tokens_ok (committed s)" using spend.prems unfolding inv_def by simp
  ultimately have "is_live p (committed s)"
    using spend.hyps distinct_map_key [of rt_id "committed s"] unfolding still_there_def is_live_def tokens_ok_def by metis
  with spend show ?case by (intro inv_enter) simp_all
next
  case (insert_successor s i p h new now t)
  then have "is_live p (committed s)" using phase_of [of s i] by simp
  with insert_successor show ?case
    by (intro inv_enter) (simp_all add: successor_of_def new_token_row_def live_def)
next
  case (login row new u h fam now t s)
  then show ?case by (intro inv_login) auto
qed (auto intro: inv_lock inv_detect inv_burn inv_finish inv_commit)

lemma reachable_inv:
  assumes "reachable ts s" and "tokens_ok ts" and "families_owned ts"
  shows "inv s"
  using assms(1) unfolding reachable_def
proof (induction rule: rtranclp_induct)
  case base
  with assms show ?case by (simp add: inv_def start_def)
qed (rule inv_step)

section \<open>What the lock buys\<close>

text \<open>C8: Under every interleaving of rotations and logins, with any of them failing anywhere, no family
  ever has two live tokens, a family whose reuse was reported has none, and no row is rotated twice;
  the family lock alone keeps the table within its unique index, which no commit here relies on.\<close>

theorem concurrent_rotations_safe:
  assumes "reachable ts s" and "tokens_ok ts" and "families_owned ts"
  shows "distinct (map family_id (filter live (committed s)))
    \<and> (\<forall>fam \<in> alarms s. \<forall>r \<in> set (committed s). family_id r = fam \<longrightarrow> \<not> live r)
    \<and> distinct (wins s)"
  using reachable_inv [OF assms] unfolding inv_def tokens_ok_def dead_family_def by blast

text \<open>A transaction that waits for a family's lock waits for one that is past its last wait.\<close>

lemma holder_can_finish:
  assumes "inv s" and "family_lock s fam = Some j"
  shows "lock_of (tx s j) = Some fam \<and> (\<exists>s'. step s s' \<and> family_lock s' fam = None)"
proof
  show l: "lock_of (tx s j) = Some fam" using assms unfolding inv_def by simp
  have "family_lock (finish_tx j s) fam = None" by (rule released [OF assms(1) l])
  with step.abort [of s j] show "\<exists>s'. step s s' \<and> family_lock s' fam = None" by blast
qed

text \<open>No interleaving is stuck: whatever is going on, a transaction waiting for a family's lock gets it
  after at most one more transaction has ended.\<close>

lemma waiting_rotation_proceeds:
  assumes "reachable ts s" and "tokens_ok ts" and "families_owned ts" and "tx s i = Looked p"
  shows "\<exists>s' s''. (s' = s \<or> step s s') \<and> tx s' i = Looked p \<and> step s' s'' \<and> tx s'' i = Owning p"
proof -
  have inv: "inv s" by (rule reachable_inv [OF assms(1-3)])
  show ?thesis
  proof (cases "family_lock s (family_id p)")
    case None
    have "tx (enter i (Owning p) s\<lparr>family_lock := (family_lock s)(family_id p := Some i)\<rparr>) i = Owning p"
      by (simp add: enter_def)
    with step.lock [OF assms(4) None] assms(4) show ?thesis by blast
  next
    case (Some j)
    have "j \<noteq> i" using holder_can_finish [OF inv Some] assms(4) by auto
    then have "tx (finish_tx j s) i = Looked p" "family_lock (finish_tx j s) (family_id p) = None"
      using assms(4) Some by (auto simp: finish_tx_def)
    note waits = this
    let ?s = "finish_tx j s"
    have "tx (enter i (Owning p) ?s\<lparr>family_lock := (family_lock ?s)(family_id p := Some i)\<rparr>) i = Owning p"
      by (simp add: enter_def)
    with step.lock [OF waits] step.abort [of s j] waits(1) show ?thesis by blast
  qed
qed

section \<open>A rotation on its own is one of the schedules\<close>

lemma revoke_where_cong': "(\<And>r. r \<in> set ts \<Longrightarrow> P r \<longleftrightarrow> Q r) \<Longrightarrow> revoke_where P t ts = revoke_where Q t ts"
  by (auto simp: revoke_where_def)

lemma sequential_schedule:
  assumes "rotation_spec H u h now t ts out ts'" and ok: "tokens_ok ts"
    and s: "tx s i = Idle" "\<And>fam. family_lock s fam = None" "committed s = ts"
  shows "\<exists>s'. step\<^sup>*\<^sup>* s s' \<and> committed s' = ts' \<and> tx s' i = Idle"
  using assms(1)
proof cases
  case (reused p)
  let ?s1 = "enter i (Looked p) s"
  let ?s2 = "enter i (Owning p) ?s1\<lparr>family_lock := (family_lock ?s1)(family_id p := Some i)\<rparr>"
  let ?s3 = "enter i (Burning p (live_ids (rt_user_id p) (family_id p) (committed ?s2))) ?s2"
  let ?s4 = "finish_tx i ?s3\<lparr>committed := revoke_ids (live_ids (rt_user_id p) (family_id p) (committed ?s2)) t (committed ?s3),
      alarms := insert (family_id p) (alarms ?s3)\<rparr>"
  have "step s ?s1" using reused s by (intro step.lookup) simp_all
  moreover have "step ?s1 ?s2" using s by (intro step.lock) (simp_all add: enter_def)
  moreover have "step ?s2 ?s3" using reused by (intro step.detect) (simp_all add: enter_def)
  moreover have "step ?s3 ?s4" by (intro step.burn) (simp add: enter_def)
  ultimately have "step\<^sup>*\<^sup>* s ?s4" by (meson converse_rtranclp_into_rtranclp rtranclp.rtrancl_refl)
  moreover have "revoke_ids (live_ids (rt_user_id p) (family_id p) ts) t ts = ts'"
    unfolding reused(2) revoke_ids_def using reused(3) ok distinct_map_key [of rt_id ts]
    by (intro revoke_where_cong') (auto simp: live_ids_def tokens_ok_def dest: find_member)
  then have "committed ?s4 = ts'" "tx ?s4 i = Idle" using s by (simp_all add: enter_def finish_tx_def)
  ultimately show ?thesis by blast
next
  case (fresh p j secret)
  let ?new = "successor_of p j (H secret) now t"
  let ?s1 = "enter i (Looked p) s"
  let ?s2 = "enter i (Owning p) ?s1\<lparr>family_lock := (family_lock ?s1)(family_id p := Some i)\<rparr>"
  let ?s3 = "enter i (Spent p) ?s2"
  let ?s4 = "enter i (Inserted p ?new) ?s3"
  let ?s5 = "finish_tx i ?s4\<lparr>committed := link_to (rt_id p) (rt_id ?new) (revoke_ids [rt_id p] t (committed ?s4) @ [?new]),
      wins := wins ?s4 @ [rt_id p]\<rparr>"
  have p: "p \<in> set ts" "rt_user_id p = u" using fresh(3) by (auto dest: find_member)
  have "step s ?s1" using fresh s by (intro step.lookup) simp_all
  moreover have "step ?s1 ?s2" using s by (intro step.lock) (simp_all add: enter_def)
  moreover have "step ?s2 ?s3" using fresh p s by (intro step.spend [where r = p]) (simp_all add: enter_def)
  moreover have "step ?s3 ?s4" by (intro step.insert_successor) (simp add: enter_def)
  moreover have "step ?s4 ?s5" using fresh s
    by (intro step.commit) (simp_all add: enter_def successor_of_def)
  ultimately have "step\<^sup>*\<^sup>* s ?s5" by (meson converse_rtranclp_into_rtranclp rtranclp.rtrancl_refl)
  moreover have "revoke_ids [rt_id p] t ts = revoke_where (\<lambda>r. rt_id r = rt_id p) t ts"
    unfolding revoke_ids_def using p fresh(4) ok distinct_map_key [of rt_id ts]
    by (intro revoke_where_cong') (auto simp: tokens_ok_def)
  then have "committed ?s5 = ts'" "tx ?s5 i = Idle"
    using s p fresh(2) by (simp_all add: enter_def finish_tx_def successor_of_def)
  ultimately show ?thesis by blast
qed (use s in \<open>auto intro!: exI [of _ s]\<close>)

text \<open>A table with one live token: after its rotation the successor is the family's only live row.\<close>

theorem concurrent_rotations_safe_witness:
  "\<exists>s. reachable [sample_token] s \<and> length (committed s) = 2 \<and> distinct (map family_id (filter live (committed s)))
    \<and> distinct (wins s)"
proof -
  have ok: "tokens_ok [sample_token]" "families_owned [sample_token]"
    using sample_ok by (simp_all add: sample_db_def)
  have "rotation_spec (\<lambda>x. x) 7 ''old'' 100 50 [sample_token] (rotated (FormatRefreshCookie 7 ''new''))
      (link_to (rt_id sample_token) 12 (revoke_where (\<lambda>r. rt_id r = rt_id sample_token) 50 [sample_token]
        @ [new_token_row 12 7 ''new'' (family_id sample_token) (100 + RefreshTokenLifetime) 50]))"
    by (rule rotation_spec.fresh) (simp_all add: sample_token_def live_def expired_def)
  from sequential_schedule [OF this ok(1), of "start [sample_token]" 0]
  obtain s where s: "step\<^sup>*\<^sup>* (start [sample_token]) s" and c: "committed s = link_to (rt_id sample_token) 12
      (revoke_where (\<lambda>r. rt_id r = rt_id sample_token) 50 [sample_token]
        @ [new_token_row 12 7 ''new'' (family_id sample_token) (100 + RefreshTokenLifetime) 50])"
    by (auto simp: start_def)
  from s have r: "reachable [sample_token] s" by (simp add: reachable_def)
  have "length (committed s) = 2" unfolding c by (simp add: link_to_def revoke_where_def)
  with r concurrent_rotations_safe [OF r ok] show ?thesis by blast
qed

end
