(* ===== verification/SqlLib.thy ===== *)
theory SqlLib imports AuthStmts
begin

text \<open>
  What the statements of the query layer share: the three application roles and the door each
  opens (the scope its policies compare with), the order constraints are checked in, ORDER BY, and
  running a statement on the connection. What PostgreSQL computes on values (casts, jsonb, citext,
  collation) is the parameter record \<open>sql_env\<close>.
\<close>

record sql_env =
  cast_uuid :: "string \<Rightarrow> uuid option"
  text_ok :: "string \<Rightarrow> bool"
  jsonb_in :: "bytes \<Rightarrow> bytes option"
  jsonb_contains :: "bytes \<Rightarrow> bytes \<Rightarrow> bool"
  same_email :: "string \<Rightarrow> string \<Rightarrow> bool"
  text_le :: "string \<Rightarrow> string \<Rightarrow> bool"

section \<open>Roles and doors\<close>

text \<open>
  Migrations 00001 and 00013 create three roles. \<^verbatim>\<open>app_tenant\<close> is scoped by
  \<^verbatim>\<open>app.shelter_id\<close>, \<^verbatim>\<open>app_auth\<close> by \<^verbatim>\<open>app.user_id\<close>, and \<^verbatim>\<open>app_public\<close> has no scope. A scope
  that is not set is NULL, which no policy's comparison is true of.
\<close>

datatype role = App_tenant | App_public | App_auth

datatype door = TenantDoor "uuid option" | PublicDoor | AuthDoor "uuid option"

definition scope_of :: "sql_env \<Rightarrow> string \<Rightarrow> ('d, 'z) pgconn_scheme \<Rightarrow> db_err + uuid option" where
  "scope_of env n c =
     (case current_setting c n of
        None \<Rightarrow> Inr None
      | Some v \<Rightarrow> (case cast_uuid env v of None \<Rightarrow> Inl BadScope | Some u \<Rightarrow> Inr (Some u)))"

definition door_of :: "sql_env \<Rightarrow> role \<Rightarrow> ('d, 'z) pgconn_scheme \<Rightarrow> db_err + door" where
  "door_of env role c =
     (case role of
        App_tenant \<Rightarrow> map_sum id TenantDoor (scope_of env ''app.shelter_id'' c)
      | App_public \<Rightarrow> Inr PublicDoor
      | App_auth \<Rightarrow> map_sum id AuthDoor (scope_of env ''app.user_id'' c))"

text \<open>The policy \<^verbatim>\<open>tenant_isolation\<close>, the same on every tenant table: the row is the scope's shelter's.\<close>

definition own :: "door \<Rightarrow> uuid \<Rightarrow> bool" where
  "own d shelter \<longleftrightarrow> d = TenantDoor (Some shelter)"

definition is_tenant :: "door \<Rightarrow> bool" where
  "is_tenant d = (case d of TenantDoor s \<Rightarrow> True | _ \<Rightarrow> False)"

definition is_auth :: "door \<Rightarrow> bool" where
  "is_auth d = (case d of AuthDoor s \<Rightarrow> True | _ \<Rightarrow> False)"

text \<open>A table only \<^verbatim>\<open>app_tenant\<close> has a grant on.\<close>

definition tenant_only :: "door \<Rightarrow> (db_err + 'a) \<Rightarrow> db_err + 'a" where
  "tenant_only d r = (if is_tenant d then r else Inl InsufficientPrivilege)"

lemma own_simps [simp]: "own (TenantDoor (Some u)) v \<longleftrightarrow> v = u" "\<not> own (TenantDoor None) v"
  "\<not> own PublicDoor v" "\<not> own (AuthDoor s) v"
  by (auto simp: own_def)

lemma own_tenant: "own d v \<Longrightarrow> is_tenant d"
  by (auto simp: own_def is_tenant_def)

lemma door_kinds [simp]: "is_tenant (TenantDoor s)" "\<not> is_tenant PublicDoor" "\<not> is_tenant (AuthDoor s)"
  "is_auth (AuthDoor s)" "\<not> is_auth PublicDoor" "\<not> is_auth (TenantDoor s)"
  by (simp_all add: is_tenant_def is_auth_def)

lemma tenant_only_simps [simp]: "tenant_only (TenantDoor s) r = r"
  "tenant_only PublicDoor r = Inl InsufficientPrivilege" "tenant_only (AuthDoor s) r = Inl InsufficientPrivilege"
  by (simp_all add: tenant_only_def)

lemma tenant_only_Inr: "tenant_only d r = Inr x \<longleftrightarrow> is_tenant d \<and> r = Inr x"
  by (simp add: tenant_only_def)

section \<open>Constraints\<close>

text \<open>A statement fails with the first of its checks that does: policy, NOT NULL, CHECK, unique, foreign key.\<close>

primrec guarded :: "(bool \<times> db_err) list \<Rightarrow> (db_err + 'a) \<Rightarrow> db_err + 'a" where
  "guarded [] r = r"
| "guarded (c # cs) r = (if fst c then Inl (snd c) else guarded cs r)"

lemma guarded_Inr: "guarded cs r = Inr x \<longleftrightarrow> (\<forall>c \<in> set cs. \<not> fst c) \<and> r = Inr x"
  by (induction cs) auto

text \<open>A jsonb parameter: a nil slice is NULL, and text that is not JSON is refused with the parameters.\<close>

definition with_json :: "sql_env \<Rightarrow> bytes option \<Rightarrow> (bytes option \<Rightarrow> db_err + 'a) \<Rightarrow> db_err + 'a" where
  "with_json env p k =
     (case p of
        None \<Rightarrow> k None
      | Some b \<Rightarrow> (case jsonb_in env b of None \<Rightarrow> Inl BadJson | Some v \<Rightarrow> k (Some v)))"

lemma with_json_Inr: "with_json env p k = Inr x \<longleftrightarrow>
    (p = None \<and> k None = Inr x) \<or> (\<exists>b v. p = Some b \<and> jsonb_in env b = Some v \<and> k (Some v) = Inr x)"
  by (auto simp: with_json_def split: option.splits)

text \<open>\<^verbatim>\<open>length(text)\<close> counts characters: the bytes of valid UTF-8 that do not continue one.\<close>

definition char_length :: "string \<Rightarrow> nat" where
  "char_length s = length (filter (\<lambda>c. nat_of_byte c div 64 \<noteq> 2) s)"

section \<open>Rows\<close>

text \<open>ORDER BY: a stable insertion sort. SQL leaves the order of ties open; here it is table order.\<close>

fun insert_by :: "('a \<Rightarrow> 'a \<Rightarrow> bool) \<Rightarrow> 'a \<Rightarrow> 'a list \<Rightarrow> 'a list" where
  "insert_by le x [] = [x]"
| "insert_by le x (y # ys) = (if le x y then x # y # ys else y # insert_by le x ys)"

definition order_by :: "('a \<Rightarrow> 'a \<Rightarrow> bool) \<Rightarrow> 'a list \<Rightarrow> 'a list" where
  "order_by le xs = foldr (insert_by le) xs []"

fun desc_nulls_first :: "time option \<Rightarrow> time option \<Rightarrow> bool" where
  "desc_nulls_first None b = True"
| "desc_nulls_first (Some x) None = False"
| "desc_nulls_first (Some x) (Some y) \<longleftrightarrow> y \<le> x"

fun desc_nulls_last :: "time option \<Rightarrow> time option \<Rightarrow> bool" where
  "desc_nulls_last a None = True"
| "desc_nulls_last None (Some y) = False"
| "desc_nulls_last (Some x) (Some y) \<longleftrightarrow> y \<le> x"

fun asc_nulls_last :: "('a \<Rightarrow> 'a \<Rightarrow> bool) \<Rightarrow> 'a option \<Rightarrow> 'a option \<Rightarrow> bool" where
  "asc_nulls_last le a None = True"
| "asc_nulls_last le None (Some y) = False"
| "asc_nulls_last le (Some x) (Some y) \<longleftrightarrow> le x y"

definition first_row :: "'a list \<Rightarrow> 'a option" where
  "first_row xs = (case xs of [] \<Rightarrow> None | x # _ \<Rightarrow> Some x)"

definition update_rows :: "('r \<Rightarrow> bool) \<Rightarrow> ('r \<Rightarrow> 'r) \<Rightarrow> 'r list \<Rightarrow> 'r list" where
  "update_rows P f rows = map (\<lambda>r. if P r then f r else r) rows"

definition count_rows :: "('r \<Rightarrow> bool) \<Rightarrow> 'r list \<Rightarrow> nat" where
  "count_rows P rows = length (filter P rows)"

lemma set_insert_by [simp]: "set (insert_by le x ys) = insert x (set ys)"
  by (induction ys) auto

lemma set_order_by [simp]: "set (order_by le xs) = set xs"
  unfolding order_by_def by (induction xs) simp_all

lemma length_insert_by [simp]: "length (insert_by le x ys) = Suc (length ys)"
  by (induction ys) auto

lemma length_order_by [simp]: "length (order_by le xs) = length xs"
  unfolding order_by_def by (induction xs) simp_all

lemma sorted_insert_by:
  assumes "sorted_wrt le ys" and "\<And>a b. le a b \<or> le b a" and "\<And>a b c. le a b \<Longrightarrow> le b c \<Longrightarrow> le a c"
  shows "sorted_wrt le (insert_by le x ys)"
  using assms(1)
proof (induction ys)
  case (Cons y ys)
  then show ?case using assms(2,3) by (auto intro: assms(3))
qed simp

lemma sorted_order_by:
  assumes "\<And>a b. le a b \<or> le b a" and "\<And>a b c. le a b \<Longrightarrow> le b c \<Longrightarrow> le a c"
  shows "sorted_wrt le (order_by le xs)"
proof (induction xs)
  case (Cons x xs)
  with sorted_insert_by [where le = le, OF _ assms] show ?case by (simp add: order_by_def)
qed (simp add: order_by_def)

lemma nulls_total:
  "desc_nulls_first a b \<or> desc_nulls_first b a" "desc_nulls_last a b \<or> desc_nulls_last b a"
  by (cases a; cases b; auto)+

lemma nulls_trans:
  "desc_nulls_first a b \<Longrightarrow> desc_nulls_first b c \<Longrightarrow> desc_nulls_first a c"
  "desc_nulls_last a b \<Longrightarrow> desc_nulls_last b c \<Longrightarrow> desc_nulls_last a c"
  by (cases a; cases b; cases c; auto)+

lemma first_row_member: "first_row xs = Some x \<Longrightarrow> x \<in> set xs"
  by (cases xs) (auto simp: first_row_def)

lemma first_row_None [simp]: "first_row xs = None \<longleftrightarrow> xs = []"
  by (cases xs) (auto simp: first_row_def)

lemma set_update_rows: "set (update_rows P f rows) = f ` {r \<in> set rows. P r} \<union> {r \<in> set rows. \<not> P r}"
  by (auto simp: update_rows_def)

lemma filter_update_rows:
  "(\<And>r. P r \<Longrightarrow> r \<in> set rows \<Longrightarrow> \<not> Q r \<and> \<not> Q (f r)) \<Longrightarrow> filter Q (update_rows P f rows) = filter Q rows"
  unfolding update_rows_def by (induction rows) auto

section \<open>Running a statement\<close>

definition run_as ::
  "sql_env \<Rightarrow> role \<Rightarrow> bool \<Rightarrow> string list \<Rightarrow> (door \<Rightarrow> 'd \<Rightarrow> db_err + 'a \<times> 'd)
   \<Rightarrow> ('d, 'z) pgconn_scheme \<Rightarrow> (db_err + 'a) \<times> ('d, 'z) pgconn_scheme" where
  "run_as env role writes texts f c =
     run_stmt writes
       (\<lambda>db. if \<not> list_all (text_ok env) texts then Inl BadText
             else case door_of env role c of Inl e \<Rightarrow> Inl e | Inr d \<Rightarrow> f d db) c"

text \<open>The text parameters of a statement, without the NULL ones.\<close>

definition given :: "string option list \<Rightarrow> string list" where
  "given ts = map the (filter (\<lambda>t. t \<noteq> None) ts)"

text \<open>Inside \<^verbatim>\<open>WithTenant\<close> the door is the shelter's.\<close>

lemma tenant_door:
  assumes "scoped_start ''app.shelter_id'' (str u) c c1" and "str u \<noteq> []" and "cast_uuid env (str u) = Some u"
  shows "door_of env App_tenant c1 = Inr (TenantDoor (Some u))"
  using assms scoped_start_setting [OF assms(1), of "''app.shelter_id''"]
  by (simp add: door_of_def scope_of_def nullif_empty_def)

lemma with_tenant_scope: "WithTenant str pg_driver u fn c
    = with_scope ErrNoTenant (SetConfig ''app.shelter_id'' True) str pg_driver u fn c"
  by (simp add: WithTenant_scope setScopeSQL_def)

end
