(* ===== verification/TenantDb.thy ===== *)
theory TenantDb imports SqlLib
begin

text \<open>
  The tables behind the tenant and public doors: one record per row type of
  \<^verbatim>\<open>sqlcgen/models.go\<close>, the database, and the row-level policies migrations 00002 to 00013
  put on the tables. A NULL column is \<open>None\<close>. Fields carry their table's prefix.
\<close>

section \<open>Identity\<close>

record user =
  us_id :: uuid
  us_email :: string
  password_hash :: "string option"
  full_name :: "string option"
  phone :: "string option"
  us_status :: string
  email_verified_at :: "time option"
  totp_secret_enc :: "bytes option"
  last_login_at :: "time option"
  us_created_at :: "time option"
  us_updated_at :: "time option"

record shelter =
  sl_id :: uuid
  slug :: string
  legal_name :: "string option"
  display_name :: string
  country :: "string option"
  state :: "string option"
  city :: "string option"
  sl_status :: string
  verified_at :: "time option"
  verified_by :: "uuid option"
  mission :: "string option"
  vision :: "string option"
  about :: "string option"
  logo_media_id :: "uuid option"
  cover_media_id :: "uuid option"
  contact_email :: "string option"
  contact_phone :: "string option"
  website :: "string option"
  socials :: bytes
  donation_links :: bytes
  storage_bytes_used :: "64 word"
  storage_quota_bytes :: "64 word"
  sl_created_at :: "time option"
  sl_updated_at :: "time option"

record membership =
  mb_id :: uuid
  mb_user_id :: uuid
  mb_shelter_id :: uuid
  mb_role :: string
  mb_status :: string
  invited_by :: "uuid option"
  accepted_at :: "time option"
  mb_created_at :: "time option"
  mb_updated_at :: "time option"

section \<open>The catalog\<close>

record species =
  sp_id :: uuid
  sp_code :: string
  sp_name :: string

record breed =
  br_id :: uuid
  br_species_id :: uuid
  br_name :: string

record medium =
  md_id :: uuid
  md_shelter_id :: uuid
  kind :: string
  storage_key :: string
  mime :: string
  media_bytes :: "64 word"
  width :: "32 word option"
  height :: "32 word option"
  checksum_sha256 :: "bytes option"
  variants :: bytes
  alt_text :: "string option"
  uploaded_by :: "uuid option"
  md_created_at :: "time option"
  md_deleted_at :: "time option"

text \<open>A \<^verbatim>\<open>date\<close> is a day number, a \<^verbatim>\<open>numeric(5,2)\<close> a number of hundredths.\<close>

record pet =
  p_id :: uuid
  p_shelter_id :: uuid
  public_code :: string
  p_name :: string
  p_species_id :: uuid
  breed_id :: "uuid option"
  breed_note :: "string option"
  sex :: string
  pet_size :: string
  birth_date_estimate :: "int option"
  age_precision :: string
  weight_kg :: "int option"
  p_status :: string
  p_status_changed_at :: "time option"
  sterilized :: "bool option"
  vaccinated :: "bool option"
  dewormed :: "bool option"
  microchip_id :: "string option"
  energy_level :: string
  good_with_kids :: string
  good_with_dogs :: string
  good_with_cats :: string
  special_needs :: bool
  special_needs_note :: "string option"
  story :: "string option"
  p_description :: "string option"
  intake_date :: "int option"
  intake_reason :: "string option"
  adoption_fee_cents :: "32 word"
  adoption_fee_currency :: string
  p_published_at :: "time option"
  p_created_by :: "uuid option"
  p_created_at :: "time option"
  p_updated_at :: "time option"
  p_deleted_at :: "time option"

record pet_medium =
  pm_pet_id :: uuid
  pm_media_id :: uuid
  pm_shelter_id :: uuid
  position :: "32 word"
  is_primary :: bool
  pm_created_at :: "time option"

record pet_health_record =
  hr_id :: uuid
  hr_shelter_id :: uuid
  hr_pet_id :: uuid
  hr_type :: string
  occurred_on :: "int option"
  hr_description :: "string option"
  vet_name :: "string option"
  document_media_id :: "uuid option"
  hr_created_at :: "time option"
  hr_updated_at :: "time option"

record pet_status_history =
  sh_id :: uuid
  sh_shelter_id :: uuid
  sh_pet_id :: uuid
  from_status :: "string option"
  to_status :: string
  sh_reason :: "string option"
  sh_actor_user_id :: "uuid option"
  sh_occurred_at :: "time option"

section \<open>Forms\<close>

record form_template =
  ft_id :: uuid
  ft_shelter_id :: uuid
  ft_key :: string
  ft_name :: string
  purpose :: string
  is_active :: bool
  ft_created_at :: "time option"
  ft_updated_at :: "time option"

record form_template_version =
  fv_id :: uuid
  fv_shelter_id :: uuid
  template_id :: uuid
  fv_version :: "32 word"
  form_definition :: bytes
  fv_published_at :: "time option"
  fv_created_by :: "uuid option"
  fv_created_at :: "time option"

record form_submission =
  fs_id :: uuid
  fs_shelter_id :: uuid
  template_version_id :: uuid
  fs_application_id :: "uuid option"
  submitted_by_user_id :: "uuid option"
  answers :: bytes
  answers_encrypted :: "bytes option"
  submitted_at :: "time option"
  fs_ip_hash :: "string option"

section \<open>Adoption\<close>

record adoption_application =
  aa_id :: uuid
  aa_shelter_id :: uuid
  aa_pet_id :: uuid
  applicant_user_id :: uuid
  aa_status :: string
  aa_status_changed_at :: "time option"
  assigned_to_user_id :: "uuid option"
  priority_score :: "32 word option"
  decision_note :: "string option"
  aa_created_at :: "time option"
  aa_updated_at :: "time option"

record application_event =
  ae_id :: uuid
  ae_shelter_id :: uuid
  ae_application_id :: uuid
  ae_type :: string
  payload :: bytes
  ae_actor_user_id :: "uuid option"
  ae_occurred_at :: "time option"

record application_note =
  an_id :: uuid
  an_shelter_id :: uuid
  an_application_id :: uuid
  author_user_id :: "uuid option"
  an_body :: string
  visibility :: string
  an_created_at :: "time option"
  an_updated_at :: "time option"

record document =
  dc_id :: uuid
  dc_shelter_id :: uuid
  dc_media_id :: uuid
  dc_application_id :: "uuid option"
  dc_type :: string
  generated_from :: "bytes option"
  signed_at :: "time option"
  signature :: "bytes option"
  dc_created_at :: "time option"

text \<open>The identifier of an audit row is a \<^verbatim>\<open>bigserial\<close>.\<close>

record audit_entry =
  al_id :: "64 word"
  al_shelter_id :: uuid
  al_actor_user_id :: "uuid option"
  al_action :: string
  entity_type :: string
  entity_id :: "uuid option"
  al_before :: "bytes option"
  al_after :: "bytes option"
  al_ip_hash :: "string option"
  al_user_agent :: "string option"
  al_occurred_at :: "time option"

section \<open>The database\<close>

record tenantdb =
  users :: "user list"
  species_rows :: "species list"
  breed_rows :: "breed list"
  shelters :: "shelter list"
  memberships :: "membership list"
  media :: "medium list"
  pets :: "pet list"
  pet_media :: "pet_medium list"
  health_records :: "pet_health_record list"
  status_history :: "pet_status_history list"
  templates :: "form_template list"
  versions :: "form_template_version list"
  submissions :: "form_submission list"
  applications :: "adoption_application list"
  events :: "application_event list"
  app_notes :: "application_note list"
  documents :: "document list"
  audit_log :: "audit_entry list"

section \<open>Policies\<close>

text \<open>
  Every policy is one disjunct, as permissive policies of a role are. \<^verbatim>\<open>app_public\<close> sees the pets
  that are available, published and not deleted, and the photos that lead to one; the subqueries of
  a policy run as the querying role, so they see what that role sees.
\<close>

definition public_pet :: "pet \<Rightarrow> bool" where
  "public_pet p \<longleftrightarrow> p_status p = ''available'' \<and> p_published_at p \<noteq> None \<and> p_deleted_at p = None"

definition pet_visible :: "door \<Rightarrow> pet \<Rightarrow> bool" where
  "pet_visible d p \<longleftrightarrow> own d (p_shelter_id p) \<or> (d = PublicDoor \<and> public_pet p)"

definition pet_media_visible :: "door \<Rightarrow> tenantdb \<Rightarrow> pet_medium \<Rightarrow> bool" where
  "pet_media_visible d db pm \<longleftrightarrow> own d (pm_shelter_id pm)
     \<or> (d = PublicDoor \<and> (\<exists>p \<in> set (pets db). pet_visible d p \<and> p_id p = pm_pet_id pm))"

definition media_visible :: "door \<Rightarrow> tenantdb \<Rightarrow> medium \<Rightarrow> bool" where
  "media_visible d db m \<longleftrightarrow> own d (md_shelter_id m)
     \<or> (d = PublicDoor \<and> md_deleted_at m = None
        \<and> (\<exists>pm \<in> set (pet_media db). pet_media_visible d db pm \<and> pm_media_id pm = md_id m))"

definition membership_visible :: "door \<Rightarrow> membership \<Rightarrow> bool" where
  "membership_visible d m \<longleftrightarrow> own d (mb_shelter_id m) \<or> d = AuthDoor (Some (mb_user_id m))"

text \<open>\<^verbatim>\<open>member_visible_users\<close>, \<^verbatim>\<open>applicant_visible_users\<close> and \<^verbatim>\<open>auth_lookup_users\<close>.\<close>

definition user_visible :: "door \<Rightarrow> tenantdb \<Rightarrow> user \<Rightarrow> bool" where
  "user_visible d db u \<longleftrightarrow>
     (\<exists>m \<in> set (memberships db). membership_visible d m \<and> own d (mb_shelter_id m)
        \<and> mb_user_id m = us_id u \<and> mb_status m = ''active'')
     \<or> (\<exists>a \<in> set (applications db). own d (aa_shelter_id a) \<and> applicant_user_id a = us_id u)
     \<or> is_auth d"

section \<open>Reference keys\<close>

text \<open>Referential checks look at the whole table, whoever asks; D5's keys carry the shelter along.\<close>

definition shelter_exists :: "tenantdb \<Rightarrow> uuid \<Rightarrow> bool" where
  "shelter_exists db i \<longleftrightarrow> i \<in> set (map sl_id (shelters db))"

definition user_exists :: "tenantdb \<Rightarrow> uuid \<Rightarrow> bool" where
  "user_exists db i \<longleftrightarrow> i \<in> set (map us_id (users db))"

definition pet_of :: "tenantdb \<Rightarrow> uuid \<Rightarrow> uuid \<Rightarrow> bool" where
  "pet_of db i s \<longleftrightarrow> (i, s) \<in> set (map (\<lambda>r. (p_id r, p_shelter_id r)) (pets db))"

definition media_of :: "tenantdb \<Rightarrow> uuid \<Rightarrow> uuid \<Rightarrow> bool" where
  "media_of db i s \<longleftrightarrow> (i, s) \<in> set (map (\<lambda>r. (md_id r, md_shelter_id r)) (media db))"

definition template_of :: "tenantdb \<Rightarrow> uuid \<Rightarrow> uuid \<Rightarrow> bool" where
  "template_of db i s \<longleftrightarrow> (i, s) \<in> set (map (\<lambda>r. (ft_id r, ft_shelter_id r)) (templates db))"

definition version_of :: "tenantdb \<Rightarrow> uuid \<Rightarrow> uuid \<Rightarrow> bool" where
  "version_of db i s \<longleftrightarrow> (i, s) \<in> set (map (\<lambda>r. (fv_id r, fv_shelter_id r)) (versions db))"

definition application_of :: "tenantdb \<Rightarrow> uuid \<Rightarrow> uuid \<Rightarrow> bool" where
  "application_of db i s \<longleftrightarrow> (i, s) \<in> set (map (\<lambda>r. (aa_id r, aa_shelter_id r)) (applications db))"

definition member_of :: "tenantdb \<Rightarrow> uuid \<Rightarrow> uuid \<Rightarrow> bool" where
  "member_of db i s \<longleftrightarrow> (i, s) \<in> set (map (\<lambda>r. (mb_user_id r, mb_shelter_id r)) (memberships db))"

text \<open>MATCH SIMPLE: a key with a NULL column is not checked.\<close>

definition when_given :: "(uuid \<Rightarrow> bool) \<Rightarrow> uuid option \<Rightarrow> bool" where
  "when_given ref i = (case i of None \<Rightarrow> True | Some u \<Rightarrow> ref u)"

end
