(* ===== verification/PetStmts.thy ===== *)
theory PetStmts imports TenantDb
begin

text \<open>
  \<^verbatim>\<open>sqlcgen/pets.sql.go\<close>, \<^verbatim>\<open>media.sql.go\<close>, \<^verbatim>\<open>documents.sql.go\<close> and
  \<^verbatim>\<open>reference.sql.go\<close>: for every query its parameters, the statement with the policies, grants and
  constraints of migrations 00003 to 00006 and 00011, and the method that runs it. \<open>now\<close> is the
  transaction's clock. A \<^verbatim>\<open>:one\<close> read answers \<open>None\<close> for \<^verbatim>\<open>pgx.ErrNoRows\<close>.
\<close>

section \<open>pets\<close>

record create_pet_params =
  cp_id :: uuid
  cp_shelter_id :: uuid
  cp_public_code :: string
  cp_name :: string
  cp_species_id :: uuid
  cp_breed_id :: "uuid option"
  cp_sex :: string
  cp_size :: string
  cp_energy_level :: string
  cp_good_with_kids :: string
  cp_good_with_dogs :: string
  cp_good_with_cats :: string
  cp_description :: "string option"
  cp_created_by :: "uuid option"

text \<open>The row an INSERT writes: the given columns, and the defaults of the others.\<close>

definition new_pet :: "time \<Rightarrow> create_pet_params \<Rightarrow> pet" where
  "new_pet now a =
     \<lparr>p_id = cp_id a, p_shelter_id = cp_shelter_id a, public_code = cp_public_code a, p_name = cp_name a,
      p_species_id = cp_species_id a, breed_id = cp_breed_id a, breed_note = None, sex = cp_sex a,
      pet_size = cp_size a, birth_date_estimate = None, age_precision = ''estimated'', weight_kg = None,
      p_status = ''draft'', p_status_changed_at = Some now, sterilized = None, vaccinated = None,
      dewormed = None, microchip_id = None, energy_level = cp_energy_level a,
      good_with_kids = cp_good_with_kids a, good_with_dogs = cp_good_with_dogs a,
      good_with_cats = cp_good_with_cats a, special_needs = False, special_needs_note = None, story = None,
      p_description = cp_description a, intake_date = None, intake_reason = None, adoption_fee_cents = 0,
      adoption_fee_currency = ''MXN'', p_published_at = None, p_created_by = cp_created_by a,
      p_created_at = Some now, p_updated_at = Some now, p_deleted_at = None\<rparr>"

definition three_state :: "string \<Rightarrow> bool" where
  "three_state v \<longleftrightarrow> v \<in> {''yes'', ''no'', ''unknown''}"

definition sql_CreatePet :: "time \<Rightarrow> create_pet_params \<Rightarrow> door \<Rightarrow> tenantdb \<Rightarrow> db_err + pet \<times> tenantdb" where
  "sql_CreatePet now a d db =
     guarded
       [(\<not> own d (cp_shelter_id a), InsufficientPrivilege),
        (cp_energy_level a \<notin> {''low'', ''medium'', ''high''}, CheckViolation ''pets_energy_level_check''),
        (\<not> three_state (cp_good_with_cats a), CheckViolation ''pets_good_with_cats_check''),
        (\<not> three_state (cp_good_with_dogs a), CheckViolation ''pets_good_with_dogs_check''),
        (\<not> three_state (cp_good_with_kids a), CheckViolation ''pets_good_with_kids_check''),
        (cp_sex a \<notin> {''male'', ''female'', ''unknown''}, CheckViolation ''pets_sex_check''),
        (cp_size a \<notin> {''xs'', ''s'', ''m'', ''l'', ''xl''}, CheckViolation ''pets_size_check''),
        (cp_id a \<in> set (map p_id (pets db)), UniqueViolation ''pets_pkey''),
        ((cp_shelter_id a, cp_public_code a) \<in> set (map (\<lambda>p. (p_shelter_id p, public_code p)) (pets db)),
           UniqueViolation ''pets_shelter_id_public_code_key''),
        (\<not> shelter_exists db (cp_shelter_id a), ForeignKeyViolation ''pets_shelter_id_fkey''),
        (cp_species_id a \<notin> set (map sp_id (species_rows db)), ForeignKeyViolation ''pets_species_id_fkey''),
        (\<not> when_given (\<lambda>b. b \<in> set (map br_id (breed_rows db))) (cp_breed_id a),
           ForeignKeyViolation ''pets_breed_id_fkey''),
        (\<not> when_given (user_exists db) (cp_created_by a), ForeignKeyViolation ''pets_created_by_fkey'')]
       (Inr (new_pet now a, db\<lparr>pets := pets db @ [new_pet now a]\<rparr>))"

definition CreatePet where
  "CreatePet env who a c = run_as env who True
     ([cp_public_code a, cp_name a, cp_sex a, cp_size a, cp_energy_level a, cp_good_with_kids a,
       cp_good_with_dogs a, cp_good_with_cats a] @ given [cp_description a]) (sql_CreatePet (clock c) a) c"

definition sql_GetPet :: "uuid \<Rightarrow> door \<Rightarrow> tenantdb \<Rightarrow> db_err + pet option \<times> tenantdb" where
  "sql_GetPet i d db =
     (if is_auth d then Inl InsufficientPrivilege
      else Inr (first_row (filter (\<lambda>p. pet_visible d p \<and> p_id p = i \<and> p_deleted_at p = None) (pets db)), db))"

definition GetPet where
  "GetPet env who i c = run_as env who False [] (sql_GetPet i) c"

definition sql_ListPetsByStatus :: "string \<Rightarrow> door \<Rightarrow> tenantdb \<Rightarrow> db_err + pet list \<times> tenantdb" where
  "sql_ListPetsByStatus st d db =
     (if is_auth d then Inl InsufficientPrivilege
      else Inr (order_by (\<lambda>p q. desc_nulls_last (p_published_at p) (p_published_at q))
                  (filter (\<lambda>p. pet_visible d p \<and> p_status p = st \<and> p_deleted_at p = None) (pets db)), db))"

definition ListPetsByStatus where
  "ListPetsByStatus env who st c = run_as env who False [st] (sql_ListPetsByStatus st) c"

text \<open>Any pet of the tenant that is not deleted is published, whatever its status was.\<close>

definition published :: "time \<Rightarrow> pet \<Rightarrow> pet" where
  "published now p = p\<lparr>p_status := ''available'',
     p_published_at := (case p_published_at p of None \<Rightarrow> Some now | Some t \<Rightarrow> Some t),
     p_status_changed_at := Some now, p_updated_at := Some now\<rparr>"

definition sql_PublishPet :: "time \<Rightarrow> uuid \<Rightarrow> door \<Rightarrow> tenantdb \<Rightarrow> db_err + nat \<times> tenantdb" where
  "sql_PublishPet now i d db =
     tenant_only d
       (let P = (\<lambda>p. own d (p_shelter_id p) \<and> p_id p = i \<and> p_deleted_at p = None) in
        Inr (count_rows P (pets db), db\<lparr>pets := update_rows P (published now) (pets db)\<rparr>))"

definition PublishPet where
  "PublishPet env who i c = run_as env who True [] (sql_PublishPet (clock c) i) c"

section \<open>The children of a pet\<close>

record status_change_params =
  sc_id :: uuid
  sc_shelter_id :: uuid
  sc_pet_id :: uuid
  sc_from_status :: "string option"
  sc_to_status :: string
  sc_reason :: "string option"
  sc_actor_user_id :: "uuid option"

definition pet_statuses :: "string set" where
  "pet_statuses = {''draft'', ''available'', ''reserved'', ''in_process'', ''adopted'', ''unavailable'', ''deceased''}"

definition new_status_change :: "time \<Rightarrow> status_change_params \<Rightarrow> pet_status_history" where
  "new_status_change now a =
     \<lparr>sh_id = sc_id a, sh_shelter_id = sc_shelter_id a, sh_pet_id = sc_pet_id a, from_status = sc_from_status a,
      to_status = sc_to_status a, sh_reason = sc_reason a, sh_actor_user_id = sc_actor_user_id a,
      sh_occurred_at = Some now\<rparr>"

definition sql_AppendStatusChange ::
  "time \<Rightarrow> status_change_params \<Rightarrow> door \<Rightarrow> tenantdb \<Rightarrow> db_err + unit \<times> tenantdb" where
  "sql_AppendStatusChange now a d db =
     guarded
       [(\<not> own d (sc_shelter_id a), InsufficientPrivilege),
        (\<exists>s. sc_from_status a = Some s \<and> s \<notin> pet_statuses,
           CheckViolation ''pet_status_history_from_status_check''),
        (sc_to_status a \<notin> pet_statuses, CheckViolation ''pet_status_history_to_status_check''),
        (sc_id a \<in> set (map sh_id (status_history db)), UniqueViolation ''pet_status_history_pkey''),
        (\<not> shelter_exists db (sc_shelter_id a), ForeignKeyViolation ''pet_status_history_shelter_id_fkey''),
        (\<not> when_given (user_exists db) (sc_actor_user_id a),
           ForeignKeyViolation ''pet_status_history_actor_user_id_fkey''),
        (\<not> pet_of db (sc_pet_id a) (sc_shelter_id a), ForeignKeyViolation ''pet_status_history_pet_fkey'')]
       (Inr ((), db\<lparr>status_history := status_history db @ [new_status_change now a]\<rparr>))"

definition AppendStatusChange where
  "AppendStatusChange env who a c = run_as env who True ([sc_to_status a] @ given [sc_from_status a, sc_reason a])
     (sql_AppendStatusChange (clock c) a) c"

definition sql_ListStatusHistory ::
  "uuid \<Rightarrow> door \<Rightarrow> tenantdb \<Rightarrow> db_err + pet_status_history list \<times> tenantdb" where
  "sql_ListStatusHistory i d db =
     tenant_only d
       (Inr (order_by (\<lambda>a b. desc_nulls_first (sh_occurred_at a) (sh_occurred_at b))
               (filter (\<lambda>r. own d (sh_shelter_id r) \<and> sh_pet_id r = i) (status_history db)), db))"

definition ListStatusHistory where
  "ListStatusHistory env who i c = run_as env who False [] (sql_ListStatusHistory i) c"

record attach_photo_params =
  ap_pet_id :: uuid
  ap_media_id :: uuid
  ap_shelter_id :: uuid
  ap_position :: "32 word"
  ap_is_primary :: bool

definition new_photo :: "time \<Rightarrow> attach_photo_params \<Rightarrow> pet_medium" where
  "new_photo now a = \<lparr>pm_pet_id = ap_pet_id a, pm_media_id = ap_media_id a, pm_shelter_id = ap_shelter_id a,
     position = ap_position a, is_primary = ap_is_primary a, pm_created_at = Some now\<rparr>"

definition sql_AttachPhoto :: "time \<Rightarrow> attach_photo_params \<Rightarrow> door \<Rightarrow> tenantdb \<Rightarrow> db_err + unit \<times> tenantdb" where
  "sql_AttachPhoto now a d db =
     guarded
       [(\<not> own d (ap_shelter_id a), InsufficientPrivilege),
        ((ap_pet_id a, ap_media_id a) \<in> set (map (\<lambda>r. (pm_pet_id r, pm_media_id r)) (pet_media db)),
           UniqueViolation ''pet_media_pkey''),
        (ap_is_primary a \<and> (ap_shelter_id a, ap_pet_id a)
             \<in> set (map (\<lambda>r. (pm_shelter_id r, pm_pet_id r)) (filter is_primary (pet_media db))),
           UniqueViolation ''pet_media_one_primary_idx''),
        (\<not> shelter_exists db (ap_shelter_id a), ForeignKeyViolation ''pet_media_shelter_id_fkey''),
        (\<not> pet_of db (ap_pet_id a) (ap_shelter_id a), ForeignKeyViolation ''pet_media_pet_fkey''),
        (\<not> media_of db (ap_media_id a) (ap_shelter_id a), ForeignKeyViolation ''pet_media_media_fkey'')]
       (Inr ((), db\<lparr>pet_media := pet_media db @ [new_photo now a]\<rparr>))"

definition AttachPhoto where
  "AttachPhoto env who a c = run_as env who True [] (sql_AttachPhoto (clock c) a) c"

record health_event_params =
  he_id :: uuid
  he_shelter_id :: uuid
  he_pet_id :: uuid
  he_type :: string
  he_occurred_on :: "int option"
  he_description :: "string option"
  he_vet_name :: "string option"
  he_document_media_id :: "uuid option"

definition new_health_record :: "time \<Rightarrow> health_event_params \<Rightarrow> pet_health_record" where
  "new_health_record now a =
     \<lparr>hr_id = he_id a, hr_shelter_id = he_shelter_id a, hr_pet_id = he_pet_id a, hr_type = he_type a,
      occurred_on = he_occurred_on a, hr_description = he_description a, vet_name = he_vet_name a,
      document_media_id = he_document_media_id a, hr_created_at = Some now, hr_updated_at = Some now\<rparr>"

definition sql_RecordHealthEvent ::
  "time \<Rightarrow> health_event_params \<Rightarrow> door \<Rightarrow> tenantdb \<Rightarrow> db_err + pet_health_record \<times> tenantdb" where
  "sql_RecordHealthEvent now a d db =
     guarded
       [(\<not> own d (he_shelter_id a), InsufficientPrivilege),
        (he_occurred_on a = None, NotNullViolation ''occurred_on''),
        (he_type a \<notin> {''vaccine'', ''deworming'', ''surgery'', ''treatment'', ''checkup''},
           CheckViolation ''pet_health_records_type_check''),
        (he_id a \<in> set (map hr_id (health_records db)), UniqueViolation ''pet_health_records_pkey''),
        (\<not> shelter_exists db (he_shelter_id a), ForeignKeyViolation ''pet_health_records_shelter_id_fkey''),
        (\<not> pet_of db (he_pet_id a) (he_shelter_id a), ForeignKeyViolation ''pet_health_records_pet_fkey''),
        (\<not> when_given (\<lambda>m. media_of db m (he_shelter_id a)) (he_document_media_id a),
           ForeignKeyViolation ''pet_health_records_document_fkey'')]
       (Inr (new_health_record now a, db\<lparr>health_records := health_records db @ [new_health_record now a]\<rparr>))"

definition RecordHealthEvent where
  "RecordHealthEvent env who a c = run_as env who True ([he_type a] @ given [he_description a, he_vet_name a])
     (sql_RecordHealthEvent (clock c) a) c"

section \<open>media\<close>

record upload_params =
  up_id :: uuid
  up_shelter_id :: uuid
  up_kind :: string
  up_storage_key :: string
  up_mime :: string
  up_bytes :: "64 word"
  up_width :: "32 word option"
  up_height :: "32 word option"
  up_checksum_sha256 :: "bytes option"
  up_alt_text :: "string option"
  up_uploaded_by :: "uuid option"

definition new_medium :: "time \<Rightarrow> upload_params \<Rightarrow> medium" where
  "new_medium now a =
     \<lparr>md_id = up_id a, md_shelter_id = up_shelter_id a, kind = up_kind a, storage_key = up_storage_key a,
      mime = up_mime a, media_bytes = up_bytes a, width = up_width a, height = up_height a,
      checksum_sha256 = up_checksum_sha256 a, variants = ''{}'', alt_text = up_alt_text a,
      uploaded_by = up_uploaded_by a, md_created_at = Some now, md_deleted_at = None\<rparr>"

definition sql_RecordUpload :: "time \<Rightarrow> upload_params \<Rightarrow> door \<Rightarrow> tenantdb \<Rightarrow> db_err + medium \<times> tenantdb" where
  "sql_RecordUpload now a d db =
     guarded
       [(\<not> own d (up_shelter_id a), InsufficientPrivilege),
        (up_kind a \<notin> {''image'', ''document''}, CheckViolation ''media_kind_check''),
        (up_id a \<in> set (map md_id (media db)), UniqueViolation ''media_pkey''),
        (up_storage_key a \<in> set (map storage_key (media db)), UniqueViolation ''media_storage_key_key''),
        (\<not> shelter_exists db (up_shelter_id a), ForeignKeyViolation ''media_shelter_id_fkey''),
        (\<not> when_given (user_exists db) (up_uploaded_by a), ForeignKeyViolation ''media_uploaded_by_fkey'')]
       (Inr (new_medium now a, db\<lparr>media := media db @ [new_medium now a]\<rparr>))"

definition RecordUpload where
  "RecordUpload env who a c = run_as env who True
     ([up_kind a, up_storage_key a, up_mime a] @ given [up_alt_text a]) (sql_RecordUpload (clock c) a) c"

definition sql_GetMedia :: "uuid \<Rightarrow> door \<Rightarrow> tenantdb \<Rightarrow> db_err + medium option \<times> tenantdb" where
  "sql_GetMedia i d db =
     (if is_auth d then Inl InsufficientPrivilege
      else Inr (first_row (filter (\<lambda>m. media_visible d db m \<and> md_id m = i \<and> md_deleted_at m = None) (media db)), db))"

definition GetMedia where
  "GetMedia env who i c = run_as env who False [] (sql_GetMedia i) c"

definition sql_SoftDeleteMedia :: "time \<Rightarrow> uuid \<Rightarrow> door \<Rightarrow> tenantdb \<Rightarrow> db_err + nat \<times> tenantdb" where
  "sql_SoftDeleteMedia now i d db =
     tenant_only d
       (let P = (\<lambda>m. own d (md_shelter_id m) \<and> md_id m = i \<and> md_deleted_at m = None) in
        Inr (count_rows P (media db), db\<lparr>media := update_rows P (md_deleted_at_update (\<lambda>_. Some now)) (media db)\<rparr>))"

definition SoftDeleteMedia where
  "SoftDeleteMedia env who i c = run_as env who True [] (sql_SoftDeleteMedia (clock c) i) c"

section \<open>documents\<close>

record file_document_params =
  fd_id :: uuid
  fd_shelter_id :: uuid
  fd_media_id :: uuid
  fd_application_id :: "uuid option"
  fd_type :: string
  fd_generated_from :: "bytes option"

definition new_document :: "time \<Rightarrow> bytes option \<Rightarrow> file_document_params \<Rightarrow> document" where
  "new_document now gen a =
     \<lparr>dc_id = fd_id a, dc_shelter_id = fd_shelter_id a, dc_media_id = fd_media_id a,
      dc_application_id = fd_application_id a, dc_type = fd_type a, generated_from = gen, signed_at = None,
      signature = None, dc_created_at = Some now\<rparr>"

definition sql_FileDocument ::
  "sql_env \<Rightarrow> time \<Rightarrow> file_document_params \<Rightarrow> door \<Rightarrow> tenantdb \<Rightarrow> db_err + document \<times> tenantdb" where
  "sql_FileDocument env now a d db =
     with_json env (fd_generated_from a) (\<lambda>gen.
       guarded
         [(\<not> own d (fd_shelter_id a), InsufficientPrivilege),
          (fd_type a \<notin> {''adoption_contract'', ''receipt'', ''health_certificate'', ''custom''},
             CheckViolation ''documents_type_check''),
          (fd_id a \<in> set (map dc_id (documents db)), UniqueViolation ''documents_pkey''),
          (\<not> shelter_exists db (fd_shelter_id a), ForeignKeyViolation ''documents_shelter_id_fkey''),
          (\<not> media_of db (fd_media_id a) (fd_shelter_id a), ForeignKeyViolation ''documents_media_fkey''),
          (\<not> when_given (\<lambda>i. application_of db i (fd_shelter_id a)) (fd_application_id a),
             ForeignKeyViolation ''documents_application_fkey'')]
         (Inr (new_document now gen a, db\<lparr>documents := documents db @ [new_document now gen a]\<rparr>)))"

definition FileDocument where
  "FileDocument env who a c = run_as env who True [fd_type a] (sql_FileDocument env (clock c) a) c"

text \<open>An invalid \<^verbatim>\<open>pgtype.UUID\<close> is NULL, which equals nothing.\<close>

definition sql_ListApplicationDocuments ::
  "uuid option \<Rightarrow> door \<Rightarrow> tenantdb \<Rightarrow> db_err + document list \<times> tenantdb" where
  "sql_ListApplicationDocuments i d db =
     tenant_only d
       (Inr (order_by (\<lambda>a b. desc_nulls_first (dc_created_at a) (dc_created_at b))
               (filter (\<lambda>r. own d (dc_shelter_id r) \<and> i \<noteq> None \<and> dc_application_id r = i) (documents db)), db))"

definition ListApplicationDocuments where
  "ListApplicationDocuments env who i c = run_as env who False [] (sql_ListApplicationDocuments i) c"

definition sql_SignDocument ::
  "sql_env \<Rightarrow> time \<Rightarrow> uuid \<Rightarrow> bytes option \<Rightarrow> door \<Rightarrow> tenantdb \<Rightarrow> db_err + nat \<times> tenantdb" where
  "sql_SignDocument env now i sig d db =
     with_json env sig (\<lambda>s.
       tenant_only d
         (let P = (\<lambda>r. own d (dc_shelter_id r) \<and> dc_id r = i) in
          Inr (count_rows P (documents db),
               db\<lparr>documents := update_rows P (\<lambda>r. r\<lparr>signed_at := Some now, signature := s\<rparr>) (documents db)\<rparr>)))"

definition SignDocument where
  "SignDocument env who i sig c = run_as env who True [] (sql_SignDocument env (clock c) i sig) c"

section \<open>Reference data\<close>

text \<open>The policies are \<^verbatim>\<open>USING (true)\<close> for \<^verbatim>\<open>app_tenant\<close> and \<^verbatim>\<open>app_public\<close>: no scope is read.\<close>

definition run_reference ::
  "role \<Rightarrow> (tenantdb \<Rightarrow> 'a) \<Rightarrow> (tenantdb, 'z) pgconn_scheme \<Rightarrow> (db_err + 'a) \<times> (tenantdb, 'z) pgconn_scheme" where
  "run_reference who f c =
     run_stmt False (\<lambda>db. if who = App_auth then Inl InsufficientPrivilege else Inr (f db, db)) c"

definition ListSpecies where
  "ListSpecies env who c = run_reference who
     (\<lambda>db. order_by (\<lambda>a b. text_le env (sp_name a) (sp_name b)) (species_rows db)) c"

definition ListBreedsForSpecies where
  "ListBreedsForSpecies env who i c = run_reference who
     (\<lambda>db. order_by (\<lambda>a b. text_le env (br_name a) (br_name b))
             (filter (\<lambda>b. br_species_id b = i) (breed_rows db))) c"

end
