(* ===== verification/ShelterStmts.thy ===== *)
theory ShelterStmts imports TenantDb
begin

text \<open>
  \<^verbatim>\<open>sqlcgen/applications.sql.go\<close>, \<^verbatim>\<open>forms.sql.go\<close>, \<^verbatim>\<open>audit.sql.go\<close>,
  \<^verbatim>\<open>users.sql.go\<close>, \<^verbatim>\<open>shelters.sql.go\<close> and the identity reads of \<^verbatim>\<open>auth.sql.go\<close>, in
  the form of \<^verbatim>\<open>PetStmts\<close>, with the constraints of migrations 00002, 00007 to 00010, 00012,
  00015 and 00016.
\<close>

section \<open>Adoption applications\<close>

record create_application_params =
  ca_id :: uuid
  ca_shelter_id :: uuid
  ca_pet_id :: uuid
  ca_applicant_user_id :: uuid

definition new_application :: "time \<Rightarrow> create_application_params \<Rightarrow> adoption_application" where
  "new_application now a =
     \<lparr>aa_id = ca_id a, aa_shelter_id = ca_shelter_id a, aa_pet_id = ca_pet_id a,
      applicant_user_id = ca_applicant_user_id a, aa_status = ''draft'', aa_status_changed_at = Some now,
      assigned_to_user_id = None, priority_score = None, decision_note = None,
      aa_created_at = Some now, aa_updated_at = Some now\<rparr>"

definition sql_CreateApplication ::
  "time \<Rightarrow> create_application_params \<Rightarrow> door \<Rightarrow> tenantdb \<Rightarrow> db_err + adoption_application \<times> tenantdb" where
  "sql_CreateApplication now a d db =
     guarded
       [(\<not> own d (ca_shelter_id a), InsufficientPrivilege),
        (ca_id a \<in> set (map aa_id (applications db)), UniqueViolation ''adoption_applications_pkey''),
        (\<not> shelter_exists db (ca_shelter_id a), ForeignKeyViolation ''adoption_applications_shelter_id_fkey''),
        (\<not> user_exists db (ca_applicant_user_id a),
           ForeignKeyViolation ''adoption_applications_applicant_user_id_fkey''),
        (\<not> pet_of db (ca_pet_id a) (ca_shelter_id a), ForeignKeyViolation ''adoption_applications_pet_fkey'')]
       (Inr (new_application now a, db\<lparr>applications := applications db @ [new_application now a]\<rparr>))"

definition CreateApplication where
  "CreateApplication env who a c = run_as env who True [] (sql_CreateApplication (clock c) a) c"

definition sql_GetApplication ::
  "uuid \<Rightarrow> door \<Rightarrow> tenantdb \<Rightarrow> db_err + adoption_application option \<times> tenantdb" where
  "sql_GetApplication i d db =
     tenant_only d
       (Inr (first_row (filter (\<lambda>r. own d (aa_shelter_id r) \<and> aa_id r = i) (applications db)), db))"

definition GetApplication where
  "GetApplication env who i c = run_as env who False [] (sql_GetApplication i) c"

definition sql_ListApplicationsByStatus ::
  "string \<Rightarrow> door \<Rightarrow> tenantdb \<Rightarrow> db_err + adoption_application list \<times> tenantdb" where
  "sql_ListApplicationsByStatus st d db =
     tenant_only d
       (Inr (order_by (\<lambda>a b. desc_nulls_first (aa_created_at a) (aa_created_at b))
               (filter (\<lambda>r. own d (aa_shelter_id r) \<and> aa_status r = st) (applications db)), db))"

definition ListApplicationsByStatus where
  "ListApplicationsByStatus env who st c = run_as env who False [st] (sql_ListApplicationsByStatus st) c"

text \<open>
  Migration 00016's trigger: the assignee is an active member of the row's shelter. It runs as the
  invoking role, so it sees the memberships that role sees.
\<close>

definition assignee_must_be_active_member :: "door \<Rightarrow> tenantdb \<Rightarrow> uuid \<Rightarrow> uuid \<Rightarrow> bool" where
  "assignee_must_be_active_member d db who shelter \<longleftrightarrow>
     (\<exists>m \<in> set (memberships db). membership_visible d m \<and> mb_user_id m = who
        \<and> mb_shelter_id m = shelter \<and> mb_status m = ''active'')"

definition sql_AssignApplication ::
  "time \<Rightarrow> uuid \<Rightarrow> uuid option \<Rightarrow> door \<Rightarrow> tenantdb \<Rightarrow> db_err + nat \<times> tenantdb" where
  "sql_AssignApplication now i assignee d db =
     tenant_only d
       (let P = (\<lambda>r. own d (aa_shelter_id r) \<and> aa_id r = i);
            touched = filter P (applications db) in
        guarded
          [(\<exists>r \<in> set touched. \<not> when_given (\<lambda>w. assignee_must_be_active_member d db w (aa_shelter_id r)) assignee,
              CheckViolation ''assignee_must_be_active_member''),
           (\<exists>r \<in> set touched. \<not> when_given (\<lambda>w. member_of db w (aa_shelter_id r)) assignee,
              ForeignKeyViolation ''adoption_applications_assignee_fkey'')]
          (Inr (count_rows P (applications db),
                db\<lparr>applications := update_rows P
                     (\<lambda>r. r\<lparr>assigned_to_user_id := assignee, aa_updated_at := Some now\<rparr>) (applications db)\<rparr>)))"

definition AssignApplication where
  "AssignApplication env who i assignee c = run_as env who True [] (sql_AssignApplication (clock c) i assignee) c"

definition application_statuses :: "string set" where
  "application_statuses = {''draft'', ''submitted'', ''in_review'', ''interview_scheduled'',
     ''home_visit_scheduled'', ''approved'', ''rejected'', ''withdrawn'', ''contract_signed'', ''delivered'', ''returned''}"

definition sql_SetApplicationStatus ::
  "time \<Rightarrow> uuid \<Rightarrow> string \<Rightarrow> string option \<Rightarrow> door \<Rightarrow> tenantdb \<Rightarrow> db_err + nat \<times> tenantdb" where
  "sql_SetApplicationStatus now i st note d db =
     tenant_only d
       (let P = (\<lambda>r. own d (aa_shelter_id r) \<and> aa_id r = i) in
        guarded
          [(filter P (applications db) \<noteq> [] \<and> st \<notin> application_statuses,
              CheckViolation ''adoption_applications_status_check'')]
          (Inr (count_rows P (applications db),
                db\<lparr>applications := update_rows P
                     (\<lambda>r. r\<lparr>aa_status := st, aa_status_changed_at := Some now, decision_note := note,
                           aa_updated_at := Some now\<rparr>) (applications db)\<rparr>)))"

definition SetApplicationStatus where
  "SetApplicationStatus env who i st note c = run_as env who True ([st] @ given [note])
     (sql_SetApplicationStatus (clock c) i st note) c"

record application_event_params =
  ev_id :: uuid
  ev_shelter_id :: uuid
  ev_application_id :: uuid
  ev_type :: string
  ev_payload :: "bytes option"
  ev_actor_user_id :: "uuid option"

definition new_event :: "time \<Rightarrow> bytes \<Rightarrow> application_event_params \<Rightarrow> application_event" where
  "new_event now body a =
     \<lparr>ae_id = ev_id a, ae_shelter_id = ev_shelter_id a, ae_application_id = ev_application_id a,
      ae_type = ev_type a, payload = body, ae_actor_user_id = ev_actor_user_id a, ae_occurred_at = Some now\<rparr>"

definition sql_AppendApplicationEvent ::
  "sql_env \<Rightarrow> time \<Rightarrow> application_event_params \<Rightarrow> door \<Rightarrow> tenantdb \<Rightarrow> db_err + unit \<times> tenantdb" where
  "sql_AppendApplicationEvent env now a d db =
     with_json env (ev_payload a) (\<lambda>body.
       guarded
         [(\<not> own d (ev_shelter_id a), InsufficientPrivilege),
          (body = None, NotNullViolation ''payload''),
          (\<not> (1 \<le> char_length (ev_type a) \<and> char_length (ev_type a) \<le> 64),
             CheckViolation ''application_events_type_check''),
          (ev_id a \<in> set (map ae_id (events db)), UniqueViolation ''application_events_pkey''),
          (\<not> shelter_exists db (ev_shelter_id a), ForeignKeyViolation ''application_events_shelter_id_fkey''),
          (\<not> when_given (user_exists db) (ev_actor_user_id a),
             ForeignKeyViolation ''application_events_actor_user_id_fkey''),
          (\<not> application_of db (ev_application_id a) (ev_shelter_id a),
             ForeignKeyViolation ''application_events_application_fkey'')]
         (Inr ((), db\<lparr>events := events db @ [new_event now (the body) a]\<rparr>)))"

definition AppendApplicationEvent where
  "AppendApplicationEvent env who a c = run_as env who True [ev_type a]
     (sql_AppendApplicationEvent env (clock c) a) c"

definition sql_ListApplicationTimeline ::
  "uuid \<Rightarrow> door \<Rightarrow> tenantdb \<Rightarrow> db_err + application_event list \<times> tenantdb" where
  "sql_ListApplicationTimeline i d db =
     tenant_only d
       (Inr (order_by (\<lambda>a b. asc_nulls_last (\<le>) (ae_occurred_at a) (ae_occurred_at b))
               (filter (\<lambda>r. own d (ae_shelter_id r) \<and> ae_application_id r = i) (events db)), db))"

definition ListApplicationTimeline where
  "ListApplicationTimeline env who i c = run_as env who False [] (sql_ListApplicationTimeline i) c"

record application_note_params =
  np_id :: uuid
  np_shelter_id :: uuid
  np_application_id :: uuid
  np_author_user_id :: "uuid option"
  np_body :: string
  np_visibility :: string

definition new_note :: "time \<Rightarrow> application_note_params \<Rightarrow> application_note" where
  "new_note now a =
     \<lparr>an_id = np_id a, an_shelter_id = np_shelter_id a, an_application_id = np_application_id a,
      author_user_id = np_author_user_id a, an_body = np_body a, visibility = np_visibility a,
      an_created_at = Some now, an_updated_at = Some now\<rparr>"

definition sql_WriteApplicationNote ::
  "time \<Rightarrow> application_note_params \<Rightarrow> door \<Rightarrow> tenantdb \<Rightarrow> db_err + application_note \<times> tenantdb" where
  "sql_WriteApplicationNote now a d db =
     guarded
       [(\<not> own d (np_shelter_id a), InsufficientPrivilege),
        (np_visibility a \<notin> {''internal'', ''shared''}, CheckViolation ''application_notes_visibility_check''),
        (np_id a \<in> set (map an_id (app_notes db)), UniqueViolation ''application_notes_pkey''),
        (\<not> shelter_exists db (np_shelter_id a), ForeignKeyViolation ''application_notes_shelter_id_fkey''),
        (\<not> when_given (user_exists db) (np_author_user_id a),
           ForeignKeyViolation ''application_notes_author_user_id_fkey''),
        (\<not> application_of db (np_application_id a) (np_shelter_id a),
           ForeignKeyViolation ''application_notes_application_fkey'')]
       (Inr (new_note now a, db\<lparr>app_notes := app_notes db @ [new_note now a]\<rparr>))"

definition WriteApplicationNote where
  "WriteApplicationNote env who a c = run_as env who True [np_body a, np_visibility a]
     (sql_WriteApplicationNote (clock c) a) c"

definition sql_EditApplicationNote :: "time \<Rightarrow> uuid \<Rightarrow> string \<Rightarrow> door \<Rightarrow> tenantdb \<Rightarrow> db_err + nat \<times> tenantdb" where
  "sql_EditApplicationNote now i body d db =
     tenant_only d
       (let P = (\<lambda>r. own d (an_shelter_id r) \<and> an_id r = i) in
        Inr (count_rows P (app_notes db),
             db\<lparr>app_notes := update_rows P (\<lambda>r. r\<lparr>an_body := body, an_updated_at := Some now\<rparr>) (app_notes db)\<rparr>))"

definition EditApplicationNote where
  "EditApplicationNote env who i body c = run_as env who True [body] (sql_EditApplicationNote (clock c) i body) c"

section \<open>Forms\<close>

record create_template_params =
  ct_id :: uuid
  ct_shelter_id :: uuid
  ct_key :: string
  ct_name :: string
  ct_purpose :: string

definition new_template :: "time \<Rightarrow> create_template_params \<Rightarrow> form_template" where
  "new_template now a =
     \<lparr>ft_id = ct_id a, ft_shelter_id = ct_shelter_id a, ft_key = ct_key a, ft_name = ct_name a,
      purpose = ct_purpose a, is_active = True, ft_created_at = Some now, ft_updated_at = Some now\<rparr>"

definition sql_CreateTemplate ::
  "time \<Rightarrow> create_template_params \<Rightarrow> door \<Rightarrow> tenantdb \<Rightarrow> db_err + form_template \<times> tenantdb" where
  "sql_CreateTemplate now a d db =
     guarded
       [(\<not> own d (ct_shelter_id a), InsufficientPrivilege),
        (\<not> (1 \<le> char_length (ct_key a) \<and> char_length (ct_key a) \<le> 64), CheckViolation ''form_templates_key_check''),
        (ct_purpose a \<notin> {''adoption_application'', ''home_visit'', ''followup'', ''custom''},
           CheckViolation ''form_templates_purpose_check''),
        (ct_id a \<in> set (map ft_id (templates db)), UniqueViolation ''form_templates_pkey''),
        ((ct_shelter_id a, ct_key a) \<in> set (map (\<lambda>r. (ft_shelter_id r, ft_key r)) (templates db)),
           UniqueViolation ''form_templates_key_per_shelter''),
        (\<not> shelter_exists db (ct_shelter_id a), ForeignKeyViolation ''form_templates_shelter_id_fkey'')]
       (Inr (new_template now a, db\<lparr>templates := templates db @ [new_template now a]\<rparr>))"

definition CreateTemplate where
  "CreateTemplate env who a c = run_as env who True [ct_key a, ct_name a, ct_purpose a]
     (sql_CreateTemplate (clock c) a) c"

definition sql_GetTemplateByKey :: "string \<Rightarrow> door \<Rightarrow> tenantdb \<Rightarrow> db_err + form_template option \<times> tenantdb" where
  "sql_GetTemplateByKey k d db =
     tenant_only d
       (Inr (first_row (filter (\<lambda>r. own d (ft_shelter_id r) \<and> ft_key r = k \<and> is_active r) (templates db)), db))"

definition GetTemplateByKey where
  "GetTemplateByKey env who k c = run_as env who False [k] (sql_GetTemplateByKey k) c"

record publish_version_params =
  pv_id :: uuid
  pv_shelter_id :: uuid
  pv_template_id :: uuid
  pv_version :: "32 word"
  pv_definition :: "bytes option"
  pv_created_by :: "uuid option"

definition new_version :: "time \<Rightarrow> bytes \<Rightarrow> publish_version_params \<Rightarrow> form_template_version" where
  "new_version now body a =
     \<lparr>fv_id = pv_id a, fv_shelter_id = pv_shelter_id a, template_id = pv_template_id a, fv_version = pv_version a,
      form_definition = body, fv_published_at = Some now, fv_created_by = pv_created_by a,
      fv_created_at = Some now\<rparr>"

definition sql_PublishTemplateVersion ::
  "sql_env \<Rightarrow> time \<Rightarrow> publish_version_params \<Rightarrow> door \<Rightarrow> tenantdb \<Rightarrow> db_err + form_template_version \<times> tenantdb" where
  "sql_PublishTemplateVersion env now a d db =
     with_json env (pv_definition a) (\<lambda>body.
       guarded
         [(\<not> own d (pv_shelter_id a), InsufficientPrivilege),
          (body = None, NotNullViolation ''definition''),
          (\<not> 1 \<le> sint (pv_version a), CheckViolation ''form_template_versions_version_check''),
          (pv_id a \<in> set (map fv_id (versions db)), UniqueViolation ''form_template_versions_pkey''),
          ((pv_shelter_id a, pv_template_id a, pv_version a)
               \<in> set (map (\<lambda>r. (fv_shelter_id r, template_id r, fv_version r)) (versions db)),
             UniqueViolation ''form_template_versions_number_per_template''),
          (\<not> shelter_exists db (pv_shelter_id a), ForeignKeyViolation ''form_template_versions_shelter_id_fkey''),
          (\<not> when_given (user_exists db) (pv_created_by a),
             ForeignKeyViolation ''form_template_versions_created_by_fkey''),
          (\<not> template_of db (pv_template_id a) (pv_shelter_id a),
             ForeignKeyViolation ''form_template_versions_template_fkey'')]
         (Inr (new_version now (the body) a, db\<lparr>versions := versions db @ [new_version now (the body) a]\<rparr>)))"

definition PublishTemplateVersion where
  "PublishTemplateVersion env who a c = run_as env who True [] (sql_PublishTemplateVersion env (clock c) a) c"

definition sql_GetLatestPublishedVersion ::
  "uuid \<Rightarrow> door \<Rightarrow> tenantdb \<Rightarrow> db_err + form_template_version option \<times> tenantdb" where
  "sql_GetLatestPublishedVersion i d db =
     tenant_only d
       (Inr (first_row (order_by (\<lambda>a b. sint (fv_version b) \<le> sint (fv_version a))
               (filter (\<lambda>r. own d (fv_shelter_id r) \<and> template_id r = i \<and> fv_published_at r \<noteq> None) (versions db))), db))"

definition GetLatestPublishedVersion where
  "GetLatestPublishedVersion env who i c = run_as env who False [] (sql_GetLatestPublishedVersion i) c"

record submission_params =
  rs_id :: uuid
  rs_shelter_id :: uuid
  rs_template_version_id :: uuid
  rs_application_id :: "uuid option"
  rs_submitted_by_user_id :: "uuid option"
  rs_answers :: "bytes option"
  rs_ip_hash :: "string option"

definition new_submission :: "time \<Rightarrow> bytes \<Rightarrow> submission_params \<Rightarrow> form_submission" where
  "new_submission now body a =
     \<lparr>fs_id = rs_id a, fs_shelter_id = rs_shelter_id a, template_version_id = rs_template_version_id a,
      fs_application_id = rs_application_id a, submitted_by_user_id = rs_submitted_by_user_id a, answers = body,
      answers_encrypted = None, submitted_at = Some now, fs_ip_hash = rs_ip_hash a\<rparr>"

definition sql_RecordSubmission ::
  "sql_env \<Rightarrow> time \<Rightarrow> submission_params \<Rightarrow> door \<Rightarrow> tenantdb \<Rightarrow> db_err + form_submission \<times> tenantdb" where
  "sql_RecordSubmission env now a d db =
     with_json env (rs_answers a) (\<lambda>body.
       guarded
         [(\<not> own d (rs_shelter_id a), InsufficientPrivilege),
          (body = None, NotNullViolation ''answers''),
          (rs_id a \<in> set (map fs_id (submissions db)), UniqueViolation ''form_submissions_pkey''),
          (\<not> shelter_exists db (rs_shelter_id a), ForeignKeyViolation ''form_submissions_shelter_id_fkey''),
          (\<not> when_given (user_exists db) (rs_submitted_by_user_id a),
             ForeignKeyViolation ''form_submissions_submitted_by_user_id_fkey''),
          (\<not> version_of db (rs_template_version_id a) (rs_shelter_id a),
             ForeignKeyViolation ''form_submissions_version_fkey''),
          (\<not> when_given (\<lambda>i. application_of db i (rs_shelter_id a)) (rs_application_id a),
             ForeignKeyViolation ''form_submissions_application_fkey'')]
         (Inr (new_submission now (the body) a,
               db\<lparr>submissions := submissions db @ [new_submission now (the body) a]\<rparr>)))"

definition RecordSubmission where
  "RecordSubmission env who a c = run_as env who True (given [rs_ip_hash a])
     (sql_RecordSubmission env (clock c) a) c"

text \<open>The join that finds the version a submission was filled with.\<close>

definition sql_GetVersionForSubmission ::
  "uuid \<Rightarrow> door \<Rightarrow> tenantdb \<Rightarrow> db_err + form_template_version option \<times> tenantdb" where
  "sql_GetVersionForSubmission i d db =
     tenant_only d
       (Inr (first_row (concat (map
               (\<lambda>s. filter (\<lambda>v. own d (fv_shelter_id v) \<and> fv_id v = template_version_id s) (versions db))
               (filter (\<lambda>s. own d (fs_shelter_id s) \<and> fs_id s = i) (submissions db)))), db))"

definition GetVersionForSubmission where
  "GetVersionForSubmission env who i c = run_as env who False [] (sql_GetVersionForSubmission i) c"

definition sql_SearchSubmissions ::
  "sql_env \<Rightarrow> bytes option \<Rightarrow> door \<Rightarrow> tenantdb \<Rightarrow> db_err + form_submission list \<times> tenantdb" where
  "sql_SearchSubmissions env pattern d db =
     with_json env pattern (\<lambda>p.
       tenant_only d
         (Inr (order_by (\<lambda>a b. desc_nulls_first (submitted_at a) (submitted_at b))
                 (filter (\<lambda>r. own d (fs_shelter_id r) \<and> (\<exists>v. p = Some v \<and> jsonb_contains env (answers r) v))
                    (submissions db)), db)))"

definition SearchSubmissions where
  "SearchSubmissions env who pattern c = run_as env who False [] (sql_SearchSubmissions env pattern) c"

section \<open>The audit log\<close>

record audit_params =
  au_shelter_id :: uuid
  au_actor_user_id :: "uuid option"
  au_action :: string
  au_entity_type :: string
  au_entity_id :: "uuid option"
  au_before :: "bytes option"
  au_after :: "bytes option"
  au_ip_hash :: "string option"
  au_user_agent :: "string option"

definition new_audit_entry ::
  "time \<Rightarrow> 64 word \<Rightarrow> bytes option \<Rightarrow> bytes option \<Rightarrow> audit_params \<Rightarrow> audit_entry" where
  "new_audit_entry now i bef aft a =
     \<lparr>al_id = i, al_shelter_id = au_shelter_id a, al_actor_user_id = au_actor_user_id a, al_action = au_action a,
      entity_type = au_entity_type a, entity_id = au_entity_id a, al_before = bef, al_after = aft,
      al_ip_hash = au_ip_hash a, al_user_agent = au_user_agent a, al_occurred_at = Some now\<rparr>"

text \<open>
  The identifier comes from the sequence \<^verbatim>\<open>audit_log_id_seq\<close>, which is not part of any
  transaction: what \<^verbatim>\<open>nextval\<close> gives this statement is its argument \<open>nextval\<close>.
\<close>

definition sql_AppendAuditEntry ::
  "sql_env \<Rightarrow> time \<Rightarrow> 64 word \<Rightarrow> audit_params \<Rightarrow> door \<Rightarrow> tenantdb \<Rightarrow> db_err + 64 word \<times> tenantdb" where
  "sql_AppendAuditEntry env now nextval a d db =
     with_json env (au_before a) (\<lambda>bef. with_json env (au_after a) (\<lambda>aft.
       guarded
         [(\<not> own d (au_shelter_id a), InsufficientPrivilege),
          (\<not> (1 \<le> char_length (au_action a) \<and> char_length (au_action a) \<le> 128),
             CheckViolation ''audit_log_action_check''),
          (\<not> (1 \<le> char_length (au_entity_type a) \<and> char_length (au_entity_type a) \<le> 64),
             CheckViolation ''audit_log_entity_type_check''),
          (nextval \<in> set (map al_id (audit_log db)), UniqueViolation ''audit_log_pkey''),
          (\<not> shelter_exists db (au_shelter_id a), ForeignKeyViolation ''audit_log_shelter_id_fkey''),
          (\<not> when_given (user_exists db) (au_actor_user_id a), ForeignKeyViolation ''audit_log_actor_user_id_fkey'')]
         (Inr (nextval, db\<lparr>audit_log := audit_log db @ [new_audit_entry now nextval bef aft a]\<rparr>))))"

definition AppendAuditEntry where
  "AppendAuditEntry env who nextval a c = run_as env who True
     ([au_action a, au_entity_type a] @ given [au_ip_hash a, au_user_agent a])
     (sql_AppendAuditEntry env (clock c) nextval a) c"

definition sql_ListAuditEntriesForEntity ::
  "string \<Rightarrow> uuid option \<Rightarrow> door \<Rightarrow> tenantdb \<Rightarrow> db_err + audit_entry list \<times> tenantdb" where
  "sql_ListAuditEntriesForEntity ty i d db =
     tenant_only d
       (Inr (order_by (\<lambda>a b. desc_nulls_first (al_occurred_at a) (al_occurred_at b))
               (filter (\<lambda>r. own d (al_shelter_id r) \<and> entity_type r = ty \<and> i \<noteq> None \<and> entity_id r = i)
                  (audit_log db)), db))"

definition ListAuditEntriesForEntity where
  "ListAuditEntriesForEntity env who ty i c = run_as env who False [ty] (sql_ListAuditEntriesForEntity ty i) c"

definition sql_ListRecentAuditEntries ::
  "32 word \<Rightarrow> door \<Rightarrow> tenantdb \<Rightarrow> db_err + audit_entry list \<times> tenantdb" where
  "sql_ListRecentAuditEntries limit d db =
     tenant_only d
       (if sint limit < 0 then Inl NegativeLimit
        else Inr (take (nat (sint limit)) (order_by (\<lambda>a b. desc_nulls_first (al_occurred_at a) (al_occurred_at b))
               (filter (\<lambda>r. own d (al_shelter_id r)) (audit_log db))), db))"

definition ListRecentAuditEntries where
  "ListRecentAuditEntries env who limit c = run_as env who False [] (sql_ListRecentAuditEntries limit) c"

section \<open>Users and memberships\<close>

text \<open>\<^verbatim>\<open>app_auth\<close> holds no grant on \<^verbatim>\<open>full_name\<close> and \<^verbatim>\<open>phone\<close>, which the full row names.\<close>

definition sql_GetUserByEmail ::
  "sql_env \<Rightarrow> string \<Rightarrow> door \<Rightarrow> tenantdb \<Rightarrow> db_err + user option \<times> tenantdb" where
  "sql_GetUserByEmail env e d db =
     tenant_only d
       (Inr (first_row (filter (\<lambda>u. user_visible d db u \<and> same_email env (us_email u) e) (users db)), db))"

definition GetUserByEmail where
  "GetUserByEmail env who e c = run_as env who False [e] (sql_GetUserByEmail env e) c"

record invite_member_params =
  im_id :: uuid
  im_user_id :: uuid
  im_shelter_id :: uuid
  im_role :: string
  im_invited_by :: "uuid option"

definition new_membership :: "time \<Rightarrow> invite_member_params \<Rightarrow> membership" where
  "new_membership now a =
     \<lparr>mb_id = im_id a, mb_user_id = im_user_id a, mb_shelter_id = im_shelter_id a, mb_role = im_role a,
      mb_status = ''invited'', invited_by = im_invited_by a, accepted_at = None, mb_created_at = Some now,
      mb_updated_at = Some now\<rparr>"

definition sql_InviteMember :: "time \<Rightarrow> invite_member_params \<Rightarrow> door \<Rightarrow> tenantdb \<Rightarrow> db_err + unit \<times> tenantdb" where
  "sql_InviteMember now a d db =
     guarded
       [(\<not> own d (im_shelter_id a), InsufficientPrivilege),
        (im_role a \<notin> {''owner'', ''admin'', ''staff'', ''volunteer''}, CheckViolation ''memberships_role_check''),
        (im_id a \<in> set (map mb_id (memberships db)), UniqueViolation ''memberships_pkey''),
        (member_of db (im_user_id a) (im_shelter_id a), UniqueViolation ''memberships_user_id_shelter_id_key''),
        (\<not> user_exists db (im_user_id a), ForeignKeyViolation ''memberships_user_id_fkey''),
        (\<not> shelter_exists db (im_shelter_id a), ForeignKeyViolation ''memberships_shelter_id_fkey''),
        (\<not> when_given (user_exists db) (im_invited_by a), ForeignKeyViolation ''memberships_invited_by_fkey'')]
       (Inr ((), db\<lparr>memberships := memberships db @ [new_membership now a]\<rparr>))"

definition InviteMember where
  "InviteMember env who a c = run_as env who True [im_role a] (sql_InviteMember (clock c) a) c"

text \<open>A join over the rows both policies show: the members of the shelter, as far as their user is visible.\<close>

definition sql_ListShelterMembers ::
  "sql_env \<Rightarrow> door \<Rightarrow> tenantdb \<Rightarrow> db_err + (user \<times> string \<times> string) list \<times> tenantdb" where
  "sql_ListShelterMembers env d db =
     tenant_only d
       (Inr (order_by (\<lambda>a b. asc_nulls_last (text_le env) (full_name (fst a)) (full_name (fst b)))
               (concat (map (\<lambda>m. map (\<lambda>u. (u, mb_role m, mb_status m))
                                (filter (\<lambda>u. user_visible d db u \<and> us_id u = mb_user_id m) (users db)))
                  (filter (membership_visible d) (memberships db)))), db))"

definition ListShelterMembers where
  "ListShelterMembers env who c = run_as env who False [] (sql_ListShelterMembers env) c"

text \<open>The two reads of the auth door: only granted columns, and the caller's own memberships.\<close>

record user_credentials =
  uc_id :: uuid
  uc_email :: string
  uc_password_hash :: "string option"
  uc_status :: string
  uc_totp_secret_enc :: "bytes option"
  uc_email_verified_at :: "time option"
  uc_created_at :: "time option"

definition credentials_of :: "user \<Rightarrow> user_credentials" where
  "credentials_of u = \<lparr>uc_id = us_id u, uc_email = us_email u, uc_password_hash = password_hash u,
     uc_status = us_status u, uc_totp_secret_enc = totp_secret_enc u,
     uc_email_verified_at = email_verified_at u, uc_created_at = us_created_at u\<rparr>"

definition sql_GetUserCredentialsByEmail ::
  "sql_env \<Rightarrow> string \<Rightarrow> door \<Rightarrow> tenantdb \<Rightarrow> db_err + user_credentials option \<times> tenantdb" where
  "sql_GetUserCredentialsByEmail env e d db =
     (if d = PublicDoor then Inl InsufficientPrivilege
      else Inr (map_option credentials_of
             (first_row (filter (\<lambda>u. user_visible d db u \<and> same_email env (us_email u) e) (users db))), db))"

definition GetUserCredentialsByEmail where
  "GetUserCredentialsByEmail env who e c = run_as env who False [e] (sql_GetUserCredentialsByEmail env e) c"

record own_membership =
  om_id :: uuid
  om_user_id :: uuid
  om_shelter_id :: uuid
  om_role :: string
  om_status :: string

definition own_membership_of :: "membership \<Rightarrow> own_membership" where
  "own_membership_of m = \<lparr>om_id = mb_id m, om_user_id = mb_user_id m, om_shelter_id = mb_shelter_id m,
     om_role = mb_role m, om_status = mb_status m\<rparr>"

definition sql_ListOwnMemberships ::
  "uuid \<Rightarrow> door \<Rightarrow> tenantdb \<Rightarrow> db_err + own_membership list \<times> tenantdb" where
  "sql_ListOwnMemberships u d db =
     (if d = PublicDoor then Inl InsufficientPrivilege
      else Inr (map own_membership_of
             (filter (\<lambda>m. membership_visible d m \<and> mb_user_id m = u) (memberships db)), db))"

definition ListOwnMemberships where
  "ListOwnMemberships env who u c = run_as env who False [] (sql_ListOwnMemberships u) c"

section \<open>The shelter itself\<close>

definition sql_GetCurrentShelter :: "door \<Rightarrow> tenantdb \<Rightarrow> db_err + shelter option \<times> tenantdb" where
  "sql_GetCurrentShelter d db =
     tenant_only d (Inr (first_row (filter (\<lambda>s. own d (sl_id s)) (shelters db)), db))"

definition GetCurrentShelter where
  "GetCurrentShelter env who c = run_as env who False [] sql_GetCurrentShelter c"

record shelter_profile_params =
  spr_id :: uuid
  spr_display_name :: string
  spr_mission :: "string option"
  spr_vision :: "string option"
  spr_about :: "string option"

definition sql_UpdateShelterProfile ::
  "time \<Rightarrow> shelter_profile_params \<Rightarrow> door \<Rightarrow> tenantdb \<Rightarrow> db_err + nat \<times> tenantdb" where
  "sql_UpdateShelterProfile now a d db =
     tenant_only d
       (let P = (\<lambda>s. own d (sl_id s) \<and> sl_id s = spr_id a) in
        Inr (count_rows P (shelters db),
             db\<lparr>shelters := update_rows P
                  (\<lambda>s. s\<lparr>display_name := spr_display_name a, mission := spr_mission a, vision := spr_vision a,
                        about := spr_about a, sl_updated_at := Some now\<rparr>) (shelters db)\<rparr>))"

definition UpdateShelterProfile where
  "UpdateShelterProfile env who a c = run_as env who True
     ([spr_display_name a] @ given [spr_mission a, spr_vision a, spr_about a])
     (sql_UpdateShelterProfile (clock c) a) c"

end
