(* ===== verification/Querier.thy ===== *)
theory Querier imports PetStmts ShelterStmts
begin

text \<open>
  \<^verbatim>\<open>sqlcgen/querier.go\<close>: the interface of the query layer as data, one constructor per method on
  the tenant, public and identity tables (the ten methods on refresh tokens and recovery codes are
  \<^verbatim>\<open>AuthQuerier\<close>), its dispatch to the methods, and a transaction as a list of calls.
\<close>

section \<open>The interface\<close>

datatype query =
    Q_CreatePet create_pet_params
  | Q_GetPet uuid
  | Q_ListPetsByStatus string
  | Q_PublishPet uuid
  | Q_AppendStatusChange status_change_params
  | Q_ListStatusHistory uuid
  | Q_AttachPhoto attach_photo_params
  | Q_RecordHealthEvent health_event_params
  | Q_RecordUpload upload_params
  | Q_GetMedia uuid
  | Q_SoftDeleteMedia uuid
  | Q_FileDocument file_document_params
  | Q_ListApplicationDocuments "uuid option"
  | Q_SignDocument uuid "bytes option"
  | Q_CreateApplication create_application_params
  | Q_GetApplication uuid
  | Q_ListApplicationsByStatus string
  | Q_AssignApplication uuid "uuid option"
  | Q_SetApplicationStatus uuid string "string option"
  | Q_AppendApplicationEvent application_event_params
  | Q_ListApplicationTimeline uuid
  | Q_WriteApplicationNote application_note_params
  | Q_EditApplicationNote uuid string
  | Q_CreateTemplate create_template_params
  | Q_GetTemplateByKey string
  | Q_PublishTemplateVersion publish_version_params
  | Q_GetLatestPublishedVersion uuid
  | Q_RecordSubmission submission_params
  | Q_GetVersionForSubmission uuid
  | Q_SearchSubmissions "bytes option"
  | Q_AppendAuditEntry "64 word" audit_params
  | Q_ListAuditEntriesForEntity string "uuid option"
  | Q_ListRecentAuditEntries "32 word"
  | Q_GetUserByEmail string
  | Q_InviteMember invite_member_params
  | Q_ListShelterMembers
  | Q_GetUserCredentialsByEmail string
  | Q_ListOwnMemberships uuid
  | Q_GetCurrentShelter
  | Q_UpdateShelterProfile shelter_profile_params
  | Q_ListSpecies
  | Q_ListBreedsForSpecies uuid

datatype answer =
    A_done
  | A_affected nat
  | A_pet pet
  | A_pet_opt "pet option"
  | A_pets "pet list"
  | A_history "pet_status_history list"
  | A_health pet_health_record
  | A_medium medium
  | A_medium_opt "medium option"
  | A_document document
  | A_documents "document list"
  | A_application adoption_application
  | A_application_opt "adoption_application option"
  | A_applications "adoption_application list"
  | A_events "application_event list"
  | A_note application_note
  | A_template form_template
  | A_template_opt "form_template option"
  | A_version form_template_version
  | A_version_opt "form_template_version option"
  | A_submission form_submission
  | A_submissions "form_submission list"
  | A_entry_id "64 word"
  | A_entries "audit_entry list"
  | A_user_opt "user option"
  | A_members "(user \<times> string \<times> string) list"
  | A_credentials_opt "user_credentials option"
  | A_own_memberships "own_membership list"
  | A_shelter_opt "shelter option"
  | A_species "species list"
  | A_breeds "breed list"

definition answering :: "('a \<Rightarrow> answer) \<Rightarrow> (db_err + 'a) \<times> 'c \<Rightarrow> (db_err + answer) \<times> 'c" where
  "answering f r = (map_sum id f (fst r), snd r)"

fun run_query ::
  "sql_env \<Rightarrow> role \<Rightarrow> query \<Rightarrow> (tenantdb, 'z) pgconn_scheme \<Rightarrow> (db_err + answer) \<times> (tenantdb, 'z) pgconn_scheme"
where
  "run_query env who (Q_CreatePet a) c = answering A_pet (CreatePet env who a c)"
| "run_query env who (Q_GetPet a) c = answering A_pet_opt (GetPet env who a c)"
| "run_query env who (Q_ListPetsByStatus a) c = answering A_pets (ListPetsByStatus env who a c)"
| "run_query env who (Q_PublishPet a) c = answering A_affected (PublishPet env who a c)"
| "run_query env who (Q_AppendStatusChange a) c = answering (\<lambda>_. A_done) (AppendStatusChange env who a c)"
| "run_query env who (Q_ListStatusHistory a) c = answering A_history (ListStatusHistory env who a c)"
| "run_query env who (Q_AttachPhoto a) c = answering (\<lambda>_. A_done) (AttachPhoto env who a c)"
| "run_query env who (Q_RecordHealthEvent a) c = answering A_health (RecordHealthEvent env who a c)"
| "run_query env who (Q_RecordUpload a) c = answering A_medium (RecordUpload env who a c)"
| "run_query env who (Q_GetMedia a) c = answering A_medium_opt (GetMedia env who a c)"
| "run_query env who (Q_SoftDeleteMedia a) c = answering A_affected (SoftDeleteMedia env who a c)"
| "run_query env who (Q_FileDocument a) c = answering A_document (FileDocument env who a c)"
| "run_query env who (Q_ListApplicationDocuments a) c = answering A_documents (ListApplicationDocuments env who a c)"
| "run_query env who (Q_SignDocument a b) c = answering A_affected (SignDocument env who a b c)"
| "run_query env who (Q_CreateApplication a) c = answering A_application (CreateApplication env who a c)"
| "run_query env who (Q_GetApplication a) c = answering A_application_opt (GetApplication env who a c)"
| "run_query env who (Q_ListApplicationsByStatus a) c = answering A_applications (ListApplicationsByStatus env who a c)"
| "run_query env who (Q_AssignApplication a b) c = answering A_affected (AssignApplication env who a b c)"
| "run_query env who (Q_SetApplicationStatus a b e) c = answering A_affected (SetApplicationStatus env who a b e c)"
| "run_query env who (Q_AppendApplicationEvent a) c = answering (\<lambda>_. A_done) (AppendApplicationEvent env who a c)"
| "run_query env who (Q_ListApplicationTimeline a) c = answering A_events (ListApplicationTimeline env who a c)"
| "run_query env who (Q_WriteApplicationNote a) c = answering A_note (WriteApplicationNote env who a c)"
| "run_query env who (Q_EditApplicationNote a b) c = answering A_affected (EditApplicationNote env who a b c)"
| "run_query env who (Q_CreateTemplate a) c = answering A_template (CreateTemplate env who a c)"
| "run_query env who (Q_GetTemplateByKey a) c = answering A_template_opt (GetTemplateByKey env who a c)"
| "run_query env who (Q_PublishTemplateVersion a) c = answering A_version (PublishTemplateVersion env who a c)"
| "run_query env who (Q_GetLatestPublishedVersion a) c = answering A_version_opt (GetLatestPublishedVersion env who a c)"
| "run_query env who (Q_RecordSubmission a) c = answering A_submission (RecordSubmission env who a c)"
| "run_query env who (Q_GetVersionForSubmission a) c = answering A_version_opt (GetVersionForSubmission env who a c)"
| "run_query env who (Q_SearchSubmissions a) c = answering A_submissions (SearchSubmissions env who a c)"
| "run_query env who (Q_AppendAuditEntry a b) c = answering A_entry_id (AppendAuditEntry env who a b c)"
| "run_query env who (Q_ListAuditEntriesForEntity a b) c = answering A_entries (ListAuditEntriesForEntity env who a b c)"
| "run_query env who (Q_ListRecentAuditEntries a) c = answering A_entries (ListRecentAuditEntries env who a c)"
| "run_query env who (Q_GetUserByEmail a) c = answering A_user_opt (GetUserByEmail env who a c)"
| "run_query env who (Q_InviteMember a) c = answering (\<lambda>_. A_done) (InviteMember env who a c)"
| "run_query env who Q_ListShelterMembers c = answering A_members (ListShelterMembers env who c)"
| "run_query env who (Q_GetUserCredentialsByEmail a) c = answering A_credentials_opt (GetUserCredentialsByEmail env who a c)"
| "run_query env who (Q_ListOwnMemberships a) c = answering A_own_memberships (ListOwnMemberships env who a c)"
| "run_query env who Q_GetCurrentShelter c = answering A_shelter_opt (GetCurrentShelter env who c)"
| "run_query env who (Q_UpdateShelterProfile a) c = answering A_affected (UpdateShelterProfile env who a c)"
| "run_query env who Q_ListSpecies c = answering A_species (ListSpecies env who c)"
| "run_query env who (Q_ListBreedsForSpecies a) c = answering A_breeds (ListBreedsForSpecies env who a c)"

section \<open>One shape for all of them\<close>

text \<open>What a query writes and computes, apart from the connection: the view the proofs take of it.\<close>

definition answered :: "('a \<Rightarrow> answer) \<Rightarrow> db_err + 'a \<times> 'd \<Rightarrow> db_err + answer \<times> 'd" where
  "answered f = map_sum id (apfst f)"

fun statement :: "sql_env \<Rightarrow> time \<Rightarrow> query \<Rightarrow> door \<Rightarrow> tenantdb \<Rightarrow> db_err + answer \<times> tenantdb" where
  "statement env now (Q_CreatePet a) d db = answered A_pet (sql_CreatePet now a d db)"
| "statement env now (Q_GetPet a) d db = answered A_pet_opt (sql_GetPet a d db)"
| "statement env now (Q_ListPetsByStatus a) d db = answered A_pets (sql_ListPetsByStatus a d db)"
| "statement env now (Q_PublishPet a) d db = answered A_affected (sql_PublishPet now a d db)"
| "statement env now (Q_AppendStatusChange a) d db = answered (\<lambda>_. A_done) (sql_AppendStatusChange now a d db)"
| "statement env now (Q_ListStatusHistory a) d db = answered A_history (sql_ListStatusHistory a d db)"
| "statement env now (Q_AttachPhoto a) d db = answered (\<lambda>_. A_done) (sql_AttachPhoto now a d db)"
| "statement env now (Q_RecordHealthEvent a) d db = answered A_health (sql_RecordHealthEvent now a d db)"
| "statement env now (Q_RecordUpload a) d db = answered A_medium (sql_RecordUpload now a d db)"
| "statement env now (Q_GetMedia a) d db = answered A_medium_opt (sql_GetMedia a d db)"
| "statement env now (Q_SoftDeleteMedia a) d db = answered A_affected (sql_SoftDeleteMedia now a d db)"
| "statement env now (Q_FileDocument a) d db = answered A_document (sql_FileDocument env now a d db)"
| "statement env now (Q_ListApplicationDocuments a) d db = answered A_documents (sql_ListApplicationDocuments a d db)"
| "statement env now (Q_SignDocument a b) d db = answered A_affected (sql_SignDocument env now a b d db)"
| "statement env now (Q_CreateApplication a) d db = answered A_application (sql_CreateApplication now a d db)"
| "statement env now (Q_GetApplication a) d db = answered A_application_opt (sql_GetApplication a d db)"
| "statement env now (Q_ListApplicationsByStatus a) d db = answered A_applications (sql_ListApplicationsByStatus a d db)"
| "statement env now (Q_AssignApplication a b) d db = answered A_affected (sql_AssignApplication now a b d db)"
| "statement env now (Q_SetApplicationStatus a b e) d db = answered A_affected (sql_SetApplicationStatus now a b e d db)"
| "statement env now (Q_AppendApplicationEvent a) d db = answered (\<lambda>_. A_done) (sql_AppendApplicationEvent env now a d db)"
| "statement env now (Q_ListApplicationTimeline a) d db = answered A_events (sql_ListApplicationTimeline a d db)"
| "statement env now (Q_WriteApplicationNote a) d db = answered A_note (sql_WriteApplicationNote now a d db)"
| "statement env now (Q_EditApplicationNote a b) d db = answered A_affected (sql_EditApplicationNote now a b d db)"
| "statement env now (Q_CreateTemplate a) d db = answered A_template (sql_CreateTemplate now a d db)"
| "statement env now (Q_GetTemplateByKey a) d db = answered A_template_opt (sql_GetTemplateByKey a d db)"
| "statement env now (Q_PublishTemplateVersion a) d db = answered A_version (sql_PublishTemplateVersion env now a d db)"
| "statement env now (Q_GetLatestPublishedVersion a) d db = answered A_version_opt (sql_GetLatestPublishedVersion a d db)"
| "statement env now (Q_RecordSubmission a) d db = answered A_submission (sql_RecordSubmission env now a d db)"
| "statement env now (Q_GetVersionForSubmission a) d db = answered A_version_opt (sql_GetVersionForSubmission a d db)"
| "statement env now (Q_SearchSubmissions a) d db = answered A_submissions (sql_SearchSubmissions env a d db)"
| "statement env now (Q_AppendAuditEntry a b) d db = answered A_entry_id (sql_AppendAuditEntry env now a b d db)"
| "statement env now (Q_ListAuditEntriesForEntity a b) d db = answered A_entries (sql_ListAuditEntriesForEntity a b d db)"
| "statement env now (Q_ListRecentAuditEntries a) d db = answered A_entries (sql_ListRecentAuditEntries a d db)"
| "statement env now (Q_GetUserByEmail a) d db = answered A_user_opt (sql_GetUserByEmail env a d db)"
| "statement env now (Q_InviteMember a) d db = answered (\<lambda>_. A_done) (sql_InviteMember now a d db)"
| "statement env now Q_ListShelterMembers d db = answered A_members (sql_ListShelterMembers env d db)"
| "statement env now (Q_GetUserCredentialsByEmail a) d db = answered A_credentials_opt (sql_GetUserCredentialsByEmail env a d db)"
| "statement env now (Q_ListOwnMemberships a) d db = answered A_own_memberships (sql_ListOwnMemberships a d db)"
| "statement env now Q_GetCurrentShelter d db = answered A_shelter_opt (sql_GetCurrentShelter d db)"
| "statement env now (Q_UpdateShelterProfile a) d db = answered A_affected (sql_UpdateShelterProfile now a d db)"
| "statement env now Q_ListSpecies d db = (if is_auth d then Inl InsufficientPrivilege else
     Inr (A_species (order_by (\<lambda>a b. text_le env (sp_name a) (sp_name b)) (species_rows db)), db))"
| "statement env now (Q_ListBreedsForSpecies i) d db = (if is_auth d then Inl InsufficientPrivilege else
     Inr (A_breeds (order_by (\<lambda>a b. text_le env (br_name a) (br_name b)) (filter (\<lambda>b. br_species_id b = i) (breed_rows db))), db))"

lemmas method_defs = CreatePet_def GetPet_def ListPetsByStatus_def PublishPet_def AppendStatusChange_def
  ListStatusHistory_def AttachPhoto_def RecordHealthEvent_def RecordUpload_def GetMedia_def
  SoftDeleteMedia_def FileDocument_def ListApplicationDocuments_def SignDocument_def CreateApplication_def
  GetApplication_def ListApplicationsByStatus_def AssignApplication_def SetApplicationStatus_def AppendApplicationEvent_def
  ListApplicationTimeline_def WriteApplicationNote_def EditApplicationNote_def CreateTemplate_def GetTemplateByKey_def
  PublishTemplateVersion_def GetLatestPublishedVersion_def RecordSubmission_def GetVersionForSubmission_def SearchSubmissions_def
  AppendAuditEntry_def ListAuditEntriesForEntity_def ListRecentAuditEntries_def GetUserByEmail_def InviteMember_def
  ListShelterMembers_def GetUserCredentialsByEmail_def ListOwnMemberships_def GetCurrentShelter_def UpdateShelterProfile_def
  ListSpecies_def ListBreedsForSpecies_def

lemmas sql_defs = sql_CreatePet_def sql_GetPet_def sql_ListPetsByStatus_def sql_PublishPet_def
  sql_AppendStatusChange_def sql_ListStatusHistory_def sql_AttachPhoto_def sql_RecordHealthEvent_def
  sql_RecordUpload_def sql_GetMedia_def sql_SoftDeleteMedia_def sql_FileDocument_def
  sql_ListApplicationDocuments_def sql_SignDocument_def sql_CreateApplication_def sql_GetApplication_def
  sql_ListApplicationsByStatus_def sql_AssignApplication_def sql_SetApplicationStatus_def sql_AppendApplicationEvent_def
  sql_ListApplicationTimeline_def sql_WriteApplicationNote_def sql_EditApplicationNote_def sql_CreateTemplate_def
  sql_GetTemplateByKey_def sql_PublishTemplateVersion_def sql_GetLatestPublishedVersion_def sql_RecordSubmission_def
  sql_GetVersionForSubmission_def sql_SearchSubmissions_def sql_AppendAuditEntry_def sql_ListAuditEntriesForEntity_def
  sql_ListRecentAuditEntries_def sql_GetUserByEmail_def sql_InviteMember_def sql_ListShelterMembers_def
  sql_GetUserCredentialsByEmail_def sql_ListOwnMemberships_def sql_GetCurrentShelter_def sql_UpdateShelterProfile_def

section \<open>A call on the connection\<close>

lemma answering_frame:
  "answering f m = (r, c') \<Longrightarrow> (\<And>r1. m = (r1, c') \<Longrightarrow> same_session c c') \<Longrightarrow> same_session c c'"
  by (cases m) (auto simp: answering_def)

lemma run_as_frame: "run_as env who w ts f c = (r, c') \<Longrightarrow> same_session c c'"
  unfolding run_as_def by (rule run_stmt_frame)

lemma run_reference_frame: "run_reference who f c = (r, c') \<Longrightarrow> same_session c c'"
  unfolding run_reference_def by (rule run_stmt_frame)

lemma run_query_frame: "run_query env who q c = (r, c') \<Longrightarrow> same_session c c'"
  by (cases q) (auto simp: method_defs elim!: answering_frame intro: run_as_frame run_reference_frame)

lemma answering_as:
  assumes "answering f (run_as env who w ts g c) = (r, c')" and "door_of env who c = Inr d" and "work c = Some db"
  shows "case r of Inl e \<Rightarrow> work c' = Some db | Inr a \<Rightarrow> \<exists>db'. answered f (g d db) = Inr (a, db') \<and> work c' = Some db'"
  using assms
  by (auto simp: answering_def run_as_def run_stmt_def answered_def split: prod.splits option.splits if_splits sum.splits)

lemma door_auth: "door_of env who c = Inr d \<Longrightarrow> is_auth d \<longleftrightarrow> who = App_auth"
  by (cases who; cases "scope_of env ''app.shelter_id'' c"; cases "scope_of env ''app.user_id'' c")
    (auto simp: door_of_def)

lemma answering_reference:
  assumes "answering f (run_reference who g c) = (r, c')" and "door_of env who c = Inr d" and "work c = Some db"
  shows "case r of Inl e \<Rightarrow> work c' = Some db
    | Inr a \<Rightarrow> (if is_auth d then Inl InsufficientPrivilege else Inr (f (g db), db)) = Inr (a, db) \<and> work c' = Some db"
  using assms door_auth [OF assms(2)]
  by (auto simp: answering_def run_reference_def run_stmt_def split: prod.splits option.splits if_splits sum.splits)

text \<open>What a call comes to: an error that leaves the transaction's data alone, or the statement's effect on it.\<close>

lemma run_query_effect:
  assumes "run_query env who q c = (r, c')" and "door_of env who c = Inr d" and "work c = Some db"
  shows "case r of Inl e \<Rightarrow> work c' = Some db
    | Inr a \<Rightarrow> \<exists>db'. statement env (clock c) q d db = Inr (a, db') \<and> work c' = Some db'"
proof (cases q)
  case Q_ListSpecies
  from assms(1) [unfolded this run_query.simps ListSpecies_def] show ?thesis
    using answering_reference [OF _ assms(2,3)] Q_ListSpecies by (fastforce split: sum.splits)
next
  case (Q_ListBreedsForSpecies i)
  from assms(1) [unfolded this run_query.simps ListBreedsForSpecies_def] show ?thesis
    using answering_reference [OF _ assms(2,3)] Q_ListBreedsForSpecies by (fastforce split: sum.splits)
qed (insert assms(1), hypsubst, simp only: run_query.simps statement.simps method_defs,
    drule answering_as [OF _ assms(2,3)], assumption)+

section \<open>A transaction as a program\<close>

text \<open>
  What a callback does with the query layer: it calls, looks at the answer or the error, and calls
  again or finishes. Any handler's use of the layer is one of these.
\<close>

datatype ('e, 'r) prog = Finish "'e + 'r" | Call query "db_err + answer \<Rightarrow> ('e, 'r) prog"

primrec run_prog ::
  "sql_env \<Rightarrow> role \<Rightarrow> ('e, 'r) prog \<Rightarrow> (tenantdb, 'z) pgconn_scheme \<Rightarrow> ('e + 'r) \<times> (tenantdb, 'z) pgconn_scheme"
where
  "run_prog env who (Finish r) = (\<lambda>c. (r, c))"
| "run_prog env who (Call q k) = (\<lambda>c. case run_query env who q c of (a, c1) \<Rightarrow> run_prog env who (k a) c1)"

lemma run_prog_frame: "run_prog env who p c = (r, c') \<Longrightarrow> same_session c c'"
proof (induction p arbitrary: c)
  case (Call q k)
  then obtain a c1 where q: "run_query env who q c = (a, c1)" and k: "run_prog env who (k a) c1 = (r, c')"
    by (auto split: prod.splits)
  show ?case by (rule same_session_trans [OF run_query_frame [OF q] Call.IH [OF _ k]]) simp
qed simp

lemma framed_prog: "framed (run_prog env who p)"
  unfolding framed_def using run_prog_frame by blast

text \<open>A relation every statement's effect is within holds from the start of a program to its end.\<close>

lemma run_prog_effect:
  assumes "run_prog env who p c = (r, c')" and "door_of env who c = Inr d" and "work c = Some db"
    and refl: "\<And>x. R x x" and trans: "\<And>x y z. R x y \<Longrightarrow> R y z \<Longrightarrow> R x z"
    and stmt: "\<And>q x a y. statement env (clock c) q d x = Inr (a, y) \<Longrightarrow> R x y"
  shows "\<exists>db'. work c' = Some db' \<and> R db db'"
  using assms(1-3) stmt
proof (induction p arbitrary: c db)
  case (Call q k)
  from Call.prems(1) obtain a c1 where q: "run_query env who q c = (a, c1)"
    and k: "run_prog env who (k a) c1 = (r, c')" by (auto split: prod.splits)
  have s: "same_session c c1" by (rule run_query_frame [OF q])
  then have "guc_value c1 = guc_value c" and t: "clock c1 = clock c"
    by (simp_all add: same_session_def guc_value_def)
  then have "current_setting c1 = current_setting c" by (simp add: current_setting_def fun_eq_iff)
  then have d: "door_of env who c1 = Inr d" using Call.prems(2) by (cases who) (simp_all add: door_of_def scope_of_def)
  obtain db1 where w: "work c1 = Some db1" and R: "R db db1"
    using run_query_effect [OF q Call.prems(2,3)] Call.prems(4) refl by (auto split: sum.splits)
  from Call.IH [OF _ k d w] Call.prems(4) t obtain db' where "work c' = Some db'" "R db1 db'" by auto
  with trans [OF R] show ?case by blast
qed (use refl in auto)

end
