(* ===== verification/TenantViews.thy ===== *)
theory TenantViews imports Querier
begin

text \<open>
  What row-level security makes of one shared database: a shelter's session behaves as on a database
  that holds its own rows and nothing else, an unscoped session as on an empty one, and a public one as
  on the published catalog. Two families of facts: the views and how the policies and keys read them,
  and the commuting square for every statement.
\<close>

section \<open>The views\<close>

text \<open>The rows of one shelter. Users and the reference tables belong to no shelter and stay.\<close>

definition only :: "(uuid \<Rightarrow> bool) \<Rightarrow> tenantdb \<Rightarrow> tenantdb" where
  "only P db = db\<lparr>
     shelters := filter (\<lambda>r. P (sl_id r)) (shelters db),
     memberships := filter (\<lambda>r. P (mb_shelter_id r)) (memberships db),
     media := filter (\<lambda>r. P (md_shelter_id r)) (media db),
     pets := filter (\<lambda>r. P (p_shelter_id r)) (pets db),
     pet_media := filter (\<lambda>r. P (pm_shelter_id r)) (pet_media db),
     health_records := filter (\<lambda>r. P (hr_shelter_id r)) (health_records db),
     status_history := filter (\<lambda>r. P (sh_shelter_id r)) (status_history db),
     templates := filter (\<lambda>r. P (ft_shelter_id r)) (templates db),
     versions := filter (\<lambda>r. P (fv_shelter_id r)) (versions db),
     submissions := filter (\<lambda>r. P (fs_shelter_id r)) (submissions db),
     applications := filter (\<lambda>r. P (aa_shelter_id r)) (applications db),
     events := filter (\<lambda>r. P (ae_shelter_id r)) (events db),
     app_notes := filter (\<lambda>r. P (an_shelter_id r)) (app_notes db),
     documents := filter (\<lambda>r. P (dc_shelter_id r)) (documents db),
     audit_log := filter (\<lambda>r. P (al_shelter_id r)) (audit_log db)\<rparr>"

definition own_view :: "uuid \<Rightarrow> tenantdb \<Rightarrow> tenantdb" where
  "own_view u = only (\<lambda>s. s = u)"

definition others_view :: "uuid \<Rightarrow> tenantdb \<Rightarrow> tenantdb" where
  "others_view u = only (\<lambda>s. s \<noteq> u)"

lemma only_fields [simp]:
  "users (only P db) = users db" "species_rows (only P db) = species_rows db" "breed_rows (only P db) = breed_rows db"
  "shelters (only P db) = filter (\<lambda>r. P (sl_id r)) (shelters db)"
  "memberships (only P db) = filter (\<lambda>r. P (mb_shelter_id r)) (memberships db)"
  "media (only P db) = filter (\<lambda>r. P (md_shelter_id r)) (media db)"
  "pets (only P db) = filter (\<lambda>r. P (p_shelter_id r)) (pets db)"
  "pet_media (only P db) = filter (\<lambda>r. P (pm_shelter_id r)) (pet_media db)"
  "health_records (only P db) = filter (\<lambda>r. P (hr_shelter_id r)) (health_records db)"
  "status_history (only P db) = filter (\<lambda>r. P (sh_shelter_id r)) (status_history db)"
  "templates (only P db) = filter (\<lambda>r. P (ft_shelter_id r)) (templates db)"
  "versions (only P db) = filter (\<lambda>r. P (fv_shelter_id r)) (versions db)"
  "submissions (only P db) = filter (\<lambda>r. P (fs_shelter_id r)) (submissions db)"
  "applications (only P db) = filter (\<lambda>r. P (aa_shelter_id r)) (applications db)"
  "events (only P db) = filter (\<lambda>r. P (ae_shelter_id r)) (events db)"
  "app_notes (only P db) = filter (\<lambda>r. P (an_shelter_id r)) (app_notes db)"
  "documents (only P db) = filter (\<lambda>r. P (dc_shelter_id r)) (documents db)"
  "audit_log (only P db) = filter (\<lambda>r. P (al_shelter_id r)) (audit_log db)"
  by (simp_all add: only_def)

text \<open>Storing a table's new rows and taking the view commute.\<close>

lemma only_store [simp]:
  "only P (db\<lparr>shelters := a\<rparr>) = (only P db)\<lparr>shelters := filter (\<lambda>r. P (sl_id r)) a\<rparr>"
  "only P (db\<lparr>memberships := b\<rparr>) = (only P db)\<lparr>memberships := filter (\<lambda>r. P (mb_shelter_id r)) b\<rparr>"
  "only P (db\<lparr>media := e\<rparr>) = (only P db)\<lparr>media := filter (\<lambda>r. P (md_shelter_id r)) e\<rparr>"
  "only P (db\<lparr>pets := f\<rparr>) = (only P db)\<lparr>pets := filter (\<lambda>r. P (p_shelter_id r)) f\<rparr>"
  "only P (db\<lparr>pet_media := g\<rparr>) = (only P db)\<lparr>pet_media := filter (\<lambda>r. P (pm_shelter_id r)) g\<rparr>"
  "only P (db\<lparr>health_records := h\<rparr>) = (only P db)\<lparr>health_records := filter (\<lambda>r. P (hr_shelter_id r)) h\<rparr>"
  "only P (db\<lparr>status_history := i\<rparr>) = (only P db)\<lparr>status_history := filter (\<lambda>r. P (sh_shelter_id r)) i\<rparr>"
  "only P (db\<lparr>templates := j\<rparr>) = (only P db)\<lparr>templates := filter (\<lambda>r. P (ft_shelter_id r)) j\<rparr>"
  "only P (db\<lparr>versions := k\<rparr>) = (only P db)\<lparr>versions := filter (\<lambda>r. P (fv_shelter_id r)) k\<rparr>"
  "only P (db\<lparr>submissions := l\<rparr>) = (only P db)\<lparr>submissions := filter (\<lambda>r. P (fs_shelter_id r)) l\<rparr>"
  "only P (db\<lparr>applications := m\<rparr>) = (only P db)\<lparr>applications := filter (\<lambda>r. P (aa_shelter_id r)) m\<rparr>"
  "only P (db\<lparr>events := n\<rparr>) = (only P db)\<lparr>events := filter (\<lambda>r. P (ae_shelter_id r)) n\<rparr>"
  "only P (db\<lparr>app_notes := p\<rparr>) = (only P db)\<lparr>app_notes := filter (\<lambda>r. P (an_shelter_id r)) p\<rparr>"
  "only P (db\<lparr>documents := q\<rparr>) = (only P db)\<lparr>documents := filter (\<lambda>r. P (dc_shelter_id r)) q\<rparr>"
  "only P (db\<lparr>audit_log := t\<rparr>) = (only P db)\<lparr>audit_log := filter (\<lambda>r. P (al_shelter_id r)) t\<rparr>"
  by (cases db; simp add: only_def)+

lemma filter_update_keeps:
  "(\<And>r. k (f r) = k r) \<Longrightarrow> filter (\<lambda>r. P (k r)) (update_rows Q f rows) = update_rows Q f (filter (\<lambda>r. P (k r)) rows)"
  unfolding update_rows_def by (induction rows) auto

lemma update_rows_none: "(\<And>r. r \<in> set rows \<Longrightarrow> \<not> Q r) \<Longrightarrow> update_rows Q f rows = rows"
  unfolding update_rows_def by (induction rows) auto

lemma filter_own: "filter (\<lambda>r. k r = u \<and> Q r) rows = filter Q (filter (\<lambda>r. k r = u) rows)"
  by (simp add: conj_commute)

section \<open>What a statement can do\<close>

text \<open>
  Whatever the query, a statement that succeeds did one of these: nothing, one row of the scope's
  shelter appended to one table with its keys resolved, or rows of that shelter updated in one table
  with their keys kept.
\<close>

inductive effect :: "door \<Rightarrow> tenantdb \<Rightarrow> tenantdb \<Rightarrow> bool" for d db where
  nothing: "effect d db db"
| pet_added: "own d (p_shelter_id r) \<Longrightarrow> p_id r \<notin> set (map p_id (pets db)) \<Longrightarrow>
    shelter_exists db (p_shelter_id r) \<Longrightarrow> effect d db (db\<lparr>pets := pets db @ [r]\<rparr>)"
| pets_updated: "(\<And>r. Q r \<Longrightarrow> own d (p_shelter_id r)) \<Longrightarrow>
    (\<And>r. p_id (f r) = p_id r \<and> p_shelter_id (f r) = p_shelter_id r) \<Longrightarrow>
    effect d db (db\<lparr>pets := update_rows Q f (pets db)\<rparr>)"
| change_added: "own d (sh_shelter_id r) \<Longrightarrow> pet_of db (sh_pet_id r) (sh_shelter_id r) \<Longrightarrow>
    effect d db (db\<lparr>status_history := status_history db @ [r]\<rparr>)"
| photo_added: "own d (pm_shelter_id r) \<Longrightarrow> pet_of db (pm_pet_id r) (pm_shelter_id r) \<Longrightarrow>
    media_of db (pm_media_id r) (pm_shelter_id r) \<Longrightarrow> effect d db (db\<lparr>pet_media := pet_media db @ [r]\<rparr>)"
| health_added: "own d (hr_shelter_id r) \<Longrightarrow> pet_of db (hr_pet_id r) (hr_shelter_id r) \<Longrightarrow>
    when_given (\<lambda>m. media_of db m (hr_shelter_id r)) (document_media_id r) \<Longrightarrow>
    effect d db (db\<lparr>health_records := health_records db @ [r]\<rparr>)"
| medium_added: "own d (md_shelter_id r) \<Longrightarrow> md_id r \<notin> set (map md_id (media db)) \<Longrightarrow>
    effect d db (db\<lparr>media := media db @ [r]\<rparr>)"
| media_updated: "(\<And>r. Q r \<Longrightarrow> own d (md_shelter_id r)) \<Longrightarrow>
    (\<And>r. md_id (f r) = md_id r \<and> md_shelter_id (f r) = md_shelter_id r) \<Longrightarrow>
    effect d db (db\<lparr>media := update_rows Q f (media db)\<rparr>)"
| document_added: "own d (dc_shelter_id r) \<Longrightarrow> media_of db (dc_media_id r) (dc_shelter_id r) \<Longrightarrow>
    when_given (\<lambda>i. application_of db i (dc_shelter_id r)) (dc_application_id r) \<Longrightarrow>
    effect d db (db\<lparr>documents := documents db @ [r]\<rparr>)"
| documents_updated: "(\<And>r. Q r \<Longrightarrow> own d (dc_shelter_id r)) \<Longrightarrow>
    (\<And>r. dc_id (f r) = dc_id r \<and> dc_shelter_id (f r) = dc_shelter_id r \<and> dc_media_id (f r) = dc_media_id r
       \<and> dc_application_id (f r) = dc_application_id r) \<Longrightarrow>
    effect d db (db\<lparr>documents := update_rows Q f (documents db)\<rparr>)"
| application_added: "own d (aa_shelter_id r) \<Longrightarrow> aa_id r \<notin> set (map aa_id (applications db)) \<Longrightarrow>
    pet_of db (aa_pet_id r) (aa_shelter_id r) \<Longrightarrow> assigned_to_user_id r = None \<Longrightarrow>
    effect d db (db\<lparr>applications := applications db @ [r]\<rparr>)"
| applications_updated: "(\<And>r. Q r \<Longrightarrow> own d (aa_shelter_id r)) \<Longrightarrow>
    (\<And>r. aa_id (f r) = aa_id r \<and> aa_shelter_id (f r) = aa_shelter_id r \<and> aa_pet_id (f r) = aa_pet_id r
       \<and> applicant_user_id (f r) = applicant_user_id r) \<Longrightarrow>
    (\<And>r. r \<in> set (applications db) \<Longrightarrow> Q r \<Longrightarrow> assigned_to_user_id (f r) = assigned_to_user_id r
       \<or> when_given (\<lambda>w. member_of db w (aa_shelter_id r)) (assigned_to_user_id (f r))) \<Longrightarrow>
    effect d db (db\<lparr>applications := update_rows Q f (applications db)\<rparr>)"
| event_added: "own d (ae_shelter_id r) \<Longrightarrow> application_of db (ae_application_id r) (ae_shelter_id r) \<Longrightarrow>
    effect d db (db\<lparr>events := events db @ [r]\<rparr>)"
| note_added: "own d (an_shelter_id r) \<Longrightarrow> application_of db (an_application_id r) (an_shelter_id r) \<Longrightarrow>
    effect d db (db\<lparr>app_notes := app_notes db @ [r]\<rparr>)"
| notes_updated: "(\<And>r. Q r \<Longrightarrow> own d (an_shelter_id r)) \<Longrightarrow>
    (\<And>r. an_id (f r) = an_id r \<and> an_shelter_id (f r) = an_shelter_id r
       \<and> an_application_id (f r) = an_application_id r) \<Longrightarrow>
    effect d db (db\<lparr>app_notes := update_rows Q f (app_notes db)\<rparr>)"
| template_added: "own d (ft_shelter_id r) \<Longrightarrow> ft_id r \<notin> set (map ft_id (templates db)) \<Longrightarrow>
    (ft_shelter_id r, ft_key r) \<notin> set (map (\<lambda>t. (ft_shelter_id t, ft_key t)) (templates db)) \<Longrightarrow>
    effect d db (db\<lparr>templates := templates db @ [r]\<rparr>)"
| version_added: "own d (fv_shelter_id r) \<Longrightarrow> fv_id r \<notin> set (map fv_id (versions db)) \<Longrightarrow>
    (fv_shelter_id r, template_id r, fv_version r)
      \<notin> set (map (\<lambda>v. (fv_shelter_id v, template_id v, fv_version v)) (versions db)) \<Longrightarrow>
    template_of db (template_id r) (fv_shelter_id r) \<Longrightarrow> fv_published_at r \<noteq> None \<Longrightarrow>
    effect d db (db\<lparr>versions := versions db @ [r]\<rparr>)"
| submission_added: "own d (fs_shelter_id r) \<Longrightarrow> fs_id r \<notin> set (map fs_id (submissions db)) \<Longrightarrow>
    version_of db (template_version_id r) (fs_shelter_id r) \<Longrightarrow>
    when_given (\<lambda>i. application_of db i (fs_shelter_id r)) (fs_application_id r) \<Longrightarrow>
    effect d db (db\<lparr>submissions := submissions db @ [r]\<rparr>)"
| entry_added: "own d (al_shelter_id r) \<Longrightarrow> effect d db (db\<lparr>audit_log := audit_log db @ [r]\<rparr>)"
| membership_added: "own d (mb_shelter_id r) \<Longrightarrow> \<not> member_of db (mb_user_id r) (mb_shelter_id r) \<Longrightarrow>
    mb_status r = ''invited'' \<Longrightarrow> user_exists db (mb_user_id r) \<Longrightarrow>
    effect d db (db\<lparr>memberships := memberships db @ [r]\<rparr>)"
| shelters_updated: "(\<And>r. Q r \<Longrightarrow> own d (sl_id r)) \<Longrightarrow> (\<And>r. sl_id (f r) = sl_id r) \<Longrightarrow>
    effect d db (db\<lparr>shelters := update_rows Q f (shelters db)\<rparr>)"

lemma answered_Inr: "answered f x = Inr (a, y) \<longleftrightarrow> (\<exists>b. x = Inr (b, y) \<and> a = f b)"
  by (cases x) (auto simp: answered_def)

lemma guarded_own: "guarded ((\<not> own d s, e) # cs) r = Inr x \<longleftrightarrow> own d s \<and> guarded cs r = Inr x"
  by simp

lemma guarded_passed: "guarded cs r = Inr x \<Longrightarrow> r = Inr x"
  by (simp add: guarded_Inr)

lemmas stored = guarded_own tenant_only_Inr with_json_Inr Let_def

lemma new_row_owner [simp]:
  "p_shelter_id (new_pet now a1) = cp_shelter_id a1" "sh_shelter_id (new_status_change now a2) = sc_shelter_id a2"
  "pm_shelter_id (new_photo now a3) = ap_shelter_id a3" "hr_shelter_id (new_health_record now a4) = he_shelter_id a4"
  "md_shelter_id (new_medium now a5) = up_shelter_id a5" "dc_shelter_id (new_document now g a6) = fd_shelter_id a6"
  "aa_shelter_id (new_application now a7) = ca_shelter_id a7" "ae_shelter_id (new_event now b a8) = ev_shelter_id a8"
  "an_shelter_id (new_note now a9) = np_shelter_id a9" "ft_shelter_id (new_template now a10) = ct_shelter_id a10"
  "fv_shelter_id (new_version now b a11) = pv_shelter_id a11" "fs_shelter_id (new_submission now b a12) = rs_shelter_id a12"
  "al_shelter_id (new_audit_entry now i x y a13) = au_shelter_id a13" "mb_shelter_id (new_membership now a14) = im_shelter_id a14"
  by (simp_all add: new_pet_def new_status_change_def new_photo_def new_health_record_def new_medium_def
      new_document_def new_application_def new_event_def new_note_def new_template_def new_version_def
      new_submission_def new_audit_entry_def new_membership_def)

lemma published_owner [simp]: "p_shelter_id (published now p) = p_shelter_id p"
  by (simp add: published_def)


text \<open>The statements that write, one by one.\<close>

lemma effect_pets:
  "sql_CreatePet now a d db = Inr (x, db') \<Longrightarrow> effect d db db'"
  "sql_PublishPet now i d db = Inr (n, db') \<Longrightarrow> effect d db db'"
  "sql_AppendStatusChange now b d db = Inr (y, db') \<Longrightarrow> effect d db db'"
  "sql_AttachPhoto now e d db = Inr (y, db') \<Longrightarrow> effect d db db'"
  "sql_RecordHealthEvent now g d db = Inr (z, db') \<Longrightarrow> effect d db db'"
proof -
  show "sql_CreatePet now a d db = Inr (x, db') \<Longrightarrow> effect d db db'"
    unfolding sql_CreatePet_def guarded_Inr by (auto intro!: pet_added simp: new_pet_def)
  show "sql_PublishPet now i d db = Inr (n, db') \<Longrightarrow> effect d db db'"
    unfolding sql_PublishPet_def by (auto intro!: pets_updated simp: stored published_def)
  show "sql_AppendStatusChange now b d db = Inr (y, db') \<Longrightarrow> effect d db db'"
    unfolding sql_AppendStatusChange_def guarded_Inr by (auto intro!: change_added simp: new_status_change_def)
  show "sql_AttachPhoto now e d db = Inr (y, db') \<Longrightarrow> effect d db db'"
    unfolding sql_AttachPhoto_def guarded_Inr by (auto intro!: photo_added simp: new_photo_def)
  show "sql_RecordHealthEvent now g d db = Inr (z, db') \<Longrightarrow> effect d db db'"
    unfolding sql_RecordHealthEvent_def guarded_Inr by (auto intro!: health_added simp: new_health_record_def)
qed

lemma effect_media:
  "sql_RecordUpload now a d db = Inr (x, db') \<Longrightarrow> effect d db db'"
  "sql_SoftDeleteMedia now i d db = Inr (n, db') \<Longrightarrow> effect d db db'"
  "sql_FileDocument env now b d db = Inr (y, db') \<Longrightarrow> effect d db db'"
  "sql_SignDocument env now i s d db = Inr (n, db') \<Longrightarrow> effect d db db'"
proof -
  show "sql_RecordUpload now a d db = Inr (x, db') \<Longrightarrow> effect d db db'"
    unfolding sql_RecordUpload_def guarded_Inr by (auto intro!: medium_added simp: new_medium_def)
  show "sql_SoftDeleteMedia now i d db = Inr (n, db') \<Longrightarrow> effect d db db'"
    unfolding sql_SoftDeleteMedia_def by (auto intro!: media_updated simp: stored)
  show "sql_FileDocument env now b d db = Inr (y, db') \<Longrightarrow> effect d db db'"
    unfolding sql_FileDocument_def with_json_Inr guarded_Inr by (auto intro!: document_added simp: new_document_def)
  show "sql_SignDocument env now i s d db = Inr (n, db') \<Longrightarrow> effect d db db'"
    unfolding sql_SignDocument_def with_json_Inr by (auto intro!: documents_updated simp: stored)
qed

lemma effect_applications:
  "sql_CreateApplication now a d db = Inr (x, db') \<Longrightarrow> effect d db db'"
  "sql_AssignApplication now i w d db = Inr (n, db') \<Longrightarrow> effect d db db'"
  "sql_SetApplicationStatus now i st note d db = Inr (n, db') \<Longrightarrow> effect d db db'"
  "sql_AppendApplicationEvent env now b d db = Inr (u, db') \<Longrightarrow> effect d db db'"
  "sql_WriteApplicationNote now e d db = Inr (y, db') \<Longrightarrow> effect d db db'"
  "sql_EditApplicationNote now i body d db = Inr (n, db') \<Longrightarrow> effect d db db'"
proof -
  show "sql_CreateApplication now a d db = Inr (x, db') \<Longrightarrow> effect d db db'"
    unfolding sql_CreateApplication_def guarded_Inr by (auto intro!: application_added simp: new_application_def)
  show "sql_AssignApplication now i w d db = Inr (n, db') \<Longrightarrow> effect d db db'"
    unfolding sql_AssignApplication_def Let_def tenant_only_Inr guarded_Inr by (auto intro!: applications_updated)
  show "sql_SetApplicationStatus now i st note d db = Inr (n, db') \<Longrightarrow> effect d db db'"
    unfolding sql_SetApplicationStatus_def Let_def tenant_only_Inr guarded_Inr by (auto intro!: applications_updated)
  show "sql_AppendApplicationEvent env now b d db = Inr (u, db') \<Longrightarrow> effect d db db'"
    unfolding sql_AppendApplicationEvent_def with_json_Inr guarded_Inr by (auto intro!: event_added simp: new_event_def)
  show "sql_WriteApplicationNote now e d db = Inr (y, db') \<Longrightarrow> effect d db db'"
    unfolding sql_WriteApplicationNote_def guarded_Inr by (auto intro!: note_added simp: new_note_def)
  show "sql_EditApplicationNote now i body d db = Inr (n, db') \<Longrightarrow> effect d db db'"
    unfolding sql_EditApplicationNote_def Let_def tenant_only_Inr by (auto intro!: notes_updated)
qed

lemma effect_forms:
  "sql_CreateTemplate now a d db = Inr (x, db') \<Longrightarrow> effect d db db'"
  "sql_PublishTemplateVersion env now b d db = Inr (y, db') \<Longrightarrow> effect d db db'"
  "sql_RecordSubmission env now e d db = Inr (z, db') \<Longrightarrow> effect d db db'"
  "sql_AppendAuditEntry env now i g d db = Inr (n, db') \<Longrightarrow> effect d db db'"
  "sql_InviteMember now h d db = Inr (u, db') \<Longrightarrow> effect d db db'"
  "sql_UpdateShelterProfile now k d db = Inr (m, db') \<Longrightarrow> effect d db db'"
proof -
  show "sql_CreateTemplate now a d db = Inr (x, db') \<Longrightarrow> effect d db db'"
    unfolding sql_CreateTemplate_def guarded_Inr by (auto intro!: template_added simp: new_template_def)
  show "sql_PublishTemplateVersion env now b d db = Inr (y, db') \<Longrightarrow> effect d db db'"
    unfolding sql_PublishTemplateVersion_def with_json_Inr guarded_Inr by (auto intro!: version_added simp: new_version_def)
  show "sql_RecordSubmission env now e d db = Inr (z, db') \<Longrightarrow> effect d db db'"
    unfolding sql_RecordSubmission_def with_json_Inr guarded_Inr by (auto intro!: submission_added simp: new_submission_def)
  show "sql_AppendAuditEntry env now i g d db = Inr (n, db') \<Longrightarrow> effect d db db'"
    unfolding sql_AppendAuditEntry_def with_json_Inr guarded_Inr by (auto intro!: entry_added simp: new_audit_entry_def)
  show "sql_InviteMember now h d db = Inr (u, db') \<Longrightarrow> effect d db db'"
    unfolding sql_InviteMember_def guarded_Inr by (auto intro!: membership_added simp: new_membership_def)
  show "sql_UpdateShelterProfile now k d db = Inr (m, db') \<Longrightarrow> effect d db db'"
    unfolding sql_UpdateShelterProfile_def Let_def tenant_only_Inr by (auto intro!: shelters_updated)
qed

lemmas effects = effect_pets effect_media effect_applications effect_forms

lemmas read_defs = sql_GetPet_def sql_ListPetsByStatus_def sql_ListStatusHistory_def sql_GetMedia_def
  sql_ListApplicationDocuments_def sql_GetApplication_def sql_ListApplicationsByStatus_def
  sql_ListApplicationTimeline_def sql_GetTemplateByKey_def sql_GetLatestPublishedVersion_def
  sql_GetVersionForSubmission_def sql_SearchSubmissions_def sql_ListAuditEntriesForEntity_def
  sql_ListRecentAuditEntries_def sql_GetUserByEmail_def sql_ListShelterMembers_def
  sql_GetUserCredentialsByEmail_def sql_ListOwnMemberships_def sql_GetCurrentShelter_def

lemma statement_effect: "statement env now q d db = Inr (a, db') \<Longrightarrow> effect d db db'"
  by (cases q) (auto simp: answered_Inr read_defs tenant_only_Inr with_json_Inr split: if_splits
      intro: effects effect.nothing)

section \<open>Nobody writes another shelter's rows\<close>

lemma effect_others:
  assumes "effect d db db'" and "\<And>s. own d s \<Longrightarrow> s = u"
  shows "others_view u db' = others_view u db"
  using assms unfolding others_view_def
  by (cases rule: effect.cases) (auto simp: filter_update_rows)

lemma effect_shared: "effect d db db' \<Longrightarrow> users db' = users db \<and> species_rows db' = species_rows db \<and> breed_rows db' = breed_rows db"
  by (erule effect.cases) simp_all

lemma effect_unscoped:
  assumes "effect d db db'" and no: "\<And>s. \<not> own d s"
  shows "db' = db"
proof -
  have same: "update_rows Q f rows = rows" if "\<And>r. Q r \<Longrightarrow> own d (k r)" for Q f rows and k :: "'r \<Rightarrow> uuid"
    using that no by (intro update_rows_none) blast
  show ?thesis
    using assms
  proof (cases rule: effect.cases)
    case (pets_updated Q f)
    from pets_updated(2) have "update_rows Q f (pets db) = pets db" by (rule same)
    with pets_updated show ?thesis by simp
  next
    case (media_updated Q f)
    from media_updated(2) have "update_rows Q f (media db) = media db" by (rule same)
    with media_updated show ?thesis by simp
  next
    case (documents_updated Q f)
    from documents_updated(2) have "update_rows Q f (documents db) = documents db" by (rule same)
    with documents_updated show ?thesis by simp
  next
    case (applications_updated Q f)
    from applications_updated(2) have "update_rows Q f (applications db) = applications db" by (rule same)
    with applications_updated show ?thesis by simp
  next
    case (notes_updated Q f)
    from notes_updated(2) have "update_rows Q f (app_notes db) = app_notes db" by (rule same)
    with notes_updated show ?thesis by simp
  next
    case (shelters_updated Q f)
    from shelters_updated(2) have "update_rows Q f (shelters db) = shelters db" by (rule same)
    with shelters_updated show ?thesis by simp
  qed simp_all
qed

section \<open>Keys and policies on a shelter's own rows\<close>

definition global_keys :: "string set" where
  "global_keys = {''pets_pkey'', ''pet_status_history_pkey'', ''pet_media_pkey'', ''pet_health_records_pkey'',
     ''media_pkey'', ''media_storage_key_key'', ''documents_pkey'', ''adoption_applications_pkey'',
     ''application_events_pkey'', ''application_notes_pkey'', ''form_templates_pkey'',
     ''form_template_versions_pkey'', ''form_submissions_pkey'', ''audit_log_pkey'', ''memberships_pkey''}"

lemma own_keys:
  "shelter_exists (own_view u db) u = shelter_exists db u" "user_exists (own_view u db) = user_exists db"
  "pet_of (own_view u db) i u = pet_of db i u" "media_of (own_view u db) i u = media_of db i u"
  "template_of (own_view u db) i u = template_of db i u" "version_of (own_view u db) i u = version_of db i u"
  "application_of (own_view u db) i u = application_of db i u" "member_of (own_view u db) i u = member_of db i u"
  by (auto simp: own_view_def shelter_exists_def user_exists_def fun_eq_iff pet_of_def media_of_def template_of_def
      version_of_def application_of_def member_of_def)

lemma own_unique: "(u, k) \<in> set (map (\<lambda>r. (s r, g r)) (filter (\<lambda>r. s r = u) rows)) \<longleftrightarrow> (u, k) \<in> set (map (\<lambda>r. (s r, g r)) rows)"
  by auto

lemma own_policies:
  "membership_visible (TenantDoor (Some u)) = (\<lambda>m. mb_shelter_id m = u)"
  "pet_visible (TenantDoor (Some u)) p \<longleftrightarrow> p_shelter_id p = u"
  "media_visible (TenantDoor (Some u)) db' x \<longleftrightarrow> md_shelter_id x = u"
  "user_visible (TenantDoor (Some u)) (own_view u db) = user_visible (TenantDoor (Some u)) db"
  by (auto simp: membership_visible_def pet_visible_def media_visible_def user_visible_def own_view_def fun_eq_iff)

text \<open>The square closes for a statement, unless it fails on a key that is unique across shelters.\<close>

definition square :: "uuid \<Rightarrow> tenantdb \<Rightarrow> (tenantdb \<Rightarrow> db_err + 'a \<times> tenantdb) \<Rightarrow> bool" where
  "square u db f \<longleftrightarrow> map_sum id (apsnd (own_view u)) (f db) = f (own_view u db)
     \<or> (\<exists>n \<in> global_keys. f db = Inl (UniqueViolation n))"

lemma square_answered: "square u db f \<Longrightarrow> square u db (\<lambda>x. answered g (f x))"
  unfolding square_def answered_def by (cases "f db"; cases "f (own_view u db)") auto

lemma square_json: "(\<And>v. square u db (f v)) \<Longrightarrow> square u db (\<lambda>x. with_json env p (\<lambda>v. f v x))"
  unfolding square_def with_json_def by (auto split: option.splits)

lemma square_guarded:
  assumes "list_all2 (\<lambda>c c'. snd c = snd c' \<and> (fst c = fst c' \<or> (fst c' \<longrightarrow> fst c) \<and> (\<exists>n \<in> global_keys. snd c = UniqueViolation n)))
      cs cs'" and "map_sum id g r = r'"
  shows "map_sum id g (guarded cs r) = guarded cs' r' \<or> (\<exists>n \<in> global_keys. guarded cs r = Inl (UniqueViolation n))"
  using assms by (induction rule: list_all2_induct) auto

lemma own_rows [simp]:
  "filter (\<lambda>r. k r = u \<and> Q r) (filter (\<lambda>r. k r = u) rows) = filter (\<lambda>r. k r = u \<and> Q r) rows"
  "filter (\<lambda>r. k r = u) (filter (\<lambda>r. k r = u) rows) = filter (\<lambda>r. k r = u) rows"
  by (induction rows) auto

lemma own_update [simp]:
  "(\<And>r. k (f r) = k r) \<Longrightarrow> filter (\<lambda>r. k r = u) (update_rows (\<lambda>r. k r = u \<and> Q r) f rows)
     = update_rows (\<lambda>r. k r = u \<and> Q r) f (filter (\<lambda>r. k r = u) rows)"
  "count_rows (\<lambda>r. k r = u \<and> Q r) (filter (\<lambda>r. k r = u) rows) = count_rows (\<lambda>r. k r = u \<and> Q r) rows"
  by (simp_all add: count_rows_def filter_update_keeps [of k f "\<lambda>s. s = u"] del: filter_filter)

lemmas own_view_fields [simp] = only_fields [of "\<lambda>s. s = u" for u, folded own_view_def]
  only_store [of "\<lambda>s. s = u" for u, folded own_view_def]

section \<open>The square, statement by statement\<close>

text \<open>Reads.\<close>

lemma square_GetPet: "square u db (sql_GetPet i (TenantDoor (Some u)))"
  by (simp add: square_def sql_GetPet_def own_policies with_json_def del: filter_filter split: option.splits)

lemma square_ListPetsByStatus: "square u db (sql_ListPetsByStatus st (TenantDoor (Some u)))"
  by (simp add: square_def sql_ListPetsByStatus_def own_policies with_json_def del: filter_filter split: option.splits)

lemma square_ListStatusHistory: "square u db (sql_ListStatusHistory i (TenantDoor (Some u)))"
  by (simp add: square_def sql_ListStatusHistory_def own_policies with_json_def del: filter_filter split: option.splits)

lemma square_GetMedia: "square u db (sql_GetMedia i (TenantDoor (Some u)))"
  by (simp add: square_def sql_GetMedia_def own_policies with_json_def del: filter_filter split: option.splits)

lemma square_ListApplicationDocuments: "square u db (sql_ListApplicationDocuments i (TenantDoor (Some u)))"
  by (simp add: square_def sql_ListApplicationDocuments_def own_policies with_json_def del: filter_filter split: option.splits)

lemma square_GetApplication: "square u db (sql_GetApplication i (TenantDoor (Some u)))"
  by (simp add: square_def sql_GetApplication_def own_policies with_json_def del: filter_filter split: option.splits)

lemma square_ListApplicationsByStatus: "square u db (sql_ListApplicationsByStatus st (TenantDoor (Some u)))"
  by (simp add: square_def sql_ListApplicationsByStatus_def own_policies with_json_def del: filter_filter split: option.splits)

lemma square_ListApplicationTimeline: "square u db (sql_ListApplicationTimeline i (TenantDoor (Some u)))"
  by (simp add: square_def sql_ListApplicationTimeline_def own_policies with_json_def del: filter_filter split: option.splits)

lemma square_GetTemplateByKey: "square u db (sql_GetTemplateByKey k (TenantDoor (Some u)))"
  by (simp add: square_def sql_GetTemplateByKey_def own_policies with_json_def del: filter_filter split: option.splits)

lemma square_GetLatestPublishedVersion: "square u db (sql_GetLatestPublishedVersion i (TenantDoor (Some u)))"
  by (simp add: square_def sql_GetLatestPublishedVersion_def own_policies with_json_def del: filter_filter split: option.splits)

lemma square_GetVersionForSubmission: "square u db (sql_GetVersionForSubmission i (TenantDoor (Some u)))"
  by (simp add: square_def sql_GetVersionForSubmission_def own_policies with_json_def del: filter_filter split: option.splits)

lemma square_SearchSubmissions: "square u db (sql_SearchSubmissions env p (TenantDoor (Some u)))"
  by (simp add: square_def sql_SearchSubmissions_def own_policies with_json_def del: filter_filter split: option.splits)

lemma square_ListAuditEntriesForEntity: "square u db (sql_ListAuditEntriesForEntity ty i (TenantDoor (Some u)))"
  by (simp add: square_def sql_ListAuditEntriesForEntity_def own_policies with_json_def del: filter_filter split: option.splits)

lemma square_ListRecentAuditEntries: "square u db (sql_ListRecentAuditEntries l (TenantDoor (Some u)))"
  by (simp add: square_def sql_ListRecentAuditEntries_def own_policies with_json_def del: filter_filter split: option.splits)

lemma square_GetUserByEmail: "square u db (sql_GetUserByEmail env e (TenantDoor (Some u)))"
  by (simp add: square_def sql_GetUserByEmail_def own_policies with_json_def del: filter_filter split: option.splits)

lemma square_ListShelterMembers: "square u db (sql_ListShelterMembers env (TenantDoor (Some u)))"
  by (simp add: square_def sql_ListShelterMembers_def own_policies with_json_def del: filter_filter split: option.splits)

lemma square_GetUserCredentialsByEmail: "square u db (sql_GetUserCredentialsByEmail env e (TenantDoor (Some u)))"
  by (simp add: square_def sql_GetUserCredentialsByEmail_def own_policies with_json_def del: filter_filter split: option.splits)

lemma square_ListOwnMemberships: "square u db (sql_ListOwnMemberships i (TenantDoor (Some u)))"
  by (simp add: square_def sql_ListOwnMemberships_def own_policies with_json_def del: filter_filter split: option.splits)

lemma square_GetCurrentShelter: "square u db (sql_GetCurrentShelter (TenantDoor (Some u)))"
  by (simp add: square_def sql_GetCurrentShelter_def own_policies with_json_def del: filter_filter split: option.splits)

text \<open>Updates.\<close>

lemma square_PublishPet: "square u db (sql_PublishPet now i (TenantDoor (Some u)))"
  by (simp add: square_def sql_PublishPet_def Let_def filter_update_keeps with_json_def del: filter_filter split: option.splits)

lemma square_SoftDeleteMedia: "square u db (sql_SoftDeleteMedia now i (TenantDoor (Some u)))"
  by (simp add: square_def sql_SoftDeleteMedia_def Let_def filter_update_keeps with_json_def del: filter_filter split: option.splits)

lemma square_SignDocument: "square u db (sql_SignDocument env now i s (TenantDoor (Some u)))"
  by (simp add: square_def sql_SignDocument_def Let_def filter_update_keeps with_json_def del: filter_filter split: option.splits)

lemma own_assignee: "assignee_must_be_active_member (TenantDoor (Some u)) (own_view u db)
    = assignee_must_be_active_member (TenantDoor (Some u)) db"
  by (auto simp: assignee_must_be_active_member_def own_policies fun_eq_iff)

lemma square_AssignApplication: "square u db (sql_AssignApplication now i w (TenantDoor (Some u)))"
  unfolding square_def sql_AssignApplication_def Let_def tenant_only_simps
  by (rule square_guarded) (auto simp: own_keys own_assignee when_given_def split: option.splits)

lemma square_SetApplicationStatus: "square u db (sql_SetApplicationStatus now i st note (TenantDoor (Some u)))"
  by (simp add: square_def sql_SetApplicationStatus_def Let_def filter_update_keeps with_json_def del: filter_filter split: option.splits)

lemma square_EditApplicationNote: "square u db (sql_EditApplicationNote now i b (TenantDoor (Some u)))"
  by (simp add: square_def sql_EditApplicationNote_def Let_def filter_update_keeps with_json_def del: filter_filter split: option.splits)

lemma square_UpdateShelterProfile: "square u db (sql_UpdateShelterProfile now a (TenantDoor (Some u)))"
  by (simp add: square_def sql_UpdateShelterProfile_def Let_def filter_update_keeps with_json_def del: filter_filter split: option.splits)

text \<open>Inserts.\<close>

lemma square_CreatePet: "square u db (sql_CreatePet now a (TenantDoor (Some u)))"
proof (cases "cp_shelter_id a = u")
  case True
  then show ?thesis
    unfolding square_def sql_CreatePet_def by (intro square_guarded) (auto simp: own_keys global_keys_def intro: rev_image_eqI)
qed (simp add: square_def sql_CreatePet_def)

lemma square_AppendStatusChange: "square u db (sql_AppendStatusChange now a (TenantDoor (Some u)))"
proof (cases "sc_shelter_id a = u")
  case True
  then show ?thesis
    unfolding square_def sql_AppendStatusChange_def by (intro square_guarded) (auto simp: own_keys global_keys_def intro: rev_image_eqI)
qed (simp add: square_def sql_AppendStatusChange_def)

lemma square_AttachPhoto: "square u db (sql_AttachPhoto now a (TenantDoor (Some u)))"
proof (cases "ap_shelter_id a = u")
  case True
  then show ?thesis
    unfolding square_def sql_AttachPhoto_def by (intro square_guarded) (auto simp: own_keys global_keys_def intro: rev_image_eqI)
qed (simp add: square_def sql_AttachPhoto_def)

lemma square_RecordHealthEvent: "square u db (sql_RecordHealthEvent now a (TenantDoor (Some u)))"
proof (cases "he_shelter_id a = u")
  case True
  then show ?thesis
    unfolding square_def sql_RecordHealthEvent_def by (intro square_guarded) (auto simp: own_keys global_keys_def intro: rev_image_eqI)
qed (simp add: square_def sql_RecordHealthEvent_def)

lemma square_RecordUpload: "square u db (sql_RecordUpload now a (TenantDoor (Some u)))"
proof (cases "up_shelter_id a = u")
  case True
  then show ?thesis
    unfolding square_def sql_RecordUpload_def by (intro square_guarded) (auto simp: own_keys global_keys_def intro: rev_image_eqI)
qed (simp add: square_def sql_RecordUpload_def)

lemma square_CreateApplication: "square u db (sql_CreateApplication now a (TenantDoor (Some u)))"
proof (cases "ca_shelter_id a = u")
  case True
  then show ?thesis
    unfolding square_def sql_CreateApplication_def by (intro square_guarded) (auto simp: own_keys global_keys_def intro: rev_image_eqI)
qed (simp add: square_def sql_CreateApplication_def)

lemma square_WriteApplicationNote: "square u db (sql_WriteApplicationNote now a (TenantDoor (Some u)))"
proof (cases "np_shelter_id a = u")
  case True
  then show ?thesis
    unfolding square_def sql_WriteApplicationNote_def by (intro square_guarded) (auto simp: own_keys global_keys_def intro: rev_image_eqI)
qed (simp add: square_def sql_WriteApplicationNote_def)

lemma square_CreateTemplate: "square u db (sql_CreateTemplate now a (TenantDoor (Some u)))"
proof (cases "ct_shelter_id a = u")
  case True
  then show ?thesis
    unfolding square_def sql_CreateTemplate_def by (intro square_guarded) (auto simp: own_keys global_keys_def intro: rev_image_eqI)
qed (simp add: square_def sql_CreateTemplate_def)

lemma square_InviteMember: "square u db (sql_InviteMember now a (TenantDoor (Some u)))"
proof (cases "im_shelter_id a = u")
  case True
  then show ?thesis
    unfolding square_def sql_InviteMember_def by (intro square_guarded) (auto simp: own_keys global_keys_def intro: rev_image_eqI)
qed (simp add: square_def sql_InviteMember_def)

lemma square_FileDocument: "square u db (sql_FileDocument env now a (TenantDoor (Some u)))"
proof (cases "fd_shelter_id a = u")
  case True
  then show ?thesis
    unfolding sql_FileDocument_def [abs_def]
    by (intro square_json) (unfold square_def, rule square_guarded,
      auto simp: own_keys global_keys_def intro: rev_image_eqI)
qed (simp add: square_def sql_FileDocument_def with_json_def split: option.splits)

lemma square_AppendApplicationEvent: "square u db (sql_AppendApplicationEvent env now a (TenantDoor (Some u)))"
proof (cases "ev_shelter_id a = u")
  case True
  then show ?thesis
    unfolding sql_AppendApplicationEvent_def [abs_def]
    by (intro square_json) (unfold square_def, rule square_guarded,
      auto simp: own_keys global_keys_def intro: rev_image_eqI)
qed (simp add: square_def sql_AppendApplicationEvent_def with_json_def split: option.splits)

lemma square_PublishTemplateVersion: "square u db (sql_PublishTemplateVersion env now a (TenantDoor (Some u)))"
proof (cases "pv_shelter_id a = u")
  case True
  then show ?thesis
    unfolding sql_PublishTemplateVersion_def [abs_def]
    by (intro square_json) (unfold square_def, rule square_guarded,
      auto simp: own_keys global_keys_def intro: rev_image_eqI)
qed (simp add: square_def sql_PublishTemplateVersion_def with_json_def split: option.splits)

lemma square_RecordSubmission: "square u db (sql_RecordSubmission env now a (TenantDoor (Some u)))"
proof (cases "rs_shelter_id a = u")
  case True
  then show ?thesis
    unfolding sql_RecordSubmission_def [abs_def]
    by (intro square_json) (unfold square_def, rule square_guarded,
      auto simp: own_keys global_keys_def intro: rev_image_eqI)
qed (simp add: square_def sql_RecordSubmission_def with_json_def split: option.splits)

lemma square_AppendAuditEntry: "square u db (sql_AppendAuditEntry env now i a (TenantDoor (Some u)))"
proof (cases "au_shelter_id a = u")
  case True
  then show ?thesis
    unfolding sql_AppendAuditEntry_def [abs_def]
    by (intro square_json) (unfold square_def, rule square_guarded, auto simp: own_keys global_keys_def)
qed (simp add: square_def sql_AppendAuditEntry_def with_json_def split: option.splits)

lemmas squares = square_GetPet square_ListPetsByStatus square_ListStatusHistory
  square_GetMedia square_ListApplicationDocuments square_GetApplication
  square_ListApplicationsByStatus square_ListApplicationTimeline square_GetTemplateByKey
  square_GetLatestPublishedVersion square_GetVersionForSubmission square_SearchSubmissions
  square_ListAuditEntriesForEntity square_ListRecentAuditEntries square_GetUserByEmail
  square_ListShelterMembers square_GetUserCredentialsByEmail square_ListOwnMemberships
  square_GetCurrentShelter square_PublishPet square_SoftDeleteMedia
  square_SignDocument square_AssignApplication square_SetApplicationStatus
  square_EditApplicationNote square_UpdateShelterProfile square_CreatePet
  square_AppendStatusChange square_AttachPhoto square_RecordHealthEvent
  square_RecordUpload square_CreateApplication square_WriteApplicationNote
  square_CreateTemplate square_InviteMember square_FileDocument
  square_AppendApplicationEvent square_PublishTemplateVersion square_RecordSubmission
  square_AppendAuditEntry

lemma square_statement: "square u db (statement env now q (TenantDoor (Some u)))"
  by (cases q; (simp only: square_def statement.simps, (rule squares [THEN square_answered, unfolded square_def])?))
    simp_all

end
