(* ===== verification/TenantDemo.thy ===== *)
theory TenantDemo imports TenantViews
begin

text \<open>A database with two shelters, for the witnesses: a pet of each, and a published form of the first.\<close>

definition demo_env :: sql_env where
  "demo_env = \<lparr>cast_uuid = (\<lambda>s. if s = ''one'' then Some 1 else if s = ''two'' then Some 2 else None),
     text_ok = (\<lambda>_. True), jsonb_in = Some, jsonb_contains = (=), same_email = (=), text_le = (\<lambda>_ _. True)\<rparr>"

definition demo_shelter :: "uuid \<Rightarrow> shelter" where
  "demo_shelter u =
     \<lparr>sl_id = u, slug = ''shelter'', legal_name = None, display_name = ''Shelter'', country = None, state = None,
      city = None, sl_status = ''verified'', verified_at = None, verified_by = None, mission = None, vision = None,
      about = None, logo_media_id = None, cover_media_id = None, contact_email = None, contact_phone = None,
      website = None, socials = ''{}'', donation_links = ''[]'', storage_bytes_used = 0,
      storage_quota_bytes = 1073741824, sl_created_at = Some 0, sl_updated_at = Some 0\<rparr>"

definition demo_pet :: "uuid \<Rightarrow> uuid \<Rightarrow> pet" where
  "demo_pet i u = new_pet 0
     \<lparr>cp_id = i, cp_shelter_id = u, cp_public_code = ''001'', cp_name = ''Toby'', cp_species_id = 3, cp_breed_id = None,
      cp_sex = ''male'', cp_size = ''m'', cp_energy_level = ''low'', cp_good_with_kids = ''yes'',
      cp_good_with_dogs = ''yes'', cp_good_with_cats = ''unknown'', cp_description = None, cp_created_by = None\<rparr>"

definition demo_version :: form_template_version where
  "demo_version = new_version 0 ''{}''
     \<lparr>pv_id = 20, pv_shelter_id = 1, pv_template_id = 10, pv_version = 1, pv_definition = Some ''{}'',
      pv_created_by = None\<rparr>"

definition demo_db :: tenantdb where
  "demo_db =
     \<lparr>users = [], species_rows = [\<lparr>sp_id = 3, sp_code = ''dog'', sp_name = ''Perro''\<rparr>], breed_rows = [],
      shelters = [demo_shelter 1, demo_shelter 2], memberships = [], media = [], pets = [demo_pet 5 1, demo_pet 6 2],
      pet_media = [], health_records = [], status_history = [],
      templates = [new_template 0 \<lparr>ct_id = 10, ct_shelter_id = 1, ct_key = ''adoption'', ct_name = ''Form'',
                                    ct_purpose = ''custom''\<rparr>],
      versions = [demo_version], submissions = [], applications = [], events = [], app_notes = [],
      documents = [], audit_log = []\<rparr>"

definition demo_answers :: submission_params where
  "demo_answers = \<lparr>rs_id = 30, rs_shelter_id = 1, rs_template_version_id = 20, rs_application_id = None,
     rs_submitted_by_user_id = None, rs_answers = Some ''{}'', rs_ip_hash = None\<rparr>"

text \<open>A connection in a transaction of the first shelter.\<close>

definition demo_conn :: "tenantdb pgconn" where
  "demo_conn = (idle_conn demo_db 0 [])\<lparr>work := Some demo_db, local_guc := [''app.shelter_id'' \<mapsto> ''one'']\<rparr>"

lemma demo_door: "door_of demo_env App_tenant demo_conn = Inr (TenantDoor (Some 1))"
  by (simp add: door_of_def scope_of_def demo_conn_def demo_env_def idle_conn_def current_setting_def guc_value_def
      nullif_empty_def)

lemma demo_submission: "statement demo_env 0 (Q_RecordSubmission demo_answers) (TenantDoor (Some 1)) demo_db
    = Inr (A_submission (new_submission 0 ''{}'' demo_answers),
           demo_db\<lparr>submissions := [new_submission 0 ''{}'' demo_answers]\<rparr>)"
  by (simp add: answered_def sql_RecordSubmission_def with_json_def demo_answers_def demo_env_def demo_db_def
      demo_shelter_def demo_version_def new_version_def shelter_exists_def version_of_def when_given_def)

end
