(* ===== verification/TenantInv.thy ===== *)
theory TenantInv imports TenantDemo
begin

text \<open>
  What the keys of the schema keep: identifiers stay unique, every reference of a tenant row resolves to
  a row of the same shelter, rows that are history only gain company.
\<close>

section \<open>The invariant\<close>

definition keys_ok :: "tenantdb \<Rightarrow> bool" where
  "keys_ok db \<longleftrightarrow> distinct (map p_id (pets db)) \<and> distinct (map md_id (media db))
     \<and> distinct (map aa_id (applications db)) \<and> distinct (map ft_id (templates db))
     \<and> distinct (map (\<lambda>t. (ft_shelter_id t, ft_key t)) (templates db))
     \<and> distinct (map fv_id (versions db))
     \<and> distinct (map (\<lambda>v. (fv_shelter_id v, template_id v, fv_version v)) (versions db))
     \<and> distinct (map fs_id (submissions db))
     \<and> distinct (map (\<lambda>m. (mb_user_id m, mb_shelter_id m)) (memberships db))"

text \<open>The rows of a database, and the database their references are looked up in.\<close>

definition refs_in :: "tenantdb \<Rightarrow> tenantdb \<Rightarrow> bool" where
  "refs_in k db \<longleftrightarrow>
     (\<forall>r \<in> set (pet_media db). pet_of k (pm_pet_id r) (pm_shelter_id r) \<and> media_of k (pm_media_id r) (pm_shelter_id r))
   \<and> (\<forall>r \<in> set (health_records db). pet_of k (hr_pet_id r) (hr_shelter_id r)
        \<and> when_given (\<lambda>m. media_of k m (hr_shelter_id r)) (document_media_id r))
   \<and> (\<forall>r \<in> set (status_history db). pet_of k (sh_pet_id r) (sh_shelter_id r))
   \<and> (\<forall>r \<in> set (versions db). template_of k (template_id r) (fv_shelter_id r))
   \<and> (\<forall>r \<in> set (submissions db). version_of k (template_version_id r) (fs_shelter_id r)
        \<and> when_given (\<lambda>i. application_of k i (fs_shelter_id r)) (fs_application_id r))
   \<and> (\<forall>r \<in> set (applications db). pet_of k (aa_pet_id r) (aa_shelter_id r)
        \<and> when_given (\<lambda>w. member_of k w (aa_shelter_id r)) (assigned_to_user_id r))
   \<and> (\<forall>r \<in> set (events db). application_of k (ae_application_id r) (ae_shelter_id r))
   \<and> (\<forall>r \<in> set (app_notes db). application_of k (an_application_id r) (an_shelter_id r))
   \<and> (\<forall>r \<in> set (documents db). media_of k (dc_media_id r) (dc_shelter_id r)
        \<and> when_given (\<lambda>i. application_of k i (dc_shelter_id r)) (dc_application_id r))"

definition refs_ok :: "tenantdb \<Rightarrow> bool" where
  "refs_ok db \<longleftrightarrow> refs_in db db"

definition tenantdb_ok :: "tenantdb \<Rightarrow> bool" where
  "tenantdb_ok db \<longleftrightarrow> keys_ok db \<and> refs_ok db"

lemma map_update_rows: "(\<And>r. k (f r) = k r) \<Longrightarrow> map k (update_rows Q f rows) = map k rows"
  by (simp add: update_rows_def)

text \<open>A statement takes no key away.\<close>

definition grows :: "tenantdb \<Rightarrow> tenantdb \<Rightarrow> bool" where
  "grows db db' \<longleftrightarrow> (\<forall>i s. (pet_of db i s \<longrightarrow> pet_of db' i s) \<and> (media_of db i s \<longrightarrow> media_of db' i s)
     \<and> (template_of db i s \<longrightarrow> template_of db' i s) \<and> (version_of db i s \<longrightarrow> version_of db' i s)
     \<and> (application_of db i s \<longrightarrow> application_of db' i s) \<and> (member_of db i s \<longrightarrow> member_of db' i s))"

lemmas key_defs = pet_of_def media_of_def template_of_def version_of_def application_of_def member_of_def

lemma effect_grows: "effect d db db' \<Longrightarrow> grows db db'"
  by (erule effect.cases) (auto simp: grows_def key_defs map_update_rows simp del: set_map)

lemma when_given_mono: "when_given P i \<Longrightarrow> (\<And>x. P x \<Longrightarrow> Q x) \<Longrightarrow> when_given Q i"
  by (cases i) (auto simp: when_given_def)

lemma when_given_None [simp]: "when_given P None"
  by (simp add: when_given_def)

lemma effect_keys: "effect d db db' \<Longrightarrow> keys_ok db \<Longrightarrow> keys_ok db'"
  by (erule effect.cases) (auto simp: keys_ok_def map_update_rows member_of_def simp del: set_map)

lemma refs_grow:
  assumes refs: "refs_in k db" and g: "grows k k'"
  shows "refs_in k' db"
proof -
  have k: "pet_of k i s \<Longrightarrow> pet_of k' i s" "media_of k i s \<Longrightarrow> media_of k' i s"
    "template_of k i s \<Longrightarrow> template_of k' i s" "version_of k i s \<Longrightarrow> version_of k' i s"
    "application_of k i s \<Longrightarrow> application_of k' i s" for i s
    using g by (simp_all add: grows_def)
  have w: "when_given (\<lambda>m. media_of k m s) i \<Longrightarrow> when_given (\<lambda>m. media_of k' m s) i"
    "when_given (\<lambda>m. application_of k m s) i \<Longrightarrow> when_given (\<lambda>m. application_of k' m s) i"
    "when_given (\<lambda>m. member_of k m s) i \<Longrightarrow> when_given (\<lambda>m. member_of k' m s) i" for s i
    using g unfolding grows_def by (auto elim: when_given_mono)
  show ?thesis using refs unfolding refs_in_def by (elim conjE, intro conjI) (fast intro: k w)+
qed

lemma ball_update_rows:
  "\<forall>r \<in> set rows. P r \<Longrightarrow> (\<And>r. r \<in> set rows \<Longrightarrow> Q r \<Longrightarrow> P r \<Longrightarrow> P (f r)) \<Longrightarrow> \<forall>r \<in> set (update_rows Q f rows). P r"
  by (auto simp: update_rows_def)

lemma effect_refs_in: "effect d db db' \<Longrightarrow> refs_in db db \<Longrightarrow> refs_in db db'"
proof (erule effect.cases)
  fix Q f
  assume "db' = db\<lparr>applications := update_rows Q f (applications db)\<rparr>" and "refs_in db db"
    and "\<And>r. aa_id (f r) = aa_id r \<and> aa_shelter_id (f r) = aa_shelter_id r \<and> aa_pet_id (f r) = aa_pet_id r
       \<and> applicant_user_id (f r) = applicant_user_id r"
    and "\<And>r. r \<in> set (applications db) \<Longrightarrow> Q r \<Longrightarrow> assigned_to_user_id (f r) = assigned_to_user_id r
       \<or> when_given (\<lambda>w. member_of db w (aa_shelter_id r)) (assigned_to_user_id (f r))"
  then show "refs_in db db'" unfolding refs_in_def by (fastforce simp: update_rows_def)
qed (auto simp: refs_in_def update_rows_def)

lemma effect_ok: "effect d db db' \<Longrightarrow> tenantdb_ok db \<Longrightarrow> tenantdb_ok db'"
  unfolding tenantdb_ok_def refs_ok_def
  using effect_keys effect_refs_in refs_grow effect_grows by blast

section \<open>What stays\<close>

text \<open>No statement changes or removes a row of these tables: the trails, the versions, the submissions.\<close>

definition only_added :: "tenantdb \<Rightarrow> tenantdb \<Rightarrow> bool" where
  "only_added db db' \<longleftrightarrow> (\<exists>a b c e f. status_history db' = status_history db @ a \<and> events db' = events db @ b
     \<and> audit_log db' = audit_log db @ c \<and> versions db' = versions db @ e \<and> submissions db' = submissions db @ f)"

lemma only_added_refl: "only_added db db"
  by (simp add: only_added_def)

lemma only_added_trans: "only_added x y \<Longrightarrow> only_added y z \<Longrightarrow> only_added x z"
  by (auto simp: only_added_def)

lemma effect_only_added: "effect d db db' \<Longrightarrow> only_added db db'"
  by (erule effect.cases) (simp_all add: only_added_def)

section \<open>Histories\<close>

text \<open>Any sequence of successful statements, of any shelters and doors.\<close>

inductive history :: "tenantdb \<Rightarrow> tenantdb \<Rightarrow> bool" for db where
  start: "history db db"
| statement: "history db x \<Longrightarrow> statement env now q d x = Inr (a, y) \<Longrightarrow> history db y"

lemma history_ok: "history db db' \<Longrightarrow> tenantdb_ok db \<Longrightarrow> tenantdb_ok db'"
  by (induction rule: history.induct) (auto dest: statement_effect effect_ok)

lemma history_only_added: "history db db' \<Longrightarrow> only_added db db'"
proof (induction rule: history.induct)
  case (statement x env now q d a y)
  then show ?case using only_added_trans effect_only_added statement_effect by blast
qed (rule only_added_refl)


lemma sole_row: "distinct (map k rows) \<Longrightarrow> r \<in> set rows \<Longrightarrow> filter (\<lambda>x. k x = k r) rows = [r]"
proof (induction rows)
  case (Cons x rows)
  then show ?case
    by (cases "x = r") (auto simp: filter_empty_conv image_iff)
qed simp

lemma sole_row_own:
  assumes "distinct (map k rows)" and "r \<in> set rows" and "P r"
  shows "filter (\<lambda>x. P x \<and> k x = k r) rows = [r]"
proof -
  have "filter (\<lambda>x. P x \<and> k x = k r) rows = filter P (filter (\<lambda>x. k x = k r) rows)" by (simp add: conj_commute)
  with sole_row [OF assms(1,2)] assms(3) show ?thesis by simp
qed

text \<open>C12: A submission keeps the version of the form it was filled with: whatever happens after it is
  recorded, by whomever, reading its version answers the very row it was recorded against.\<close>

theorem submission_keeps_its_version:
  assumes ok: "tenantdb_ok db" and rec: "statement env now (Q_RecordSubmission p) d db = Inr (A_submission s, db1)"
    and hist: "history db1 db2"
  shows "\<exists>v \<in> set (versions db). fv_id v = rs_template_version_id p \<and> fv_shelter_id v = rs_shelter_id p
    \<and> statement env' now' (Q_GetVersionForSubmission (fs_id s)) (TenantDoor (Some (fs_shelter_id s))) db2
      = Inr (A_version_opt (Some v), db2)"
proof -
  from rec obtain body where s: "s = new_submission now body p" and db1: "db1 = db\<lparr>submissions := submissions db @ [s]\<rparr>"
    and ver: "version_of db (rs_template_version_id p) (rs_shelter_id p)"
    by (auto simp: answered_Inr sql_RecordSubmission_def with_json_Inr guarded_Inr simp del: guarded.simps)
  from ver obtain v where v: "v \<in> set (versions db)" "fv_id v = rs_template_version_id p" "fv_shelter_id v = rs_shelter_id p"
    by (auto simp: version_of_def)
  have ok2: "keys_ok db2"
    using history_ok [OF hist] effect_ok [OF statement_effect [OF rec] ok] by (simp add: tenantdb_ok_def)
  have add: "only_added db1 db2" by (rule history_only_added [OF hist])
  then have "v \<in> set (versions db2)" "s \<in> set (submissions db2)" using v db1 by (auto simp: only_added_def)
  moreover have "fs_shelter_id s = rs_shelter_id p" "template_version_id s = fv_id v"
    by (simp_all add: s new_submission_def v)
  ultimately have "sql_GetVersionForSubmission (fs_id s) (TenantDoor (Some (fs_shelter_id s))) db2 = Inr (Some v, db2)"
    using ok2 v(3) sole_row_own [of fv_id "versions db2" v "\<lambda>x. fv_shelter_id x = fs_shelter_id s"]
      sole_row_own [of fs_id "submissions db2" s "\<lambda>x. fs_shelter_id x = fs_shelter_id s"]
    by (simp add: sql_GetVersionForSubmission_def keys_ok_def first_row_def)
  with v show ?thesis by (auto simp: answered_def)
qed

lemma demo_ok: "tenantdb_ok demo_db"
  by (simp add: tenantdb_ok_def keys_ok_def refs_ok_def refs_in_def demo_db_def demo_pet_def new_pet_def demo_version_def
      new_version_def template_of_def new_template_def)


theorem submission_keeps_its_version_witness:
  "\<exists>s db. statement demo_env 0 (Q_RecordSubmission demo_answers) (TenantDoor (Some 1)) demo_db = Inr (A_submission s, db)
    \<and> statement demo_env 9 (Q_GetVersionForSubmission 30) (TenantDoor (Some 1)) db = Inr (A_version_opt (Some demo_version), db)"
  using submission_keeps_its_version [OF demo_ok demo_submission history.start, of demo_env 9] demo_submission
  by (auto simp: new_submission_def demo_answers_def demo_db_def)

end
