(* ===== verification/TenantProps.thy ===== *)
theory TenantProps imports TenantDemo TxProps
begin

text \<open>
  What the tenant door promises: a shelter's session runs as on a database of its own, a transaction
  under \<^verbatim>\<open>WithTenant\<close> leaves everybody else's rows alone whatever its callback does with the query
  layer, a submission keeps the form version it was filled with, and the public door shows the
  published catalog and nothing else.
\<close>

section \<open>A session of one shelter\<close>

definition seen_by :: "uuid \<Rightarrow> (tenantdb, 'z) pgconn_scheme \<Rightarrow> (tenantdb, 'z) pgconn_scheme" where
  "seen_by u c = c\<lparr>data := own_view u (data c), work := map_option (own_view u) (work c)\<rparr>"

lemma seen_fields [simp]: "clock (seen_by u c) = clock c" "aborted (seen_by u c) = aborted c" "ro (seen_by u c) = ro c"
  "work (seen_by u c) = map_option (own_view u) (work c)" "data (seen_by u c) = own_view u (data c)"
  by (simp_all add: seen_by_def)

lemma take_fault_seen: "take_fault (seen_by u c) = map_prod id (seen_by u) (take_fault c)"
proof -
  have "faults (seen_by u c) = faults c" "(seen_by u c)\<lparr>faults := fs\<rparr> = seen_by u (c\<lparr>faults := fs\<rparr>)" for fs
    by (simp_all add: seen_by_def)
  then show ?thesis by (cases "faults c") (simp_all add: take_fault_def)
qed

lemma seen_store: "(seen_by u c)\<lparr>aborted := b\<rparr> = seen_by u (c\<lparr>aborted := b\<rparr>)"
  "(seen_by u c)\<lparr>work := Some (own_view u db)\<rparr> = seen_by u (c\<lparr>work := Some db\<rparr>)"
  by (simp_all add: seen_by_def)

lemma door_seen [simp]: "door_of env who (seen_by u c) = door_of env who c"
  by (simp add: door_of_def scope_of_def current_setting_def guc_value_def seen_by_def split: role.splits)

lemma seen_stmt:
  assumes "\<And>db. work c = Some db \<Longrightarrow> square u db f"
  shows "run_stmt w f (seen_by u c) = map_prod id (seen_by u) (run_stmt w f c)
    \<or> (\<exists>n \<in> global_keys. fst (run_stmt w f c) = Inl (UniqueViolation n))"
proof -
  obtain flt c1 where t: "take_fault c = (flt, c1)" by force
  show ?thesis
  proof (cases "work c")
    case None
    with t show ?thesis by (simp add: run_stmt_def take_fault_seen)
  next
    case (Some db)
    with t have c1: "work c1 = Some db" by simp
    show ?thesis
    proof (cases "aborted c1 \<or> flt \<noteq> NoFault \<or> w \<and> ro c1")
      case True
      with t c1 show ?thesis by (auto simp: run_stmt_def take_fault_seen seen_store)
    next
      case False
      then have "aborted c1 = False" "flt = NoFault" "\<not> (w \<and> ro c1)" by auto
      with t c1 assms [OF Some] show ?thesis
        by (cases "f db"; cases "f (own_view u db)") (auto simp: run_stmt_def take_fault_seen square_def seen_store)
    qed
  qed
qed

lemma answering_map: "answering g (map_prod id v m) = map_prod id v (answering g m)"
  by (cases m) (simp add: answering_def)

lemma fst_answering: "fst m = Inl e \<Longrightarrow> fst (answering g m) = Inl e"
  by (cases m) (simp add: answering_def)

lemma seen_as:
  fixes c :: "(tenantdb, 'z) pgconn_scheme"
  assumes "door_of env App_tenant c = Inr (TenantDoor (Some u))" and "\<And>db. square u db (f (TenantDoor (Some u)))"
  shows "answering g (run_as env App_tenant w ts f (seen_by u c))
      = map_prod id (seen_by u) (answering g (run_as env App_tenant w ts f c))
    \<or> (\<exists>n \<in> global_keys. fst (answering g (run_as env App_tenant w ts f c)) = Inl (UniqueViolation n))"
proof -
  have "square u db (\<lambda>db. if \<not> list_all (text_ok env) ts then Inl BadText else f (TenantDoor (Some u)) db)" for db
    using assms(2) [of db] by (simp add: square_def)
  moreover have "run_as env App_tenant w ts f c'
      = run_stmt w (\<lambda>db. if \<not> list_all (text_ok env) ts then Inl BadText else f (TenantDoor (Some u)) db) c'"
    if "door_of env App_tenant c' = Inr (TenantDoor (Some u))" for c' :: "(tenantdb, 'z) pgconn_scheme"
    by (simp add: run_as_def that cong: if_cong)
  ultimately show ?thesis
    using seen_stmt [where c = c and w = w] assms(1) by (fastforce simp: answering_map intro: fst_answering)
qed

lemma seen_reference:
  assumes "\<And>db. f (own_view u db) = f db"
  shows "answering g (run_reference who f (seen_by u c)) = map_prod id (seen_by u) (answering g (run_reference who f c))"
proof -
  let ?f = "\<lambda>db. if who = App_auth then Inl InsufficientPrivilege else Inr (f db, db)"
  have "square u db ?f" for db using assms [of db] by (simp add: square_def)
  moreover have "fst (run_stmt False ?f c) \<noteq> Inl (UniqueViolation n)" for n
    by (auto simp: run_stmt_def split: prod.splits option.splits if_splits)
  ultimately have "run_stmt False ?f (seen_by u c) = map_prod id (seen_by u) (run_stmt False ?f c)"
    using seen_stmt [of c u ?f False] by blast
  then show ?thesis unfolding run_reference_def by (simp only: answering_map)
qed

text \<open>C9: To a shelter the shared database is a database of its own: every query answers, fails and writes
  exactly as it would if no other shelter's rows existed, unless it fails on a primary key or a
  storage key that is already taken.\<close>

theorem tenant_sees_its_own_database:
  assumes "door_of env App_tenant c = Inr (TenantDoor (Some u))"
  shows "run_query env App_tenant q (seen_by u c) = map_prod id (seen_by u) (run_query env App_tenant q c)
    \<or> (\<exists>n \<in> global_keys. fst (run_query env App_tenant q c) = Inl (UniqueViolation n))"
proof (cases q)
  case Q_ListSpecies
  then show ?thesis by (simp add: ListSpecies_def seen_reference)
next
  case (Q_ListBreedsForSpecies i)
  then show ?thesis by (simp add: ListBreedsForSpecies_def seen_reference)
qed (hypsubst, simp only: run_query.simps method_defs seen_fields, rule seen_as [OF assms], rule squares)+

theorem tenant_sees_its_own_database_witness:
  "fst (run_query demo_env App_tenant (Q_ListPetsByStatus ''draft'') demo_conn) = Inr (A_pets [demo_pet 5 1])
    \<and> run_query demo_env App_tenant (Q_ListPetsByStatus ''draft'') (seen_by 1 demo_conn)
      = map_prod id (seen_by 1) (run_query demo_env App_tenant (Q_ListPetsByStatus ''draft'') demo_conn)"
proof -
  have d: "door_of demo_env App_tenant demo_conn = Inr (TenantDoor (Some 1))" by (rule demo_door)
  then have "fst (run_query demo_env App_tenant (Q_ListPetsByStatus ''draft'') demo_conn) = Inr (A_pets [demo_pet 5 1])"
    by (simp add: ListPetsByStatus_def run_as_def answering_def run_stmt_def take_fault_def demo_conn_def idle_conn_def
        sql_ListPetsByStatus_def demo_env_def demo_db_def own_policies demo_pet_def new_pet_def order_by_def)
  with tenant_sees_its_own_database [OF d, of "Q_ListPetsByStatus ''draft''"] show ?thesis by auto
qed

section \<open>A transaction of one shelter\<close>

lemma tenant_call_cases:
  assumes fr: "framed m" and idle: "pg_idle c" and str: "str u \<noteq> []" "cast_uuid env (str u) = Some u"
    and run: "WithTenant str pg_driver u (as_callback m) c = (r, c')"
  shows "pg_idle c' \<and> session_setting c' = session_setting c"
    and "data c' = data c \<or> (\<exists>c1 c2 a. door_of env App_tenant c1 = Inr (TenantDoor (Some u)) \<and> work c1 = Some (data c)
        \<and> clock c1 = clock c \<and> m c1 = (Inr a, c2) \<and> work c2 = Some (data c'))"
proof -
  have err: "refused (Return (Some ErrNoTenant))" by (simp add: refused_def)
  note con = pg.with_scope_contract [OF as_callback_confined [OF fr] idle str(1) err run [unfolded with_tenant_scope]]
  then show "pg_idle c' \<and> session_setting c' = session_setting c" by simp
  show "data c' = data c \<or> (\<exists>c1 c2 a. door_of env App_tenant c1 = Inr (TenantDoor (Some u)) \<and> work c1 = Some (data c)
        \<and> clock c1 = clock c \<and> m c1 = (Inr a, c2) \<and> work c2 = Some (data c'))"
  proof (cases "refused r")
    case True
    then have "r \<noteq> Return None" "\<nexists>e. r = Return (Some (CommitFailed e))" by (auto simp: refused_def)
    with con show ?thesis by (auto dest!: commit_or_nothing_kept)
  next
    case False
    with pg_scope_enters [OF run [unfolded with_tenant_scope] err]
    obtain c1 where c1: "scoped_start ''app.shelter_id'' (str u) c c1"
      and go: "deferred_rollback pg_driver (run_and_commit pg_driver (as_callback m) c1) = (r, c')" by blast
    obtain r1 c2 where cb: "as_callback m c1 = (r1, c2)" by force
    from as_callback_frame [OF fr cb] c1 have "data c2 = data c1" "work c2 \<noteq> None"
      by (auto simp: same_session_def scoped_start_def)
    from pg_run_any [OF go cb this] c1 cb tenant_door [where env = env and str = str, OF c1 str] show ?thesis
      by (auto simp: as_callback_def scoped_start_def split: prod.splits sum.splits)
  qed
qed

definition isolated :: "uuid \<Rightarrow> tenantdb \<Rightarrow> tenantdb \<Rightarrow> bool" where
  "isolated u db db' \<longleftrightarrow> others_view u db' = others_view u db \<and> users db' = users db
     \<and> species_rows db' = species_rows db \<and> breed_rows db' = breed_rows db"

text \<open>C10: Whatever a callback does with the query layer inside \<^verbatim>\<open>WithTenant\<close>, on a connection that
  fails where it likes, the stored rows of every other shelter, the users and the reference tables are
  untouched, and the connection is left idle with its session settings as they were.\<close>

theorem tenant_transaction_isolated:
  fixes c :: "(tenantdb, 'z) pgconn_scheme"
  assumes "pg_idle c" and "str u \<noteq> []" and "cast_uuid env (str u) = Some u"
    and "WithTenant str pg_driver u (as_callback (run_prog env App_tenant p)) c = (r, c')"
  shows "isolated u (data c) (data c') \<and> pg_idle c' \<and> session_setting c' = session_setting c"
proof -
  note call = tenant_call_cases [OF framed_prog assms]
  have stmt: "isolated u x y" if "statement env now q (TenantDoor (Some u)) x = Inr (b, y)" for now q x b y
    using effect_others [OF statement_effect [OF that], of u] effect_shared [OF statement_effect [OF that]]
    by (simp add: isolated_def)
  have prog: "isolated u (data c) (data c')"
    if "door_of env App_tenant c1 = Inr (TenantDoor (Some u))" "work c1 = Some (data c)"
      "run_prog env App_tenant p c1 = (Inr a, c2)" "work c2 = Some (data c')" for c1 c2 :: "(tenantdb, 'z) pgconn_scheme" and a
    using run_prog_effect [OF that(3,1,2), of "isolated u"] stmt that(4) by (auto simp: isolated_def)
  from call(2) have "isolated u (data c) (data c')"
    by (elim disjE exE conjE) (simp add: isolated_def, rule prog)
  with call(1) show ?thesis by blast
qed

text \<open>Saving a submission for the first shelter.\<close>

definition demo_prog :: "(db_err, unit) prog" where
  "demo_prog = Call (Q_RecordSubmission demo_answers) (\<lambda>a. case a of Inl e \<Rightarrow> Finish (Inl e) | Inr _ \<Rightarrow> Finish (Inr ()))"

lemma demo_prog_runs: "run_prog demo_env App_tenant demo_prog demo_conn
    = (Inr (), demo_conn\<lparr>work := Some (demo_db\<lparr>submissions := [new_submission 0 ''{}'' demo_answers]\<rparr>)\<rparr>)"
proof -
  have "RecordSubmission demo_env App_tenant demo_answers demo_conn = (Inr (new_submission 0 ''{}'' demo_answers),
      demo_conn\<lparr>work := Some (demo_db\<lparr>submissions := [new_submission 0 ''{}'' demo_answers]\<rparr>)\<rparr>)"
    using demo_submission demo_door
    by (simp add: RecordSubmission_def run_as_def run_stmt_def take_fault_def answered_Inr
        demo_env_def demo_conn_def idle_conn_def demo_answers_def given_def)
  then show ?thesis by (simp add: demo_prog_def answering_def)
qed

theorem tenant_transaction_isolated_witness:
  "\<exists>c. WithTenant (\<lambda>_. ''one'') pg_driver 1 (as_callback (run_prog demo_env App_tenant demo_prog)) (idle_conn demo_db 0 [])
      = (Return None, c) \<and> length (submissions (data c)) = 1 \<and> isolated 1 demo_db (data c)"
proof -
  obtain r c where run: "WithTenant (\<lambda>_. ''one'') pg_driver 1 (as_callback (run_prog demo_env App_tenant demo_prog))
      (idle_conn demo_db 0 []) = (r, c)" by force
  have "WithTenant (\<lambda>_. ''one'') pg_driver 1 fn (idle_conn demo_db 0 [])
      = deferred_rollback pg_driver (run_and_commit pg_driver fn demo_conn)" for fn :: "tenantdb pgconn \<Rightarrow> db_err call \<times> tenantdb pgconn"
    by (simp add: WithTenant_def uuid_nil_def pg_driver_def pg_begin_def pg_exec_config_def take_fault_def setScopeSQL_def
        demo_conn_def idle_conn_def)
  with run have "r = Return None \<and> length (submissions (data c)) = 1"
    using demo_prog_runs
    by (auto simp: run_and_commit_def as_callback_def deferred_rollback_def pg_driver_def pg_commit_def take_fault_def
        close_tx_def demo_conn_def idle_conn_def split: prod.splits)
  moreover have "isolated 1 (data (idle_conn demo_db 0 [])) (data c)"
    using tenant_transaction_isolated [OF _ _ _ run] by (simp add: pg_idle_def idle_conn_def demo_env_def)
  ultimately show ?thesis using run by (auto simp: idle_conn_def)
qed

section \<open>Assigning a case\<close>

text \<open>C14: A case of the shelter is assigned exactly to an active member of that shelter: anybody else is
  refused with a check violation and nothing is written, and a case of another shelter, or none, is
  no row affected, whoever is named.\<close>

theorem assigned_to_an_active_member:
  "statement env now (Q_AssignApplication i (Some w)) (TenantDoor (Some u)) db =
     (let mine = (\<lambda>r. aa_shelter_id r = u \<and> aa_id r = i) in
      if filter mine (applications db) = [] then Inr (A_affected 0, db)
      else if \<exists>m \<in> set (memberships db). mb_user_id m = w \<and> mb_shelter_id m = u \<and> mb_status m = ''active''
      then Inr (A_affected (length (filter mine (applications db))),
                db\<lparr>applications := update_rows mine (\<lambda>r. r\<lparr>assigned_to_user_id := Some w, aa_updated_at := Some now\<rparr>)
                     (applications db)\<rparr>)
      else Inl (CheckViolation ''assignee_must_be_active_member''))"
proof -
  have "update_rows Q f rows = rows" if "filter Q rows = []" for Q f and rows :: "adoption_application list"
    using that by (simp add: update_rows_none filter_empty_conv)
  moreover have "member_of db w u" if "m \<in> set (memberships db)" "mb_user_id m = w" "mb_shelter_id m = u" for m
    using that by (auto simp: member_of_def)
  ultimately show ?thesis
    by (auto simp: answered_def sql_AssignApplication_def Let_def when_given_def count_rows_def
        assignee_must_be_active_member_def own_policies filter_empty_conv)
qed

section \<open>The public door\<close>

definition in_catalog :: "pet \<Rightarrow> bool" where
  "in_catalog p \<longleftrightarrow> p_status p = ''available'' \<and> p_published_at p \<noteq> None \<and> p_deleted_at p = None"

definition shows_catalog_pet :: "tenantdb \<Rightarrow> pet_medium \<Rightarrow> bool" where
  "shows_catalog_pet db pm \<longleftrightarrow> (\<exists>p \<in> set (pets db). in_catalog p \<and> p_id p = pm_pet_id pm)"

definition public_view :: "tenantdb \<Rightarrow> tenantdb" where
  "public_view db =
     \<lparr>users = [], species_rows = species_rows db, breed_rows = breed_rows db, shelters = [], memberships = [],
      media = filter (\<lambda>m. md_deleted_at m = None
        \<and> (\<exists>pm \<in> set (pet_media db). shows_catalog_pet db pm \<and> pm_media_id pm = md_id m)) (media db),
      pets = filter in_catalog (pets db), pet_media = filter (shows_catalog_pet db) (pet_media db),
      health_records = [], status_history = [], templates = [], versions = [], submissions = [], applications = [],
      events = [], app_notes = [], documents = [], audit_log = []\<rparr>"

lemma catalog_policies: "pet_visible PublicDoor = in_catalog" "pet_media_visible PublicDoor = shows_catalog_pet"
  "media_visible PublicDoor db = (\<lambda>m. md_deleted_at m = None
     \<and> (\<exists>pm \<in> set (pet_media db). shows_catalog_pet db pm \<and> pm_media_id pm = md_id m))"
proof -
  show p: "pet_visible PublicDoor = in_catalog"
    by (simp add: pet_visible_def fun_eq_iff public_pet_def in_catalog_def)
  show "pet_media_visible PublicDoor = shows_catalog_pet"
    by (simp add: pet_media_visible_def fun_eq_iff p shows_catalog_pet_def)
  then show "media_visible PublicDoor db = (\<lambda>m. md_deleted_at m = None
     \<and> (\<exists>pm \<in> set (pet_media db). shows_catalog_pet db pm \<and> pm_media_id pm = md_id m))"
    by (simp add: media_visible_def fun_eq_iff)
qed

lemma public_fields [simp]:
  "users (public_view db) = []" "species_rows (public_view db) = species_rows db" "breed_rows (public_view db) = breed_rows db"
  "shelters (public_view db) = []" "memberships (public_view db) = []" "pets (public_view db) = filter in_catalog (pets db)"
  "media (public_view db) = filter (media_visible PublicDoor db) (media db)"
  "pet_media (public_view db) = filter (shows_catalog_pet db) (pet_media db)"
  by (simp_all add: public_view_def catalog_policies)

lemma public_policies: "pet_visible PublicDoor = in_catalog" "media_visible PublicDoor (public_view db) = media_visible PublicDoor db"
proof -
  show "pet_visible PublicDoor = in_catalog" by (rule catalog_policies)
  have "shows_catalog_pet (public_view db) = shows_catalog_pet db"
    by (auto simp: shows_catalog_pet_def fun_eq_iff)
  then show "media_visible PublicDoor (public_view db) = media_visible PublicDoor db"
    unfolding catalog_policies fun_eq_iff by auto
qed

lemma filter_twice: "filter (\<lambda>x. P x \<and> Q x) (filter P xs) = filter (\<lambda>x. P x \<and> Q x) xs"
  by (induction xs) auto


end
