(* ===== verification/AbCheck.thy ===== *)
theory AbCheck imports SqlLib TxProps GoFmt "HOL-Library.List_Lexorder" "HOL-Library.Char_ord"
begin

text \<open>
  \<^verbatim>\<open>internal/db/dbtest/tenants.go\<close>: the A/B isolation check every tenant table is declared safe
  by, run through \<^verbatim>\<open>WithTenant\<close> on the connection model against a table whose policies and grants
  are arbitrary. What a passing check establishes about them is proved exactly.
\<close>

section \<open>A table under row-level security\<close>

text \<open>
  The policies as predicates of the door and the row (\<^verbatim>\<open>USING\<close> for the rows a statement reaches,
  \<^verbatim>\<open>WITH CHECK\<close> for the rows it leaves), and the grants the probed statements need.
\<close>

type_synonym row_key = "(string \<times> string) list"

record 'r policy_table =
  sees :: "door \<Rightarrow> 'r \<Rightarrow> bool"
  inserts :: "door \<Rightarrow> 'r \<Rightarrow> bool"
  updates :: "door \<Rightarrow> 'r \<Rightarrow> bool"
  keeps :: "door \<Rightarrow> 'r \<Rightarrow> bool"
  deletes :: "door \<Rightarrow> 'r \<Rightarrow> bool"
  grants_update :: "string \<Rightarrow> bool"
  grants_delete :: bool
  column :: "'r \<Rightarrow> string \<Rightarrow> string"

definition matches :: "'r policy_table \<Rightarrow> row_key \<Rightarrow> 'r \<Rightarrow> bool" where
  "matches T key r = list_all (\<lambda>(col, v). column T r col = v) key"

text \<open>
  The statements. One with a WHERE clause, or that assigns a column to itself, reads columns, so the
  SELECT policy applies to it too; an unqualified DELETE reads none.
\<close>

definition count_where :: "'r policy_table \<Rightarrow> ('r \<Rightarrow> bool) \<Rightarrow> door \<Rightarrow> 'r list \<Rightarrow> db_err + nat \<times> 'r list" where
  "count_where T P d rows = Inr (count_rows (\<lambda>r. sees T d r \<and> P r) rows, rows)"

definition touch_where ::
  "'r policy_table \<Rightarrow> string \<Rightarrow> row_key \<Rightarrow> door \<Rightarrow> 'r list \<Rightarrow> db_err + nat \<times> 'r list" where
  "touch_where T col key d rows =
     (let P = (\<lambda>r. sees T d r \<and> updates T d r \<and> matches T key r) in
      if \<not> grants_update T col \<or> (\<exists>r \<in> set rows. P r \<and> \<not> keeps T d r) then Inl InsufficientPrivilege
      else Inr (count_rows P rows, rows))"

definition delete_where :: "'r policy_table \<Rightarrow> row_key \<Rightarrow> door \<Rightarrow> 'r list \<Rightarrow> db_err + nat \<times> 'r list" where
  "delete_where T key d rows =
     (let P = (\<lambda>r. sees T d r \<and> deletes T d r \<and> matches T key r) in
      if \<not> grants_delete T then Inl InsufficientPrivilege
      else Inr (count_rows P rows, filter (\<lambda>r. \<not> P r) rows))"

definition delete_all :: "'r policy_table \<Rightarrow> door \<Rightarrow> 'r list \<Rightarrow> db_err + nat \<times> 'r list" where
  "delete_all T d rows =
     (if \<not> grants_delete T then Inl InsufficientPrivilege
      else Inr (count_rows (deletes T d) rows, filter (\<lambda>r. \<not> deletes T d r) rows))"

section \<open>The case of a table\<close>

text \<open>The predicate of a key: its columns in order, each with the parameter that carries its value.\<close>

fun predicates :: "row_key \<Rightarrow> nat \<Rightarrow> string list" where
  "predicates [] n = []"
| "predicates ((col, v) # key) n = (col @ '' = $'' @ decimal n) # predicates key (Suc n)"

fun join_and :: "string list \<Rightarrow> string" where
  "join_and [] = []"
| "join_and [p] = p"
| "join_and (p # ps) = p @ '' AND '' @ join_and ps"

definition where_clause :: "row_key \<Rightarrow> nat \<Rightarrow> string \<times> string list" where
  "where_clause k startAt =
     (let cols = sort_key fst k in (join_and (predicates cols startAt), map snd cols))"

text \<open>
  The variables a callback assigns outside itself live beside the connection. \<open>Insert\<close> is the
  case's own code, \<open>None\<close> where Go has nil.
\<close>

record 'd ab_conn = "'d pgconn" + captured :: row_key

record 'r tenant_table =
  tt_Name :: string
  tt_TenantColumn :: string
  tt_Insert :: "(uuid \<Rightarrow> 'r list ab_conn \<Rightarrow> (db_err + row_key) \<times> 'r list ab_conn) option"
  tt_Fixture :: "('r list ab_conn \<Rightarrow> string option \<times> 'r list ab_conn) option"
  tt_AppendOnly :: bool
  tt_TouchColumn :: string
  tt_NoDeleteGrant :: bool

definition tenantColumn :: "'r tenant_table \<Rightarrow> string" where
  "tenantColumn tt = (if tt_TenantColumn tt = [] then ''shelter_id'' else tt_TenantColumn tt)"

definition touchColumn :: "'r tenant_table \<Rightarrow> string" where
  "touchColumn tt = (if tt_TouchColumn tt = [] then tenantColumn tt else tt_TouchColumn tt)"

definition deleteIsRefused :: "'r tenant_table \<Rightarrow> bool" where
  "deleteIsRefused tt \<longleftrightarrow> tt_AppendOnly tt \<or> tt_NoDeleteGrant tt"

text \<open>What went wrong, each constructor one message; \<open>RolledBack\<close> is \<^verbatim>\<open>errRollback\<close> with the counts
  the wipe probe captured.\<close>

datatype ab_error = Inserting db_err | CannotRead db_err | CanRead nat | NoSavepoint string db_err
  | WriteFailed string db_err | CanWrite string nat | Accepted string nat | RefusedOtherwise string db_err
  | CannotCount db_err | WipeAccepted nat | WipeRefusedOtherwise db_err | WipeFailed db_err
  | RolledBack nat nat | CannotReread db_err | Vanished nat

datatype ab_failure = NotATable | FixtureFailed string | SeedingFailed "ab_error tx_error" | EmptyKey
  | InTx "ab_error tx_error" | WipedTooMuch nat nat | ForgedRow | ForgeFailedOtherwise "ab_error tx_error"
  | Panicked

text \<open>\<^verbatim>\<open>errors.As(err, &pgErr)\<close>: the server's error an error wraps, if one is there.\<close>

fun pg_cause :: "ab_error tx_error \<Rightarrow> db_err option" where
  "pg_cause (BeginFailed e) = Some e"
| "pg_cause (ScopeFailed e) = Some e"
| "pg_cause (CommitFailed e) = Some e"
| "pg_cause (Callback (Inserting e)) = Some e"
| "pg_cause _ = None"

section \<open>The probes\<close>

definition savepoint :: "'r list ab_conn \<Rightarrow> (db_err + unit) \<times> 'r list ab_conn" where
  "savepoint c = run_stmt False (\<lambda>rows. Inr ((), rows)) c"

text \<open>Rolling back to a savepoint restores the rows and takes the transaction out of its aborted state.\<close>

definition rollback_to :: "'r list ab_conn \<Rightarrow> 'r list ab_conn \<Rightarrow> 'r list ab_conn" where
  "rollback_to saved c =
     (case take_fault c of (f, c1) \<Rightarrow>
        if f \<noteq> NoFault then c1\<lparr>aborted := True\<rparr> else c1\<lparr>work := work saved, aborted := aborted saved\<rparr>)"

definition expectRefusal ::
  "sql_env \<Rightarrow> string \<Rightarrow> (door \<Rightarrow> 'r list \<Rightarrow> db_err + nat \<times> 'r list) \<Rightarrow> 'r list ab_conn
   \<Rightarrow> (ab_error + unit) \<times> 'r list ab_conn" where
  "expectRefusal env verb stmt c =
     (case run_as env App_tenant True [] stmt c of
        (Inr n, c1) \<Rightarrow> (Inl (Accepted verb n), c1)
      | (Inl e, c1) \<Rightarrow> (if e \<noteq> InsufficientPrivilege then Inl (RefusedOtherwise verb e) else Inr (), c1))"

definition probeWrite ::
  "sql_env \<Rightarrow> string \<Rightarrow> bool \<Rightarrow> (door \<Rightarrow> 'r list \<Rightarrow> db_err + nat \<times> 'r list) \<Rightarrow> 'r list ab_conn
   \<Rightarrow> (ab_error + unit) \<times> 'r list ab_conn" where
  "probeWrite env verb denied stmt c =
     (if denied
      then (case savepoint c of
              (Inl e, c1) \<Rightarrow> (Inl (NoSavepoint verb e), c1)
            | (Inr u, c1) \<Rightarrow> apsnd (rollback_to c1) (expectRefusal env verb stmt c1))
      else (case run_as env App_tenant True [] stmt c of
              (Inl e, c1) \<Rightarrow> (Inl (WriteFailed verb e), c1)
            | (Inr n, c1) \<Rightarrow> (if n \<noteq> 0 then Inl (CanWrite verb n) else Inr (), c1)))"

definition blind_probe ::
  "sql_env \<Rightarrow> 'r policy_table \<Rightarrow> 'r tenant_table \<Rightarrow> row_key \<Rightarrow> 'r list ab_conn \<Rightarrow> (ab_error + unit) \<times> 'r list ab_conn" where
  "blind_probe env T tt key c =
     (case run_as env App_tenant False [] (count_where T (matches T key)) c of
        (Inl e, c1) \<Rightarrow> (Inl (CannotRead e), c1)
      | (Inr visible, c1) \<Rightarrow>
          if visible \<noteq> 0 then (Inl (CanRead visible), c1)
          else and_then (probeWrite env ''WRITE'' (tt_AppendOnly tt) (touch_where T (touchColumn tt) key) c1)
                 (\<lambda>u c2. probeWrite env ''DELETE'' (deleteIsRefused tt) (delete_where T key) c2))"

definition wipe_probe ::
  "sql_env \<Rightarrow> 'r policy_table \<Rightarrow> 'r tenant_table \<Rightarrow> 'r list ab_conn \<Rightarrow> (ab_error + unit) \<times> 'r list ab_conn" where
  "wipe_probe env T tt c =
     (case run_as env App_tenant False [] (count_where T (\<lambda>_. True)) c of
        (Inl e, c1) \<Rightarrow> (Inl (CannotCount e), c1)
      | (Inr visible, c1) \<Rightarrow>
          (case run_as env App_tenant True [] (delete_all T) c1 of
             (r, c2) \<Rightarrow>
               (Inl (if deleteIsRefused tt
                     then (case r of
                             Inr n \<Rightarrow> WipeAccepted n
                           | Inl e \<Rightarrow> if e \<noteq> InsufficientPrivilege then WipeRefusedOtherwise e else RolledBack visible 0)
                     else (case r of Inl e \<Rightarrow> WipeFailed e | Inr n \<Rightarrow> RolledBack visible n)), c2)))"

definition still_probe ::
  "sql_env \<Rightarrow> 'r policy_table \<Rightarrow> row_key \<Rightarrow> 'r list ab_conn \<Rightarrow> (ab_error + unit) \<times> 'r list ab_conn" where
  "still_probe env T key c =
     (case run_as env App_tenant False [] (count_where T (matches T key)) c of
        (Inl e, c1) \<Rightarrow> (Inl (CannotReread e), c1)
      | (Inr found, c1) \<Rightarrow> (if found \<noteq> 1 then Inl (Vanished found) else Inr (), c1))"

section \<open>The check\<close>

definition as_failure :: "('e tx_error \<Rightarrow> ab_failure) \<Rightarrow> 'e tx_error call \<Rightarrow> ab_failure option" where
  "as_failure f r = (case r of Return None \<Rightarrow> None | Return (Some e) \<Rightarrow> Some (f e) | Panic \<Rightarrow> Some Panicked)"

definition checkTenantBIsBlind where
  "checkTenantBIsBlind env str T tt B key c =
     apfst (as_failure InTx) (WithTenant str pg_driver B (as_callback (blind_probe env T tt key)) c)"

definition checkTenantBCannotWipeTheTable where
  "checkTenantBCannotWipeTheTable env str T tt B c =
     apfst (\<lambda>r. case r of
         Return (Some (Callback (RolledBack visible affected))) \<Rightarrow>
           if deleteIsRefused tt then None
           else if affected \<noteq> visible then Some (WipedTooMuch affected visible) else None
       | _ \<Rightarrow> as_failure InTx r)
       (WithTenant str pg_driver B (as_callback (wipe_probe env T tt)) c)"

definition checkTenantBCannotForgeOwnership where
  "checkTenantBCannotForgeOwnership str ins A B c =
     apfst (\<lambda>r. case r of
         Return None \<Rightarrow> Some ForgedRow
       | Return (Some e) \<Rightarrow> if pg_cause e = Some InsufficientPrivilege then None else Some (ForgeFailedOtherwise e)
       | Panic \<Rightarrow> Some Panicked)
       (WithTenant str pg_driver B (as_callback (\<lambda>c. wrapped Inserting (ins A c))) c)"

definition checkTenantAStillSeesItsRow where
  "checkTenantAStillSeesItsRow env str T A key c =
     apfst (as_failure InTx) (WithTenant str pg_driver A (as_callback (still_probe env T key)) c)"

definition seed_row ::
  "(uuid \<Rightarrow> 'r list ab_conn \<Rightarrow> (db_err + row_key) \<times> 'r list ab_conn) \<Rightarrow> uuid \<Rightarrow> 'r list ab_conn
   \<Rightarrow> (ab_error + unit) \<times> 'r list ab_conn" where
  "seed_row ins A c =
     (case ins A c of (Inl e, c1) \<Rightarrow> (Inl (Inserting e), c1) | (Inr key, c1) \<Rightarrow> (Inr (), c1\<lparr>captured := key\<rparr>))"

text \<open>A failure ends the check; \<open>None\<close> is nil.\<close>

definition and_also ::
  "ab_failure option \<times> 'w \<Rightarrow> ('w \<Rightarrow> ab_failure option \<times> 'w) \<Rightarrow> ab_failure option \<times> 'w" where
  "and_also m k = (case m of (Some e, w) \<Rightarrow> (Some e, w) | (None, w) \<Rightarrow> k w)"

definition Check ::
  "sql_env \<Rightarrow> (uuid \<Rightarrow> string) \<Rightarrow> 'r policy_table \<Rightarrow> 'r tenant_table \<Rightarrow> uuid \<Rightarrow> uuid \<Rightarrow> 'r list ab_conn
   \<Rightarrow> ab_failure option \<times> 'r list ab_conn" where
  "Check env str T tt A B c =
     (case tt_Insert tt of
        None \<Rightarrow> (Some NotATable, c)
      | Some ins \<Rightarrow>
          if tt_Name tt = [] then (Some NotATable, c)
          else
            and_also (case tt_Fixture tt of None \<Rightarrow> (None, c) | Some f \<Rightarrow> apfst (map_option FixtureFailed) (f c)) (\<lambda>c1.
            and_also (apfst (as_failure SeedingFailed)
                        (WithTenant str pg_driver A (as_callback (seed_row ins A)) (c1\<lparr>captured := []\<rparr>))) (\<lambda>c2.
              if captured c2 = [] then (Some EmptyKey, c2)
              else
                and_also (checkTenantBIsBlind env str T tt B (captured c2) c2) (\<lambda>c3.
                and_also (checkTenantBCannotWipeTheTable env str T tt B c3) (\<lambda>c4.
                and_also (checkTenantBCannotForgeOwnership str ins A B c4) (\<lambda>c5.
                  checkTenantAStillSeesItsRow env str T A (captured c2) c5))))))"

section \<open>On a healthy connection\<close>

text \<open>Inside a transaction of shelter \<open>u\<close> that sees \<open>rows\<close>, and the same between transactions.\<close>

definition at_rows :: "sql_env \<Rightarrow> uuid \<Rightarrow> 'r list ab_conn \<Rightarrow> 'r list \<Rightarrow> bool" where
  "at_rows env u c rows \<longleftrightarrow> door_of env App_tenant c = Inr (TenantDoor (Some u)) \<and> work c = Some rows
     \<and> faults c = [] \<and> \<not> aborted c \<and> \<not> ro c"

definition healthy :: "'r list ab_conn \<Rightarrow> 'r list \<Rightarrow> bool" where
  "healthy c rows \<longleftrightarrow> faults c = [] \<and> pg_idle c \<and> data c = rows"

definition inside :: "'r list ab_conn \<Rightarrow> 'r list ab_conn \<Rightarrow> bool" where
  "inside c c' \<longleftrightarrow> data c' = data c \<and> faults c' = [] \<and> captured c' = captured c \<and> work c' \<noteq> None"

lemma inside_trans: "inside a b \<Longrightarrow> inside b c \<Longrightarrow> inside a c"
  by (simp add: inside_def)

lemma door_updates [simp]: "door_of env who (c\<lparr>work := w\<rparr>) = door_of env who c"
  "door_of env who (c\<lparr>aborted := b\<rparr>) = door_of env who c" "door_of env who (c\<lparr>captured := k\<rparr>) = door_of env who c"
  by (simp_all add: door_of_def scope_of_def current_setting_def guc_value_def split: role.splits)

lemma run_at:
  assumes "at_rows env u c rows"
  shows "run_as env App_tenant w [] f c = (case f (TenantDoor (Some u)) rows of
      Inl e \<Rightarrow> (Inl e, c\<lparr>aborted := True\<rparr>) | Inr (a, rows') \<Rightarrow> (Inr a, c\<lparr>work := Some rows'\<rparr>))"
  using assms by (simp add: at_rows_def run_as_def run_stmt_def take_fault_def)

lemma at_work: "at_rows env u c rows \<Longrightarrow> at_rows env u (c\<lparr>work := Some rows'\<rparr>) rows' \<and> inside c (c\<lparr>work := Some rows'\<rparr>)"
  by (simp add: at_rows_def inside_def)

lemma at_aborted: "at_rows env u c rows \<Longrightarrow> inside c (c\<lparr>aborted := True\<rparr>)"
  by (simp add: at_rows_def inside_def)

lemma probe_passes:
  assumes at: "at_rows env u c rows" and run: "probeWrite env verb denied stmt c = (Inr (), c')"
  shows "inside c c' \<and> (if denied then stmt (TenantDoor (Some u)) rows = Inl InsufficientPrivilege \<and> at_rows env u c' rows
      else \<exists>rows'. stmt (TenantDoor (Some u)) rows = Inr (0, rows') \<and> at_rows env u c' rows')"
proof (cases denied)
  case True
  have sv: "savepoint c = (Inr (), c\<lparr>work := Some rows\<rparr>)"
    using at by (simp add: savepoint_def run_stmt_def take_fault_def at_rows_def)
  from True run at sv show ?thesis
    by (auto simp: probeWrite_def expectRefusal_def run_at [OF conjunct1 [OF at_work [OF at]]] rollback_to_def take_fault_def
        at_rows_def inside_def split: sum.splits prod.splits if_splits)
next
  case False
  with run at show ?thesis
    by (auto simp: probeWrite_def run_at [OF at] at_rows_def inside_def split: sum.splits prod.splits if_splits)
qed

lemma probe_fails:
  assumes at: "at_rows env u c rows" and run: "probeWrite env verb denied stmt c = (Inl e, c')"
  shows "inside c c' \<and> \<not> (if denied then stmt (TenantDoor (Some u)) rows = Inl InsufficientPrivilege
      else \<exists>rows'. stmt (TenantDoor (Some u)) rows = Inr (0, rows'))"
proof (cases denied)
  case True
  have sv: "savepoint c = (Inr (), c\<lparr>work := Some rows\<rparr>)"
    using at by (simp add: savepoint_def run_stmt_def take_fault_def at_rows_def)
  from True run at sv show ?thesis
    by (auto simp: probeWrite_def expectRefusal_def run_at [OF conjunct1 [OF at_work [OF at]]] rollback_to_def take_fault_def
        at_rows_def inside_def split: sum.splits prod.splits if_splits)
next
  case False
  with run at show ?thesis
    by (auto simp: probeWrite_def run_at [OF at] at_rows_def inside_def split: sum.splits prod.splits if_splits)
qed

text \<open>A callback that succeeds is committed, one that fails is rolled back.\<close>

lemma tenant_call:
  assumes c: "healthy c rows" and u: "u \<noteq> uuid_nil" "str u \<noteq> []" "cast_uuid env (str u) = Some u"
  shows "\<exists>c1. at_rows env u c1 rows \<and> data c1 = rows \<and> captured c1 = captured c
    \<and> WithTenant str pg_driver u fn c = deferred_rollback pg_driver (run_and_commit pg_driver fn c1)"
proof -
  from pg_scope_healthy [where n = "''app.shelter_id''" and str = str and err = ErrNoTenant and fn = fn and u = u and c = c] c u(1)
  obtain c1 where s: "scoped_start ''app.shelter_id'' (str u) c c1" "faults c1 = []"
    and run: "with_scope ErrNoTenant (SetConfig ''app.shelter_id'' True) str pg_driver u fn c
      = deferred_rollback pg_driver (run_and_commit pg_driver fn c1)"
    by (auto simp: healthy_def)
  have "captured c1 = captured c" using s(1) by (cases c; cases c1) (simp add: scoped_start_def)
  with s run tenant_door [where env = env and str = str, OF s(1) u(2,3)] c show ?thesis
    by (auto simp: at_rows_def healthy_def scoped_start_def with_tenant_scope)
qed

lemma committed:
  assumes "m c1 = (Inr a, c2)" and "inside c1 c2" and "work c2 = Some rows'" and "\<not> aborted c2"
  shows "\<exists>c'. deferred_rollback pg_driver (run_and_commit pg_driver (as_callback m) c1) = (Return None, c')
    \<and> healthy c' rows' \<and> captured c' = captured c1"
  using assms by (simp add: as_callback_def deferred_rollback_def run_and_commit_def pg_driver_def pg_commit_def
      take_fault_def healthy_def inside_def pg_idle_def close_tx_def)

lemma rolled_back:
  assumes "m c1 = (Inl e, c2)" and "inside c1 c2"
  shows "\<exists>c'. deferred_rollback pg_driver (run_and_commit pg_driver (as_callback m) c1) = (Return (Some (Callback e)), c')
    \<and> healthy c' (data c1) \<and> captured c' = captured c1"
  using assms by (simp add: as_callback_def deferred_rollback_def run_and_commit_def pg_driver_def pg_rollback_def
      healthy_def inside_def pg_idle_def close_tx_def)

section \<open>What the check establishes\<close>

text \<open>
  The usual case: \<open>Insert\<close> adds one row of the shelter it is given, made from what the table holds
  so far, and answers its key.
\<close>

definition insert_row ::
  "sql_env \<Rightarrow> 'r policy_table \<Rightarrow> ('r \<Rightarrow> row_key) \<Rightarrow> (uuid \<Rightarrow> 'r list \<Rightarrow> 'r) \<Rightarrow> uuid \<Rightarrow> 'r list ab_conn
   \<Rightarrow> (db_err + row_key) \<times> 'r list ab_conn" where
  "insert_row env T key mk u c =
     run_as env App_tenant True []
       (\<lambda>d rows. let r = mk u rows in
          if inserts T d r then Inr (key r, rows @ [r]) else Inl InsufficientPrivilege) c"

definition identifies :: "'r policy_table \<Rightarrow> row_key \<Rightarrow> 'r \<Rightarrow> 'r list \<Rightarrow> bool" where
  "identifies T key r rows \<longleftrightarrow> key \<noteq> [] \<and> matches T key r \<and> (\<forall>x \<in> set rows. \<not> matches T key x)"

lemma count_identified:
  assumes "identifies T key r rows"
  shows "count_rows (\<lambda>x. P x \<and> matches T key x) (rows @ [r]) = (if P r then 1 else 0)"
proof -
  have "filter (\<lambda>x. P x \<and> matches T key x) rows = []" using assms by (auto simp: identifies_def filter_empty_conv)
  then show ?thesis using assms by (simp add: count_rows_def identifies_def)
qed

lemma keep_identified:
  assumes "identifies T key r rows" and "\<not> P r"
  shows "filter (\<lambda>x. \<not> (P x \<and> matches T key x)) (rows @ [r]) = rows @ [r]"
  using assms by (auto simp: identifies_def intro!: filter_True)

lemma probe_at_identified:
  assumes id: "identifies T key r rows" and blind: "\<not> sees T d r"
  shows "touch_where T col key d (rows @ [r]) = (if grants_update T col then Inr (0, rows @ [r]) else Inl InsufficientPrivilege)"
    "delete_where T key d (rows @ [r]) = (if grants_delete T then Inr (0, rows @ [r]) else Inl InsufficientPrivilege)"
proof -
  have n: "count_rows (\<lambda>x. sees T d x \<and> Q x \<and> matches T key x) (rows @ [r]) = 0" for Q
    using count_identified [OF id, of "\<lambda>x. sees T d x \<and> Q x"] blind by simp
  have "\<not> (\<exists>x \<in> set (rows @ [r]). sees T d x \<and> Q x \<and> matches T key x)" for Q
    using n [of Q, unfolded count_rows_def length_filter_zero_iff] by blast
  then show "touch_where T col key d (rows @ [r]) = (if grants_update T col then Inr (0, rows @ [r]) else Inl InsufficientPrivilege)"
    using n by (auto simp: touch_where_def Let_def)
  have "filter (\<lambda>x. \<not> (sees T d x \<and> deletes T d x \<and> matches T key x)) (rows @ [r]) = rows @ [r]"
    using keep_identified [OF id, of "\<lambda>x. sees T d x \<and> deletes T d x"] blind by simp
  then show "delete_where T key d (rows @ [r]) = (if grants_delete T then Inr (0, rows @ [r]) else Inl InsufficientPrivilege)"
    using n by (simp add: delete_where_def)
qed

lemma blind_probe_at:
  assumes at: "at_rows env B c (rows @ [r])" and id: "identifies T key r rows"
    and run: "blind_probe env T tt key c = (res, c')"
  shows "inside c c' \<and> (res = Inr () \<longrightarrow> work c' = Some (rows @ [r]) \<and> \<not> aborted c')
    \<and> (res = Inr () \<longleftrightarrow> \<not> sees T (TenantDoor (Some B)) r
        \<and> (grants_update T (touchColumn tt) \<longleftrightarrow> \<not> tt_AppendOnly tt) \<and> (grants_delete T \<longleftrightarrow> \<not> deleteIsRefused tt))"
proof (cases "sees T (TenantDoor (Some B)) r")
  case True
  with run show ?thesis
    using at_work [OF at]
    by (auto simp: blind_probe_def run_at [OF at] count_where_def count_identified [OF id])
next
  case False
  let ?d = "TenantDoor (Some B)"
  define c1 where "c1 = c\<lparr>work := Some (rows @ [r])\<rparr>"
  have c1: "at_rows env B c1 (rows @ [r])" "inside c c1" unfolding c1_def using at_work [OF at] by blast+
  obtain p c2 where p: "probeWrite env ''WRITE'' (tt_AppendOnly tt) (touch_where T (touchColumn tt) key) c1 = (p, c2)" by force
  obtain p' c3 where p': "probeWrite env ''DELETE'' (deleteIsRefused tt) (delete_where T key) c2 = (p', c3)" by force
  have step: "blind_probe env T tt key c = (case p of Inl e \<Rightarrow> (Inl e, c2) | Inr u \<Rightarrow> (p', c3))"
    using False p p'
    by (simp add: blind_probe_def run_at [OF at] count_where_def count_identified [OF id] c1_def and_then_def split: sum.split)
  note probes = probe_at_identified [OF id False]
  show ?thesis
  proof (cases p)
    case (Inl e)
    with probe_fails [OF c1(1), of "''WRITE''" "tt_AppendOnly tt" "touch_where T (touchColumn tt) key" e c2] p run step c1(2) False
    show ?thesis by (auto simp: probes intro: inside_trans split: if_splits)
  next
    case (Inr u)
    with probe_passes [OF c1(1), of "''WRITE''" "tt_AppendOnly tt" "touch_where T (touchColumn tt) key" c2] p
    have w: "inside c1 c2" "at_rows env B c2 (rows @ [r])" "grants_update T (touchColumn tt) \<longleftrightarrow> \<not> tt_AppendOnly tt"
      by (auto simp: probes split: if_splits)
    show ?thesis
    proof (cases p')
      case (Inl e)
      with probe_fails [OF w(2), of "''DELETE''" "deleteIsRefused tt" "delete_where T key" e c3] p' run step c1(2) w \<open>p = Inr u\<close>
      show ?thesis by (auto simp: probes intro: inside_trans split: if_splits)
    next
      case (Inr u')
      with probe_passes [OF w(2), of "''DELETE''" "deleteIsRefused tt" "delete_where T key" c3] p' run step c1(2) w \<open>p = Inr u\<close> False
      show ?thesis by (auto simp: probes at_rows_def intro: inside_trans split: if_splits)
    qed
  qed
qed

text \<open>The four checks, each between two healthy states.\<close>

lemma blind_check:
  assumes h: "healthy c (rows @ [r])" and B: "B \<noteq> uuid_nil" "str B \<noteq> []" "cast_uuid env (str B) = Some B"
    and id: "identifies T key r rows"
  shows "\<exists>f c'. checkTenantBIsBlind env str T tt B key c = (f, c') \<and> (f = None \<longrightarrow> healthy c' (rows @ [r]))
    \<and> (f = None \<longleftrightarrow> \<not> sees T (TenantDoor (Some B)) r
        \<and> (grants_update T (touchColumn tt) \<longleftrightarrow> \<not> tt_AppendOnly tt) \<and> (grants_delete T \<longleftrightarrow> \<not> deleteIsRefused tt))"
proof -
  from tenant_call [where env = env and str = str and u = B, OF h B] obtain c1 where c1: "at_rows env B c1 (rows @ [r])"
    and go: "WithTenant str pg_driver B (as_callback (blind_probe env T tt key)) c
      = deferred_rollback pg_driver (run_and_commit pg_driver (as_callback (blind_probe env T tt key)) c1)" by blast
  obtain res c2 where run: "blind_probe env T tt key c1 = (res, c2)" by force
  note probe = blind_probe_at [OF c1 id run]
  show ?thesis
  proof (cases res)
    case (Inl e)
    with rolled_back [where m = "blind_probe env T tt key", OF run [unfolded Inl]] probe show ?thesis
      by (auto simp: checkTenantBIsBlind_def go as_failure_def)
  next
    case (Inr u)
    with committed [where m = "blind_probe env T tt key", OF run [unfolded Inr], of "rows @ [r]"] probe show ?thesis
      by (auto simp: checkTenantBIsBlind_def go as_failure_def)
  qed
qed

lemma wipe_check:
  assumes h: "healthy c rows" and B: "B \<noteq> uuid_nil" "str B \<noteq> []" "cast_uuid env (str B) = Some B"
    and grant: "grants_delete T \<longleftrightarrow> \<not> deleteIsRefused tt"
  shows "\<exists>f c'. checkTenantBCannotWipeTheTable env str T tt B c = (f, c') \<and> healthy c' rows
    \<and> (f = None \<longleftrightarrow> (grants_delete T \<longrightarrow>
        count_rows (deletes T (TenantDoor (Some B))) rows = count_rows (sees T (TenantDoor (Some B))) rows))"
proof -
  let ?d = "TenantDoor (Some B)"
  from tenant_call [where env = env and str = str and u = B, OF h B] obtain c1 where c1: "at_rows env B c1 rows" "data c1 = rows"
    and go: "WithTenant str pg_driver B (as_callback (wipe_probe env T tt)) c
      = deferred_rollback pg_driver (run_and_commit pg_driver (as_callback (wipe_probe env T tt)) c1)" by blast
  define c2 where "c2 = c1\<lparr>work := Some rows\<rparr>"
  have c2: "at_rows env B c2 rows" "inside c1 c2" unfolding c2_def using at_work [OF c1(1)] by blast+
  have "\<exists>c3. inside c1 c3 \<and> wipe_probe env T tt c1
      = (Inl (RolledBack (count_rows (sees T ?d) rows) (if deleteIsRefused tt then 0 else count_rows (deletes T ?d) rows)), c3)"
    using grant at_work [OF c2(1)] at_aborted [OF c2(1)] c2(2)
    by (auto simp: wipe_probe_def run_at [OF c1(1)] run_at [OF c2(1)] count_where_def delete_all_def c2_def [symmetric]
        intro: inside_trans)
  then obtain c3 where c3: "inside c1 c3" "wipe_probe env T tt c1
      = (Inl (RolledBack (count_rows (sees T ?d) rows) (if deleteIsRefused tt then 0 else count_rows (deletes T ?d) rows)), c3)"
    by blast
  from rolled_back [where m = "wipe_probe env T tt", OF c3(2,1)] c1(2) grant show ?thesis
    by (auto simp: checkTenantBCannotWipeTheTable_def go as_failure_def)
qed

lemma insert_run:
  assumes h: "healthy c rows" and u: "u \<noteq> uuid_nil" "str u \<noteq> []" "cast_uuid env (str u) = Some u"
    and m: "\<And>c. m c = (case insert_row env T key mk v c of (Inl e, c1) \<Rightarrow> (Inl (Inserting e), c1)
        | (Inr k, c1) \<Rightarrow> (Inr (), c1\<lparr>captured := cap k c1\<rparr>))"
  shows "\<exists>c'. WithTenant str pg_driver u (as_callback m) c
        = ((if inserts T (TenantDoor (Some u)) (mk v rows) then Return None
            else Return (Some (Callback (Inserting InsufficientPrivilege)))), c')
      \<and> (if inserts T (TenantDoor (Some u)) (mk v rows)
         then healthy c' (rows @ [mk v rows]) \<and> (\<exists>c1. captured c' = cap (key (mk v rows)) c1) else healthy c' rows)"
proof -
  from tenant_call [where env = env and str = str and u = u, OF h u] obtain c1 where c1: "at_rows env u c1 rows" "data c1 = rows"
    and go: "WithTenant str pg_driver u (as_callback m) c
      = deferred_rollback pg_driver (run_and_commit pg_driver (as_callback m) c1)" by blast
  show ?thesis
  proof (cases "inserts T (TenantDoor (Some u)) (mk v rows)")
    case True
    define c2 where "c2 = c1\<lparr>work := Some (rows @ [mk v rows])\<rparr>"
    define c3 where "c3 = c2\<lparr>captured := cap (key (mk v rows)) c2\<rparr>"
    have "m c1 = (Inr (), c3)" using True by (simp add: m insert_row_def run_at [OF c1(1)] Let_def c2_def c3_def)
    then have "deferred_rollback pg_driver (run_and_commit pg_driver (as_callback m) c1) = (Return None,
        close_tx (c3\<lparr>data := rows @ [mk v rows], session_guc := session_guc c3 ++ staged_guc c3\<rparr>))"
      using c1 by (simp add: as_callback_def deferred_rollback_def run_and_commit_def pg_driver_def pg_commit_def
          take_fault_def c3_def c2_def at_rows_def)
    with True c1 show ?thesis
      by (auto simp: go healthy_def pg_idle_def close_tx_def c3_def c2_def at_rows_def intro!: exI [of _ c2])
  next
    case False
    have "m c1 = (Inl (Inserting InsufficientPrivilege), c1\<lparr>aborted := True\<rparr>)"
      using False by (simp add: m insert_row_def run_at [OF c1(1)] Let_def)
    from rolled_back [where m = m, OF this at_aborted [OF c1(1)]] False c1(2) show ?thesis by (auto simp: go)
  qed
qed

lemma still_check:
  assumes h: "healthy c (rows @ [r])" and A: "A \<noteq> uuid_nil" "str A \<noteq> []" "cast_uuid env (str A) = Some A"
    and id: "identifies T key r rows"
  shows "fst (checkTenantAStillSeesItsRow env str T A key c) = None \<longleftrightarrow> sees T (TenantDoor (Some A)) r"
proof -
  from tenant_call [where env = env and str = str and u = A, OF h A] obtain c1 where c1: "at_rows env A c1 (rows @ [r])"
    and go: "WithTenant str pg_driver A (as_callback (still_probe env T key)) c
      = deferred_rollback pg_driver (run_and_commit pg_driver (as_callback (still_probe env T key)) c1)" by blast
  define c2 where "c2 = c1\<lparr>work := Some (rows @ [r])\<rparr>"
  have c2: "inside c1 c2" "work c2 = Some (rows @ [r])" "\<not> aborted c2"
    unfolding c2_def using at_work [OF c1] c1 by (auto simp: at_rows_def)
  show ?thesis
  proof (cases "sees T (TenantDoor (Some A)) r")
    case True
    then have "still_probe env T key c1 = (Inr (), c2)"
      by (simp add: still_probe_def run_at [OF c1] count_where_def count_identified [OF id] c2_def)
    from committed [where m = "still_probe env T key", OF this c2] True show ?thesis
      by (auto simp: checkTenantAStillSeesItsRow_def go as_failure_def)
  next
    case False
    then have "still_probe env T key c1 = (Inl (Vanished 0), c2)"
      by (simp add: still_probe_def run_at [OF c1] count_where_def count_identified [OF id] c2_def)
    from rolled_back [where m = "still_probe env T key", OF this c2(1)] False show ?thesis
      by (auto simp: checkTenantAStillSeesItsRow_def go as_failure_def)
  qed
qed

text \<open>The case of a table with that \<open>Insert\<close> and no fixture.\<close>

definition ab_case ::
  "sql_env \<Rightarrow> 'r policy_table \<Rightarrow> ('r \<Rightarrow> row_key) \<Rightarrow> (uuid \<Rightarrow> 'r list \<Rightarrow> 'r) \<Rightarrow> string \<Rightarrow> string \<Rightarrow> bool \<Rightarrow> bool \<Rightarrow> 'r tenant_table" where
  "ab_case env T key mk name touch append_only no_delete =
     \<lparr>tt_Name = name, tt_TenantColumn = [], tt_Insert = Some (insert_row env T key mk), tt_Fixture = None,
      tt_AppendOnly = append_only, tt_TouchColumn = touch, tt_NoDeleteGrant = no_delete\<rparr>"

lemma captured_same: "(c :: 'd ab_conn)\<lparr>captured := captured c\<rparr> = c"
  by (cases c) simp

lemma forge_callback: "as_callback (\<lambda>c. wrapped Inserting (ins A c))
    = as_callback (\<lambda>c. case ins A c of (Inl e, c1) \<Rightarrow> (Inl (Inserting e), c1) | (Inr k, c1) \<Rightarrow> (Inr (), c1\<lparr>captured := captured c1\<rparr>))"
  by (simp add: as_callback_def wrapped_def fun_eq_iff captured_same split: prod.split sum.split)

lemma ab_check_iff:
  assumes h: "healthy c rows" and A: "A \<noteq> uuid_nil" "str A \<noteq> []" "cast_uuid env (str A) = Some A"
    and B: "B \<noteq> uuid_nil" "str B \<noteq> []" "cast_uuid env (str B) = Some B"
    and r: "mk A rows = r" "identifies T (key r) r rows" and name: "name \<noteq> []"
    and tt: "tt = ab_case env T key mk name touch append_only no_delete"
  shows "fst (Check env str T tt A B c) = None \<longleftrightarrow>
      inserts T (TenantDoor (Some A)) r \<and> sees T (TenantDoor (Some A)) r \<and> \<not> sees T (TenantDoor (Some B)) r
      \<and> \<not> inserts T (TenantDoor (Some B)) (mk A (rows @ [r]))
      \<and> (grants_update T (touchColumn tt) \<longleftrightarrow> \<not> append_only) \<and> (grants_delete T \<longleftrightarrow> \<not> (append_only \<or> no_delete))
      \<and> (grants_delete T \<longrightarrow> count_rows (deletes T (TenantDoor (Some B))) (rows @ [r])
           = count_rows (sees T (TenantDoor (Some B))) (rows @ [r]))"
    (is "_ \<longleftrightarrow> ?seed \<and> ?still \<and> ?blind1 \<and> ?forge \<and> ?blind2 \<and> ?blind3 \<and> ?wipe")
proof -
  have f: "tt_Insert tt = Some (insert_row env T key mk)" "tt_Name tt = name" "tt_Fixture tt = None"
    "tt_AppendOnly tt = append_only" "deleteIsRefused tt \<longleftrightarrow> append_only \<or> no_delete"
    by (simp_all add: tt ab_case_def deleteIsRefused_def)
  have h0: "healthy (c\<lparr>captured := []\<rparr>) rows" using h by (simp add: healthy_def pg_idle_def)
  from insert_run [where env = env and str = str and u = A and v = A and T = T and key = key and mk = mk
      and m = "seed_row (insert_row env T key mk) A" and cap = "\<lambda>k c. k", OF h0 A] r(1)
  obtain c2 where seed: "WithTenant str pg_driver A (as_callback (seed_row (insert_row env T key mk) A)) (c\<lparr>captured := []\<rparr>)
        = ((if ?seed then Return None else Return (Some (Callback (Inserting InsufficientPrivilege)))), c2)"
      and c2: "?seed \<Longrightarrow> healthy c2 (rows @ [r]) \<and> captured c2 = key r"
    by (auto simp: seed_row_def split: if_splits)
  show ?thesis
  proof (cases ?seed)
    case False
    then show ?thesis using f name seed by (simp add: Check_def and_also_def as_failure_def)
  next
    case True
    note h2 = conjunct1 [OF c2 [OF True]] and k2 = conjunct2 [OF c2 [OF True]]
    have ne: "key r \<noteq> []" using r(2) by (simp add: identifies_def)
    from blind_check [where str = str, OF h2 B r(2), of tt] obtain f3 c3
      where blind: "checkTenantBIsBlind env str T tt B (key r) c2 = (f3, c3)"
        and c3: "f3 = None \<Longrightarrow> healthy c3 (rows @ [r])" and f3: "f3 = None \<longleftrightarrow> ?blind1 \<and> ?blind2 \<and> ?blind3"
      unfolding f by blast
    have start: "Check env str T tt A B c = and_also (f3, c3) (\<lambda>c3.
        and_also (checkTenantBCannotWipeTheTable env str T tt B c3) (\<lambda>c4.
        and_also (checkTenantBCannotForgeOwnership str (insert_row env T key mk) A B c4) (\<lambda>c5.
          checkTenantAStillSeesItsRow env str T A (key r) c5)))"
      using f name seed True k2 ne blind by (simp add: Check_def and_also_def as_failure_def)
    show ?thesis
    proof (cases f3)
      case (Some e)
      then show ?thesis using start f3 by (auto simp: and_also_def)
    next
      case None
      with f3 have b: "?blind1 \<and> ?blind2 \<and> ?blind3" by simp
      from wipe_check [where str = str and T = T and tt = tt, OF c3 [OF None] B] b f
      obtain f4 c4 where wipe: "checkTenantBCannotWipeTheTable env str T tt B c3 = (f4, c4)"
        and h4: "healthy c4 (rows @ [r])" and f4: "f4 = None \<longleftrightarrow> ?wipe" by auto
      have forge: "\<exists>f5 c5. checkTenantBCannotForgeOwnership str (insert_row env T key mk) A B c4 = (f5, c5)
          \<and> (f5 = None \<longleftrightarrow> ?forge) \<and> (?forge \<longrightarrow> healthy c5 (rows @ [r]))"
        using insert_run [where env = env and str = str and u = B and v = A and T = T and key = key and mk = mk
            and cap = "\<lambda>k c. captured c" and m = "\<lambda>c. case insert_row env T key mk A c of (Inl e, c1) \<Rightarrow> (Inl (Inserting e), c1)
              | (Inr k, c1) \<Rightarrow> (Inr (), c1\<lparr>captured := captured c1\<rparr>)", OF h4 B]
        by (auto simp: checkTenantBCannotForgeOwnership_def forge_callback)
      then obtain f5 c5 where forge: "checkTenantBCannotForgeOwnership str (insert_row env T key mk) A B c4 = (f5, c5)"
        "f5 = None \<longleftrightarrow> ?forge" "?forge \<Longrightarrow> healthy c5 (rows @ [r])" by blast
      have still: "fst (checkTenantAStillSeesItsRow env str T A (key r) c5) = None \<longleftrightarrow> ?still" if ?forge
        using still_check [where str = str, OF forge(3) [OF that] A r(2)] .
      show ?thesis
      proof (cases "?wipe \<and> ?forge")
        case True
        then show ?thesis using start None wipe f4 forge still b \<open>?seed\<close> by (simp add: and_also_def)
      next
        case False
        then show ?thesis using start None wipe f4 forge by (cases f4) (auto simp: and_also_def)
      qed
    qed
  qed
qed

text \<open>C16: On a healthy connection the check passes exactly if, for the row it seeds for A: A may insert it
  and sees it, B neither sees it nor may insert the next one for A, the grants are the ones the case
  declares, and where B may delete at all, an unqualified DELETE reaches as many rows as B sees. It says
  nothing of the UPDATE policy.\<close>

theorem ab_check_passes_exactly:
  assumes h: "healthy c rows" and A: "A \<noteq> uuid_nil" "str A \<noteq> []" "cast_uuid env (str A) = Some A"
    and B: "B \<noteq> uuid_nil" "str B \<noteq> []" "cast_uuid env (str B) = Some B"
    and r: "mk A rows = r" "identifies T (key r) r rows" and name: "name \<noteq> []"
    and tt: "tt = ab_case env T key mk name touch append_only no_delete"
  shows "fst (Check env str T tt A B c) = None \<longleftrightarrow>
      inserts T (TenantDoor (Some A)) r \<and> sees T (TenantDoor (Some A)) r \<and> \<not> sees T (TenantDoor (Some B)) r
      \<and> \<not> inserts T (TenantDoor (Some B)) (mk A (rows @ [r]))
      \<and> (grants_update T (touchColumn tt) \<longleftrightarrow> \<not> append_only) \<and> (grants_delete T \<longleftrightarrow> \<not> (append_only \<or> no_delete))
      \<and> (grants_delete T \<longrightarrow> count_rows (deletes T (TenantDoor (Some B))) (rows @ [r])
           = count_rows (sees T (TenantDoor (Some B))) (rows @ [r]))"
  by (rule ab_check_iff [OF assms])

section \<open>Samples\<close>

text \<open>
  A table of numbered rows, each with its shelter: once with the policy every tenant table has, once
  with an UPDATE policy open to everybody, and once with a DELETE policy that is inside out.
\<close>

definition two_shelters :: sql_env where
  "two_shelters = \<lparr>cast_uuid = (\<lambda>s. if s = ''one'' then Some 1 else if s = ''two'' then Some 2 else None),
     text_ok = (\<lambda>_. True), jsonb_in = Some, jsonb_contains = (=), same_email = (=), text_le = (\<lambda>_ _. True)\<rparr>"

definition shelter_text :: "uuid \<Rightarrow> string" where
  "shelter_text u = (if u = 1 then ''one'' else ''two'')"

definition isolating :: "(nat \<times> uuid) policy_table" where
  "isolating = \<lparr>sees = (\<lambda>d r. own d (snd r)), inserts = (\<lambda>d r. own d (snd r)), updates = (\<lambda>d r. own d (snd r)),
     keeps = (\<lambda>d r. own d (snd r)), deletes = (\<lambda>d r. own d (snd r)), grants_update = (\<lambda>_. True), grants_delete = True,
     column = (\<lambda>r _. decimal (fst r))\<rparr>"

definition next_row :: "uuid \<Rightarrow> (nat \<times> uuid) list \<Rightarrow> nat \<times> uuid" where
  "next_row u rows = (length rows, u)"

definition id_key :: "nat \<times> uuid \<Rightarrow> row_key" where
  "id_key r = [(''id'', decimal (fst r))]"

definition ab_start :: "(nat \<times> uuid) list \<Rightarrow> (nat \<times> uuid) list ab_conn" where
  "ab_start rows = pgconn.extend (idle_conn rows 0 []) \<lparr>captured = []\<rparr>"

lemma ab_start_healthy: "healthy (ab_start rows) rows"
  by (simp add: healthy_def ab_start_def idle_conn_def pgconn.defs pg_idle_def)

definition sample_case :: "(nat \<times> uuid) policy_table \<Rightarrow> (nat \<times> uuid) tenant_table" where
  "sample_case T = ab_case two_shelters T id_key next_row ''t'' [] False False"

lemma sample_check:
  fixes T :: "(nat \<times> uuid) policy_table"
  assumes T: "column T = column isolating" "grants_update T = grants_update isolating" "grants_delete T"
    and rows: "rows = [] \<or> rows = [(0, 2)]"
    and pol: "inserts T (TenantDoor (Some 1)) (length rows, 1)" "sees T (TenantDoor (Some 1)) (length rows, 1)"
      "\<not> sees T (TenantDoor (Some 2)) (length rows, 1)" "\<not> inserts T (TenantDoor (Some 2)) (Suc (length rows), 1)"
      "count_rows (deletes T (TenantDoor (Some 2))) (rows @ [(length rows, 1)])
       = count_rows (sees T (TenantDoor (Some 2))) (rows @ [(length rows, 1)])"
  shows "fst (Check two_shelters shelter_text T (sample_case T) 1 2 (ab_start rows)) = None"
proof -
  have "decimal 0 \<noteq> decimal (Suc 0)" by code_simp
  then have "identifies T (id_key (length rows, 1)) (length rows, 1) rows"
    using rows T(1) by (auto simp: identifies_def id_key_def matches_def isolating_def)
  from ab_check_iff [where mk = next_row and name = "''t''" and append_only = False and no_delete = False
      and A = 1 and B = 2 and str = shelter_text and tt = "sample_case T" and touch = "[]" and r = "(length rows, 1)",
      OF ab_start_healthy _ _ _ _ _ _ _ this _ sample_case_def]
  show ?thesis using T pol
    by (simp add: two_shelters_def shelter_text_def uuid_nil_def next_row_def isolating_def)
qed

text \<open>
  What the check does not see: an UPDATE policy open to everybody passes, because its probe names
  the row and so goes through the SELECT policy first; and so does a DELETE policy that gives B
  another shelter's row instead of its own, because only the numbers of rows are compared.
\<close>

theorem ab_check_misses:
  "fst (Check two_shelters shelter_text (isolating\<lparr>updates := (\<lambda>_ _. True), keeps := (\<lambda>_ _. True)\<rparr>)
      (sample_case (isolating\<lparr>updates := (\<lambda>_ _. True), keeps := (\<lambda>_ _. True)\<rparr>)) 1 2 (ab_start [])) = None"
  "fst (Check two_shelters shelter_text (isolating\<lparr>deletes := (\<lambda>d r. \<not> own d (snd r))\<rparr>)
      (sample_case (isolating\<lparr>deletes := (\<lambda>d r. \<not> own d (snd r))\<rparr>)) 1 2 (ab_start [(0, 2)])) = None"
  by (rule sample_check; simp add: isolating_def count_rows_def)+

theorem ab_check_passes_exactly_witness:
  "fst (Check two_shelters shelter_text isolating (sample_case isolating) 1 2 (ab_start [])) = None
   \<and> fst (Check two_shelters shelter_text (isolating\<lparr>deletes := (\<lambda>_ _. True)\<rparr>)
       (sample_case (isolating\<lparr>deletes := (\<lambda>_ _. True)\<rparr>)) 1 2 (ab_start [])) \<noteq> None"
proof -
  have id: "identifies T (id_key (0, 1)) (0, 1) []" if "column T = column isolating" for T :: "(nat \<times> uuid) policy_table"
    using that by (simp add: identifies_def id_key_def matches_def isolating_def)
  have "fst (Check two_shelters shelter_text T (sample_case T) 1 2 (ab_start [])) = None
      \<longleftrightarrow> count_rows (deletes T (TenantDoor (Some 2))) [(0, 1)] = 0"
    if "T = isolating \<or> T = isolating\<lparr>deletes := (\<lambda>_ _. True)\<rparr>" for T :: "(nat \<times> uuid) policy_table"
  proof -
    have "column T = column isolating" using that by (auto simp: isolating_def)
    from ab_check_passes_exactly [where mk = next_row and name = "''t''" and append_only = False and no_delete = False
        and A = 1 and B = 2 and str = shelter_text and tt = "sample_case T" and touch = "[]" and r = "(0, 1)",
        OF ab_start_healthy _ _ _ _ _ _ _ id [OF this] _ sample_case_def] that
    show ?thesis by (auto simp: two_shelters_def shelter_text_def uuid_nil_def next_row_def isolating_def count_rows_def)
  qed
  then show ?thesis by (simp add: isolating_def count_rows_def)
qed

end
