(* ===== verification/Catalog.thy ===== *)
theory Catalog imports GoStrings "HOL-Library.List_Lexorder" "HOL-Library.Char_ord"
begin

text \<open>
  \<^verbatim>\<open>internal/db/rlstest/catalog.go\<close>: the declaration of what every relation of the schema is, the
  rules it is held to, and reading the database's own catalog. An error is a value that names the
  sentinel and what it is about; a list of errors is \<^verbatim>\<open>errors.Join\<close>, empty for nil. A map of the
  declaration is the list of its entries, whose order no function reads.
\<close>

section \<open>The declaration\<close>

record classification =
  Tenant :: "string list"
  TenantChildren :: "string list"
  AppendOnly :: "string list"
  NonTenantModel :: "string list"
  Infrastructure :: "string list"
  NoPolicy :: "string list"
  Pending :: "(string \<times> string) list"
  PolicyLandsAt :: "(string \<times> int) list"

definition Schema :: classification where
  "Schema =
     \<lparr>Tenant =
        [''adoption_applications'', ''application_events'', ''application_notes'', ''audit_log'', ''documents'',
         ''form_submissions'', ''form_template_versions'', ''form_templates'', ''media'', ''memberships'',
         ''pet_health_records'', ''pet_media'', ''pet_status_history'', ''pets'', ''shelters''],
      TenantChildren =
        [''adoption_applications'', ''application_events'', ''application_notes'', ''documents'',
         ''form_submissions'', ''form_template_versions'', ''pet_health_records'', ''pet_media'',
         ''pet_status_history''],
      AppendOnly = [''application_events'', ''audit_log''],
      NonTenantModel = [''breeds'', ''refresh_tokens'', ''species'', ''totp_recovery_codes'', ''users''],
      Infrastructure = [''goose_db_version''],
      NoPolicy = [],
      Pending = [],
      PolicyLandsAt = [(''refresh_tokens'', 13)]\<rparr>"

fun contains :: "string list \<Rightarrow> string \<Rightarrow> bool" where
  "contains [] name = False"
| "contains (candidate # rest) name = (if candidate = name then True else contains rest name)"

fun duplicates_after :: "string list \<Rightarrow> string list \<Rightarrow> string list" where
  "duplicates_after seen [] = []"
| "duplicates_after seen (name # names) =
     (if contains seen name then name # duplicates_after (name # seen) names
      else duplicates_after (name # seen) names)"

definition duplicates :: "string list \<Rightarrow> string list" where
  "duplicates names = duplicates_after [] names"

definition sortedKeys :: "(string \<times> string) list \<Rightarrow> string list" where
  "sortedKeys m = sort (map fst m)"

definition sortedInt64Keys :: "(string \<times> int) list \<Rightarrow> string list" where
  "sortedInt64Keys m = sort (map fst m)"

definition ModelTables :: "classification \<Rightarrow> string list" where
  "ModelTables c = sort (Tenant c @ NonTenantModel c)"

definition IsModelTable :: "classification \<Rightarrow> string \<Rightarrow> bool" where
  "IsModelTable c name \<longleftrightarrow> contains (Tenant c) name \<or> contains (NonTenantModel c) name"

section \<open>The declaration against itself\<close>

datatype problem = ListedTwice string string | DeclaredInBoth string string string
  | ChildNotTenant string | PendingNotModel string | ExceptionNotModel string | LandsNotModel string
  | LandsAndNoPolicy string | ChildTwice string | AppendOnlyNotModel string | AppendOnlyTwice string

text \<open>Each with its text; \<open>q\<close> is the verb \<^verbatim>\<open>%q\<close>.\<close>

fun problem_text :: "(string \<Rightarrow> string) \<Rightarrow> problem \<Rightarrow> string" where
  "problem_text q (ListedTwice name label) =
     q name @ '' is listed twice in '' @ label @ '', which inflates the declared count''"
| "problem_text q (DeclaredInBoth name met label) = q name @ '' is declared in both '' @ met @ '' and '' @ label"
| "problem_text q (ChildNotTenant name) =
     q name @ '' is a tenant child but not a tenant table, so it would never get an A/B case''"
| "problem_text q (PendingNotModel name) = q name @ '' is pending but is not a declared model table''"
| "problem_text q (ExceptionNotModel name) =
     q name @ '' is a declared policy exception but is not a declared model table''"
| "problem_text q (LandsNotModel name) = q name @ '' is in PolicyLandsAt but is not a declared model table''"
| "problem_text q (LandsAndNoPolicy name) =
     q name @ '' is declared both permanently policy-free (NoPolicy) and as gaining a policy at a later version (PolicyLandsAt), which is a contradiction''"
| "problem_text q (ChildTwice name) = q name @ '' is listed twice in TenantChildren''"
| "problem_text q (AppendOnlyNotModel name) =
     q name @ '' is declared append-only but is not a declared model table, so the enforcement suite would never reach it''"
| "problem_text q (AppendOnlyTwice name) = q name @ '' is listed twice in AppendOnly''"

text \<open>The loop over the three sets; \<open>seen\<close> maps a name to the set it was first met in.\<close>

fun scan_set ::
  "string \<Rightarrow> string list \<Rightarrow> (string \<rightharpoonup> string) \<Rightarrow> problem list \<Rightarrow> (string \<rightharpoonup> string) \<times> problem list" where
  "scan_set label [] seen problems = (seen, problems)"
| "scan_set label (name # names) seen problems =
     (case seen name of
        Some met \<Rightarrow>
          scan_set label names seen
            (problems @ [if met = label then ListedTwice name label else DeclaredInBoth name met label])
      | None \<Rightarrow> scan_set label names (seen(name \<mapsto> label)) problems)"

fun scan_sets :: "(string \<times> string list) list \<Rightarrow> (string \<rightharpoonup> string) \<Rightarrow> problem list \<Rightarrow> problem list" where
  "scan_sets [] seen problems = problems"
| "scan_sets ((label, names) # sets) seen problems =
     (case scan_set label names seen problems of (seen', problems') \<Rightarrow> scan_sets sets seen' problems')"

definition validation_problems :: "classification \<Rightarrow> problem list" where
  "validation_problems c =
     scan_sets [(''Tenant'', Tenant c), (''NonTenantModel'', NonTenantModel c), (''Infrastructure'', Infrastructure c)]
       Map.empty []
     @ map ChildNotTenant (filter (\<lambda>name. \<not> contains (Tenant c) name) (TenantChildren c))
     @ map PendingNotModel (filter (\<lambda>name. \<not> IsModelTable c name) (sortedKeys (Pending c)))
     @ map ExceptionNotModel (filter (\<lambda>name. \<not> IsModelTable c name) (NoPolicy c))
     @ concat (map (\<lambda>name.
           (if \<not> IsModelTable c name then [LandsNotModel name] else [])
           @ (if contains (NoPolicy c) name then [LandsAndNoPolicy name] else []))
         (sortedInt64Keys (PolicyLandsAt c)))
     @ map ChildTwice (duplicates (TenantChildren c))
     @ map AppendOnlyNotModel (filter (\<lambda>name. \<not> IsModelTable c name) (AppendOnly c))
     @ map AppendOnlyTwice (duplicates (AppendOnly c))"

datatype catalog_error = ErrUnclassifiedRelation "string list" | ErrDeclarationInvalid "problem list"
  | ErrPendingTableExists string string | ErrTableMissing string
  | ErrRLSNotEnabled string | ErrRLSNotForced string | ErrNoPolicy string

definition Validate :: "classification \<Rightarrow> catalog_error option" where
  "Validate c =
     (if validation_problems c = [] then None else Some (ErrDeclarationInvalid (validation_problems c)))"

section \<open>The database against the declaration\<close>

definition ClassifyAll :: "classification \<Rightarrow> string list \<Rightarrow> catalog_error option" where
  "ClassifyAll c existing =
     (let unknown = filter (\<lambda>name. \<not> IsModelTable c name \<and> \<not> contains (Infrastructure c) name) existing in
      if unknown = [] then None else Some (ErrUnclassifiedRelation (sort unknown)))"

definition CheckPending :: "classification \<Rightarrow> string list \<Rightarrow> catalog_error list" where
  "CheckPending c existing =
     map (\<lambda>name. ErrPendingTableExists name (case map_of (Pending c) name of None \<Rightarrow> [] | Some task \<Rightarrow> task))
       (filter (contains existing) (sortedKeys (Pending c)))
     @ map ErrTableMissing
         (filter (\<lambda>name. map_of (Pending c) name = None \<and> \<not> contains existing name) (ModelTables c))"

record table_protection =
  Name :: string
  RLSEnabled :: bool
  RLSForced :: bool
  PolicyCount :: int

definition checkProtection :: "classification \<Rightarrow> table_protection \<Rightarrow> bool \<Rightarrow> catalog_error list" where
  "checkProtection c t policyExempt =
     (if contains (Infrastructure c) (Name t) then []
      else if \<not> IsModelTable c (Name t) then [ErrUnclassifiedRelation [Name t]]
      else (if \<not> RLSEnabled t then [ErrRLSNotEnabled (Name t)] else [])
         @ (if \<not> RLSForced t then [ErrRLSNotForced (Name t)] else [])
         @ (if PolicyCount t = 0 \<and> \<not> policyExempt then [ErrNoPolicy (Name t)] else []))"

definition CheckProtection :: "classification \<Rightarrow> table_protection \<Rightarrow> catalog_error list" where
  "CheckProtection c t = checkProtection c t (contains (NoPolicy c) (Name t))"

definition CheckProtectionAt :: "classification \<Rightarrow> table_protection \<Rightarrow> int \<Rightarrow> catalog_error list" where
  "CheckProtectionAt c t at =
     checkProtection c t
       (case map_of (PolicyLandsAt c) (Name t) of
          None \<Rightarrow> contains (NoPolicy c) (Name t)
        | Some landsAt \<Rightarrow> at < landsAt \<or> contains (NoPolicy c) (Name t))"

section \<open>Reading the catalog\<close>

text \<open>
  What \<^verbatim>\<open>readTablesSQL\<close> asks of \<^verbatim>\<open>pg_class\<close>, and how the rows it is answered with are read: each
  one may fail to scan, and the stream may end with an error.
\<close>

record pg_relation =
  relname :: string
  nspname :: string
  relkind :: char
  relrowsecurity :: bool
  relforcerowsecurity :: bool
  policies :: nat

definition readTablesSQL :: "pg_relation list \<Rightarrow> table_protection list" where
  "readTablesSQL rels =
     map (\<lambda>r. \<lparr>Name = relname r, RLSEnabled = relrowsecurity r, RLSForced = relforcerowsecurity r,
               PolicyCount = int (policies r)\<rparr>)
       (sort_key relname (filter (\<lambda>r. nspname r = ''public'' \<and> relkind r \<in> {CHR ''r'', CHR ''p''}) rels))"

datatype 'e read_error = ReadingCatalog 'e | ScanningRow 'e

fun scan_tables ::
  "('e + table_protection) list \<Rightarrow> 'e option \<Rightarrow> 'e read_error + table_protection list" where
  "scan_tables [] e = (case e of None \<Rightarrow> Inr [] | Some x \<Rightarrow> Inl (ReadingCatalog x))"
| "scan_tables (Inl x # rows) e = Inl (ScanningRow x)"
| "scan_tables (Inr t # rows) e = map_sum id ((#) t) (scan_tables rows e)"

definition ReadTables ::
  "'e + ('e + table_protection) list \<times> 'e option \<Rightarrow> 'e read_error + table_protection list" where
  "ReadTables answer =
     (case answer of Inl x \<Rightarrow> Inl (ReadingCatalog x) | Inr (rows, e) \<Rightarrow> scan_tables rows e)"

section \<open>What a valid declaration is\<close>

lemma contains_set [simp]: "contains xs x \<longleftrightarrow> x \<in> set xs"
  by (induction xs) auto

lemma duplicates_after_Nil: "duplicates_after seen xs = [] \<longleftrightarrow> distinct xs \<and> set xs \<inter> set seen = {}"
  by (induction xs arbitrary: seen) auto

lemma duplicates_Nil [simp]: "duplicates xs = [] \<longleftrightarrow> distinct xs"
  by (simp add: duplicates_def duplicates_after_Nil)

lemma keys_sorted [simp]: "set (sortedKeys m) = fst ` set m" "set (sortedInt64Keys k) = fst ` set k"
  by (simp_all add: sortedKeys_def sortedInt64Keys_def)

lemma model_tables [simp]: "set (ModelTables c) = set (Tenant c) \<union> set (NonTenantModel c)"
  "IsModelTable c n \<longleftrightarrow> n \<in> set (Tenant c) \<union> set (NonTenantModel c)"
  by (auto simp: ModelTables_def IsModelTable_def)

lemma scan_set_result:
  "scan_set label names seen problems = (seen', problems') \<Longrightarrow>
     dom seen' = dom seen \<union> set names
     \<and> (problems' = [] \<longleftrightarrow> problems = [] \<and> distinct names \<and> set names \<inter> dom seen = {})"
proof (induction names arbitrary: seen problems)
  case (Cons name names)
  show ?case
  proof (cases "seen name")
    case None
    then have r: "scan_set label names (seen(name \<mapsto> label)) problems = (seen', problems')" and new: "name \<notin> dom seen"
      using Cons.prems by auto
    have "dom (seen(name \<mapsto> label)) = insert name (dom seen)" by simp
    from Cons.IH [OF r, unfolded this] new show ?thesis by auto
  next
    case (Some met)
    then obtain p where "scan_set label names seen (problems @ [p]) = (seen', problems')" "name \<in> dom seen"
      using Cons.prems by auto
    with Cons.IH [OF this(1)] show ?thesis by auto
  qed
qed auto

lemma scan_sets_Nil:
  "scan_sets sets seen problems = []
     \<longleftrightarrow> problems = [] \<and> distinct (concat (map snd sets)) \<and> set (concat (map snd sets)) \<inter> dom seen = {}"
proof (induction sets arbitrary: seen problems)
  case (Cons s sets)
  obtain label names where s: "s = (label, names)" by force
  obtain seen' problems' where r: "scan_set label names seen problems = (seen', problems')" by force
  from scan_set_result [OF r] Cons.IH [of seen' problems'] show ?case by (auto simp: s r)
qed simp

lemma validates_exactly':
  "Validate c = None \<longleftrightarrow>
     distinct (Tenant c @ NonTenantModel c @ Infrastructure c)
     \<and> set (TenantChildren c) \<subseteq> set (Tenant c) \<and> distinct (TenantChildren c)
     \<and> fst ` set (Pending c) \<union> set (NoPolicy c) \<union> fst ` set (PolicyLandsAt c) \<union> set (AppendOnly c)
         \<subseteq> set (Tenant c) \<union> set (NonTenantModel c)
     \<and> fst ` set (PolicyLandsAt c) \<inter> set (NoPolicy c) = {}
     \<and> distinct (AppendOnly c)"
  by (auto simp: Validate_def validation_problems_def scan_sets_Nil filter_empty_conv
      simp del: scan_sets.simps)

text \<open>A declaration validates exactly if it contradicts itself nowhere: the three sets list every
  name once, children are tenant tables and listed once, everything else it names is a model table,
  append-only tables are listed once, and no table is both without a policy for good and waiting for one.\<close>

theorem validates_exactly:
  "Validate c = None \<longleftrightarrow>
     distinct (Tenant c @ NonTenantModel c @ Infrastructure c)
     \<and> set (TenantChildren c) \<subseteq> set (Tenant c) \<and> distinct (TenantChildren c)
     \<and> fst ` set (Pending c) \<union> set (NoPolicy c) \<union> fst ` set (PolicyLandsAt c) \<union> set (AppendOnly c)
         \<subseteq> set (Tenant c) \<union> set (NonTenantModel c)
     \<and> fst ` set (PolicyLandsAt c) \<inter> set (NoPolicy c) = {}
     \<and> distinct (AppendOnly c)"
  by (rule validates_exactly')

section \<open>What a passing check shows\<close>

text \<open>The rules as the meta-test applies them to the tables it has read.\<close>

definition catalog_passes :: "classification \<Rightarrow> table_protection list \<Rightarrow> bool" where
  "catalog_passes c tables \<longleftrightarrow>
     Validate c = None \<and> ClassifyAll c (map Name tables) = None \<and> CheckPending c (map Name tables) = []
     \<and> list_all (\<lambda>t. CheckProtection c t = []) tables"

lemma check_protection_Nil:
  "CheckProtection c t = [] \<longleftrightarrow> Name t \<in> set (Infrastructure c)
     \<or> Name t \<in> set (Tenant c) \<union> set (NonTenantModel c) \<and> RLSEnabled t \<and> RLSForced t
        \<and> (PolicyCount t \<noteq> 0 \<or> Name t \<in> set (NoPolicy c))"
  by (auto simp: CheckProtection_def checkProtection_def)

lemma check_pending_Nil:
  "CheckPending c existing = [] \<longleftrightarrow> fst ` set (Pending c) \<inter> set existing = {}
     \<and> set (Tenant c) \<union> set (NonTenantModel c) \<subseteq> set existing \<union> fst ` set (Pending c)"
  by (auto simp: CheckPending_def filter_empty_conv map_of_eq_None_iff)

lemma classify_all_None:
  "ClassifyAll c existing = None
     \<longleftrightarrow> set existing \<subseteq> set (Tenant c) \<union> set (NonTenantModel c) \<union> set (Infrastructure c)"
  by (auto simp: ClassifyAll_def Let_def filter_empty_conv)

lemma scan_tables_Inr [simp]: "scan_tables (map Inr ts) None = Inr ts"
  by (induction ts) simp_all

lemma schema_valid: "Validate Schema = None"
  unfolding validates_exactly' by (simp add: Schema_def)

definition base_relation :: "pg_relation \<Rightarrow> bool" where
  "base_relation r \<longleftrightarrow> nspname r = ''public'' \<and> (relkind r = CHR ''r'' \<or> relkind r = CHR ''p'')"

lemma subset_image_all: "X \<subseteq> f ` Y \<longleftrightarrow> (\<forall>x \<in> X. \<exists>y \<in> Y. f y = x)"
  by (auto simp: subset_iff image_iff)

lemma passes_iff:
  "catalog_passes Schema (readTablesSQL rels) \<longleftrightarrow>
        (\<forall>r \<in> set rels. base_relation r \<longrightarrow> relname r = ''goose_db_version''
            \<or> relname r \<in> set (Tenant Schema @ NonTenantModel Schema)
               \<and> relrowsecurity r \<and> relforcerowsecurity r \<and> 0 < policies r)
        \<and> (\<forall>n \<in> set (Tenant Schema @ NonTenantModel Schema). \<exists>r \<in> set rels. base_relation r \<and> relname r = n)"
proof -
  let ?model = "set (Tenant Schema) \<union> set (NonTenantModel Schema)"
  have names: "set (map Name (readTablesSQL rels)) = relname ` {r \<in> set rels. base_relation r}"
    by (auto simp: readTablesSQL_def base_relation_def image_iff)
  have sets: "set (Infrastructure Schema) = {''goose_db_version''}" "Pending Schema = []" "NoPolicy Schema = []"
    by (simp_all add: Schema_def)
  have prot: "list_all (\<lambda>t. CheckProtection Schema t = []) (readTablesSQL rels) \<longleftrightarrow>
      (\<forall>r \<in> set rels. base_relation r \<longrightarrow> relname r = ''goose_db_version''
         \<or> relname r \<in> ?model \<and> relrowsecurity r \<and> relforcerowsecurity r \<and> 0 < policies r)"
    unfolding check_protection_Nil sets by (auto simp: readTablesSQL_def base_relation_def list_all_iff)
  have there: "?model \<subseteq> relname ` {r \<in> set rels. base_relation r}
      \<longleftrightarrow> (\<forall>n \<in> set (Tenant Schema @ NonTenantModel Schema). \<exists>r \<in> set rels. base_relation r \<and> relname r = n)"
    unfolding subset_image_all set_append by blast
  have "catalog_passes Schema (readTablesSQL rels) \<longleftrightarrow>
      relname ` {r \<in> set rels. base_relation r} \<subseteq> ?model \<union> {''goose_db_version''}
      \<and> ?model \<subseteq> relname ` {r \<in> set rels. base_relation r}
      \<and> (\<forall>r \<in> set rels. base_relation r \<longrightarrow> relname r = ''goose_db_version''
         \<or> relname r \<in> ?model \<and> relrowsecurity r \<and> relforcerowsecurity r \<and> 0 < policies r)"
    unfolding catalog_passes_def classify_all_None check_pending_Nil names prot sets by (simp add: schema_valid)
  then show ?thesis unfolding there by (simp only: set_append) blast
qed

text \<open>C15: The schema's own declaration is valid, and the tables read from a database pass it exactly if
  every declared table exists, and every table or partitioned table of the public schema is goose's or
  a declared one that has row-level security on, forced, and at least one policy.\<close>

theorem schema_passes_exactly:
  "ReadTables (Inr (map Inr (readTablesSQL rels), None :: 'e option)) = Inr (readTablesSQL rels)
   \<and> (catalog_passes Schema (readTablesSQL rels) \<longleftrightarrow>
        (\<forall>r \<in> set rels. base_relation r \<longrightarrow> relname r = ''goose_db_version''
            \<or> relname r \<in> set (Tenant Schema @ NonTenantModel Schema)
               \<and> relrowsecurity r \<and> relforcerowsecurity r \<and> 0 < policies r)
        \<and> (\<forall>n \<in> set (Tenant Schema @ NonTenantModel Schema). \<exists>r \<in> set rels. base_relation r \<and> relname r = n))"
  using passes_iff [of rels] by (simp only: ReadTables_def scan_tables_Inr prod.case sum.case simp_thms)

definition sample_relation :: "string \<Rightarrow> pg_relation" where
  "sample_relation n = \<lparr>relname = n, nspname = ''public'', relkind = CHR ''r'', relrowsecurity = True,
     relforcerowsecurity = True, policies = 1\<rparr>"

theorem schema_passes_exactly_witness:
  "catalog_passes Schema (readTablesSQL (map sample_relation (''goose_db_version'' # Tenant Schema @ NonTenantModel Schema)))
   \<and> \<not> catalog_passes Schema (readTablesSQL (map sample_relation (Tenant Schema)))"
  using schema_passes_exactly [of "map sample_relation (''goose_db_version'' # Tenant Schema @ NonTenantModel Schema)"]
    schema_passes_exactly [of "map sample_relation (Tenant Schema)"]
  by (auto simp: sample_relation_def base_relation_def Schema_def)

text \<open>Inspecting the schema at a version differs from inspecting it at the head in one thing: a table
  whose first policy lands at a later version is not blamed for having none.\<close>

theorem protection_at_version:
  "CheckProtectionAt c t at =
     (case map_of (PolicyLandsAt c) (Name t) of
        Some landsAt \<Rightarrow> if at < landsAt then filter (\<lambda>e. e \<noteq> ErrNoPolicy (Name t)) (CheckProtection c t)
                         else CheckProtection c t
      | None \<Rightarrow> CheckProtection c t)"
  by (auto simp: CheckProtectionAt_def CheckProtection_def checkProtection_def split: option.split)

end
