(* ===== verification/RoleGuard.thy ===== *)
theory RoleGuard imports Catalog
begin

text \<open>
  \<^verbatim>\<open>internal/db/dbtest/roles.go\<close>: the guard that refuses to assert isolation with a role no policy
  binds, read from what the server reports about the connection's own role, and what passing it
  means together with the catalog check.
\<close>

record role_capabilities =
  rc_Name :: string
  rc_Super :: bool
  rc_BypassRLS :: bool

datatype 'e role_error = ErrRoleUnknown | ErrRoleIsSuper string | ErrRoleBypasses string | ErrRoleIsOwner string
  | ReadingCapabilities 'e | Guarding string "'e role_error" | Unusable string "'e role_error"

text \<open>Both of the first are \<^verbatim>\<open>ErrRoleCanBypassRLS\<close>, with the reason in the message.\<close>

fun can_bypass :: "'e role_error \<Rightarrow> bool" where
  "can_bypass (ErrRoleIsSuper n) = True"
| "can_bypass (ErrRoleBypasses n) = True"
| "can_bypass (Unusable label e) = can_bypass e"
| "can_bypass (Guarding label e) = can_bypass e"
| "can_bypass e = False"

text \<open>The row of \<^verbatim>\<open>pg_roles\<close> that carries the role's own name; no row is an error of \<^verbatim>\<open>Scan\<close>.\<close>

definition readCapabilitiesSQL :: "string \<Rightarrow> role_capabilities list \<Rightarrow> role_capabilities option" where
  "readCapabilitiesSQL current_user roles = find (\<lambda>r. rc_Name r = current_user) roles"

definition ReadRoleCapabilities :: "'e + role_capabilities \<Rightarrow> 'e role_error + role_capabilities" where
  "ReadRoleCapabilities answer = map_sum ReadingCapabilities id answer"

definition CheckRoleCannotBypassRLS :: "role_capabilities \<Rightarrow> string \<Rightarrow> 'e role_error option" where
  "CheckRoleCannotBypassRLS caps ownerRole =
     (if rc_Name caps = [] then Some ErrRoleUnknown
      else if rc_Super caps then Some (ErrRoleIsSuper (rc_Name caps))
      else if rc_BypassRLS caps then Some (ErrRoleBypasses (rc_Name caps))
      else if ownerRole \<noteq> [] \<and> rc_Name caps = ownerRole then Some (ErrRoleIsOwner (rc_Name caps))
      else None)"

definition guardRole :: "string \<Rightarrow> 'e + role_capabilities \<Rightarrow> string \<Rightarrow> 'e role_error + role_capabilities" where
  "guardRole label answer ownerRole =
     (case ReadRoleCapabilities answer of
        Inl e \<Rightarrow> Inl (Guarding label e)
      | Inr caps \<Rightarrow>
          (case CheckRoleCannotBypassRLS caps ownerRole of
             Some e \<Rightarrow> Inl (Unusable label e)
           | None \<Rightarrow> Inr caps))"

section \<open>Being bound\<close>

text \<open>
  When PostgreSQL applies a relation's policies to a role: row security is on, the role neither is a
  superuser nor bypasses it, and it is not the owner of a relation that does not force it.
\<close>

definition policies_bind :: "role_capabilities \<Rightarrow> string \<Rightarrow> pg_relation \<Rightarrow> bool" where
  "policies_bind caps owner r \<longleftrightarrow> relrowsecurity r \<and> \<not> rc_Super caps \<and> \<not> rc_BypassRLS caps
     \<and> (rc_Name caps = owner \<longrightarrow> relforcerowsecurity r)"

lemma guardRole_Inr: "guardRole label answer ownerRole = Inr caps \<longleftrightarrow>
    answer = Inr caps \<and> rc_Name caps \<noteq> [] \<and> \<not> rc_Super caps \<and> \<not> rc_BypassRLS caps
    \<and> (ownerRole = [] \<or> rc_Name caps \<noteq> ownerRole)"
  by (cases answer) (auto simp: guardRole_def ReadRoleCapabilities_def CheckRoleCannotBypassRLS_def split: sum.splits option.splits if_splits)

text \<open>Behind a passed role guard and a passed catalog check, every declared table of the public schema
  exists and binds the connection's role to its policies, whoever owns it.\<close>

theorem guarded_role_is_bound:
  assumes guard: "guardRole label answer ownerRole = Inr caps"
    and catalog: "catalog_passes Schema (readTablesSQL rels)"
  shows "(\<forall>n \<in> set (Tenant Schema @ NonTenantModel Schema). \<exists>r \<in> set rels. base_relation r \<and> relname r = n)
    \<and> (\<forall>r \<in> set rels. base_relation r \<longrightarrow> relname r \<noteq> ''goose_db_version'' \<longrightarrow> policies_bind caps owner r \<and> 0 < policies r)"
  using guard catalog unfolding guardRole_Inr passes_iff by (auto simp: policies_bind_def)

end
