(* ===== verification/Bootstrap.thy ===== *)
theory Bootstrap imports AuthStmts GoStrings
begin

text \<open>
  \<^verbatim>\<open>internal/db/bootstrap.go\<close>: the name and password rules, and the transaction that sets a
  role's password. The statement that sets it is assembled by the server, so the model includes
  what \<^verbatim>\<open>format\<close> does with \<^verbatim>\<open>%I\<close> and \<^verbatim>\<open>%L\<close> and how the text it makes is read again.
\<close>

section \<open>What may be set\<close>

definition is_lower :: "char \<Rightarrow> bool" where
  "is_lower c \<longleftrightarrow> 97 \<le> nat_of_byte c \<and> nat_of_byte c \<le> 122"

definition role_char :: "char \<Rightarrow> bool" where
  "role_char c \<longleftrightarrow> is_lower c \<or> (48 \<le> nat_of_byte c \<and> nat_of_byte c \<le> 57) \<or> c = CHR ''_''"

text \<open>\<^verbatim>\<open>^app_[a-z][a-z0-9_]{0,40}$\<close>\<close>

definition roleNamePattern :: "string \<Rightarrow> bool" where
  "roleNamePattern s =
     (case strip_prefix ''app_'' s of
        Some (c # rest) \<Rightarrow> is_lower c \<and> length rest \<le> 40 \<and> list_all role_char rest
      | _ \<Rightarrow> False)"

datatype bootstrap_error = ErrInvalidRoleName string | ErrEmptyPassword string
  | BootstrapBegin db_err | NamingRole db_err | StagingPassword string db_err
  | SettingPassword string db_err | CommittingPassword string db_err

definition ValidateRoleCredentials :: "string \<Rightarrow> string \<Rightarrow> bootstrap_error option" where
  "ValidateRoleCredentials role password =
     (if \<not> roleNamePattern role then Some (ErrInvalidRoleName role)
      else if trim_space password = [] then Some (ErrEmptyPassword role)
      else None)"

section \<open>The server's side\<close>

text \<open>
  \<^verbatim>\<open>quote_ident\<close> leaves a plain lower-case name that is no keyword as it is; \<^verbatim>\<open>quote_literal\<close>
  doubles quotes, and with a backslash in the value writes an \<^verbatim>\<open>E''\<close> string and doubles those too.
\<close>

definition plain_start :: "char \<Rightarrow> bool" where
  "plain_start c \<longleftrightarrow> is_lower c \<or> c = CHR ''_''"

definition doubled :: "(char \<Rightarrow> bool) \<Rightarrow> string \<Rightarrow> string" where
  "doubled special s = concat (map (\<lambda>c. if special c then [c, c] else [c]) s)"

definition quote_ident :: "(string \<Rightarrow> bool) \<Rightarrow> string \<Rightarrow> string" where
  "quote_ident keyword s =
     (if s \<noteq> [] \<and> plain_start (hd s) \<and> list_all role_char s \<and> \<not> keyword s then s
      else CHR 0x22 # doubled (\<lambda>c. c = CHR 0x22) s @ [CHR 0x22])"

definition quote_literal :: "string \<Rightarrow> string" where
  "quote_literal s =
     (if CHR 0x5C \<in> set s then ''E'' else []) @ CHR 0x27 # doubled (\<lambda>c. c = CHR 0x27 \<or> c = CHR 0x5C) s @ [CHR 0x27]"

text \<open>\<^verbatim>\<open>format('ALTER ROLE %I PASSWORD %L', role, password)\<close> of the DO block.\<close>

definition role_password_text :: "(string \<Rightarrow> bool) \<Rightarrow> string \<Rightarrow> string \<Rightarrow> string" where
  "role_password_text keyword role password =
     ''ALTER ROLE '' @ quote_ident keyword role @ '' PASSWORD '' @ quote_literal password"

text \<open>
  Reading: up to a lone quote, a doubled one standing for itself; in an \<^verbatim>\<open>E''\<close> string a doubled
  backslash too, and no other escape is written here. Names keep their first 63 bytes.
\<close>

fun read_quoted :: "char \<Rightarrow> bool \<Rightarrow> string \<Rightarrow> (string \<times> string) option" where
  "read_quoted q esc [] = None"
| "read_quoted q esc (c # s) =
     (if c = q then
        (case s of
           d # s' \<Rightarrow> if d = q then map_option (apfst ((#) q)) (read_quoted q esc s') else Some ([], s)
         | [] \<Rightarrow> Some ([], []))
      else if esc \<and> c = CHR 0x5C then
        (case s of
           d # s' \<Rightarrow> if d = CHR 0x5C then map_option (apfst ((#) c)) (read_quoted q esc s') else None
         | [] \<Rightarrow> None)
      else map_option (apfst ((#) c)) (read_quoted q esc s))"

definition read_ident :: "string \<Rightarrow> (string \<times> string) option" where
  "read_ident s =
     (case s of
        [] \<Rightarrow> None
      | c # s' \<Rightarrow>
          if c = CHR 0x22 then map_option (apfst (take 63)) (read_quoted (CHR 0x22) False s')
          else if plain_start c then Some (take 63 (takeWhile role_char s), dropWhile role_char s)
          else None)"

definition read_literal :: "string \<Rightarrow> (string \<times> string) option" where
  "read_literal s =
     (case s of
        CHR 0x27 # s' \<Rightarrow> read_quoted (CHR 0x27) False s'
      | CHR ''E'' # CHR 0x27 # s' \<Rightarrow> read_quoted (CHR 0x27) True s'
      | _ \<Rightarrow> None)"

definition read_alter_role :: "string \<Rightarrow> (string \<times> string) option" where
  "read_alter_role s =
     (case strip_prefix ''ALTER ROLE '' s of
        None \<Rightarrow> None
      | Some s1 \<Rightarrow>
          (case read_ident s1 of
             None \<Rightarrow> None
           | Some (role, s2) \<Rightarrow>
               (case strip_prefix '' PASSWORD '' s2 of
                  None \<Rightarrow> None
                | Some s3 \<Rightarrow>
                    (case read_literal s3 of
                       Some (password, []) \<Rightarrow> Some (role, password)
                     | _ \<Rightarrow> None))))"

text \<open>The roles of a cluster, each with its password if it has one.\<close>

type_synonym role_table = "string \<rightharpoonup> string option"

definition alter_role :: "(string \<Rightarrow> bool) \<Rightarrow> string \<Rightarrow> string \<Rightarrow> role_table \<Rightarrow> db_err + unit \<times> role_table" where
  "alter_role keyword role password rs =
     (case read_alter_role (role_password_text keyword role password) of
        None \<Rightarrow> Inl SyntaxError
      | Some (r, p) \<Rightarrow> if rs r = None then Inl (UndefinedRole r) else Inr ((), rs(r \<mapsto> Some p)))"

section \<open>The transaction\<close>

definition setBootstrapRoleSQL :: set_config where
  "setBootstrapRoleSQL = SetConfig ''app.bootstrap_role'' True"

definition setBootstrapPasswordSQL :: set_config where
  "setBootstrapPasswordSQL = SetConfig ''app.bootstrap_password'' True"

text \<open>A text parameter that is not text of the database's encoding fails its statement.\<close>

definition exec_set_config ::
  "(string \<Rightarrow> bool) \<Rightarrow> set_config \<Rightarrow> string \<Rightarrow> ('d, 'z) pgconn_scheme \<Rightarrow> db_err option \<times> ('d, 'z) pgconn_scheme" where
  "exec_set_config valid cfg v c =
     (if valid v then pg_exec_config cfg v c
      else (case run_stmt False (\<lambda>db. Inl BadText :: db_err + unit \<times> 'd) c of
              (Inl e, c1) \<Rightarrow> (Some e, c1)
            | (Inr u, c1) \<Rightarrow> (None, c1)))"

definition applyRolePasswordSQL ::
  "(string \<Rightarrow> bool) \<Rightarrow> (role_table, 'z) pgconn_scheme \<Rightarrow> (db_err + unit) \<times> (role_table, 'z) pgconn_scheme" where
  "applyRolePasswordSQL keyword c =
     run_stmt True
       (\<lambda>rs. case guc_value c ''app.bootstrap_role'' of
               None \<Rightarrow> Inl (UndefinedParameter ''app.bootstrap_role'')
             | Some role \<Rightarrow>
                 (case guc_value c ''app.bootstrap_password'' of
                    None \<Rightarrow> Inl (UndefinedParameter ''app.bootstrap_password'')
                  | Some password \<Rightarrow> alter_role keyword role password rs)) c"

text \<open>The body between \<^verbatim>\<open>BeginTx\<close> and the deferred \<^verbatim>\<open>Rollback\<close>, which runs on every return.\<close>

definition set_password_in_tx ::
  "(string \<Rightarrow> bool) \<Rightarrow> (string \<Rightarrow> bool) \<Rightarrow> string \<Rightarrow> string \<Rightarrow> (role_table, 'z) pgconn_scheme
   \<Rightarrow> bootstrap_error option \<times> (role_table, 'z) pgconn_scheme" where
  "set_password_in_tx valid keyword role password c =
     (case exec_set_config valid setBootstrapRoleSQL role c of
        (Some e, c1) \<Rightarrow> (Some (NamingRole e), c1)
      | (None, c1) \<Rightarrow>
          (case exec_set_config valid setBootstrapPasswordSQL password c1 of
             (Some e, c2) \<Rightarrow> (Some (StagingPassword role e), c2)
           | (None, c2) \<Rightarrow>
               (case applyRolePasswordSQL keyword c2 of
                  (Inl e, c3) \<Rightarrow> (Some (SettingPassword role e), c3)
                | (Inr u, c3) \<Rightarrow>
                    (case pg_commit c3 of
                       (Some e, c4) \<Rightarrow> (Some (CommittingPassword role e), c4)
                     | (None, c4) \<Rightarrow> (None, c4)))))"

definition SetRolePassword ::
  "(string \<Rightarrow> bool) \<Rightarrow> (string \<Rightarrow> bool) \<Rightarrow> string \<Rightarrow> string \<Rightarrow> (role_table, 'z) pgconn_scheme
   \<Rightarrow> bootstrap_error option \<times> (role_table, 'z) pgconn_scheme" where
  "SetRolePassword valid keyword role password c =
     (case ValidateRoleCredentials role password of
        Some e \<Rightarrow> (Some e, c)
      | None \<Rightarrow>
          (case pg_begin ReadWrite c of
             (Some e, c1) \<Rightarrow> (Some (BootstrapBegin e), c1)
           | (None, c1) \<Rightarrow> apsnd pg_rollback (set_password_in_tx valid keyword role password c1)))"

section \<open>The statement that is executed\<close>

lemma doubled_simps [simp]: "doubled sp [] = []" "doubled sp (c # s) = (if sp c then [c, c] else [c]) @ doubled sp s"
  by (simp_all add: doubled_def)

lemma read_quoted_doubled:
  assumes "\<And>c. c \<in> set s \<Longrightarrow> sp c \<longleftrightarrow> c = q \<or> esc \<and> c = CHR 0x5C" and "q \<noteq> CHR 0x5C" and "rest = [] \<or> hd rest \<noteq> q"
  shows "read_quoted q esc (doubled sp s @ q # rest) = Some (s, rest)"
  using assms
proof (induction s)
  case Nil
  then show ?case by (cases rest) auto
next
  case (Cons c s)
  then have ih: "read_quoted q esc (doubled sp s @ q # rest) = Some (s, rest)" by simp
  have h: "sp c \<longleftrightarrow> c = q \<or> esc \<and> c = CHR 0x5C" by (simp add: Cons.prems(1))
  show ?case
  proof (cases "sp c")
    case True
    with h ih Cons.prems(2) show ?thesis by auto
  next
    case False
    with h ih show ?thesis by auto
  qed
qed

lemma not_role_char: "\<not> role_char CHR 0x22" "\<not> role_char CHR '' ''" "\<not> plain_start CHR 0x22"
  by (simp_all add: role_char_def plain_start_def is_lower_def nat_of_byte_def)

lemma role_chars: "is_lower c \<Longrightarrow> role_char c" "list_all role_char ''app_''"
  by (simp add: role_char_def) (simp add: role_char_def is_lower_def nat_of_byte_def)

lemma read_quote_ident:
  assumes "s \<noteq> []"
  shows "read_ident (quote_ident keyword s @ CHR '' '' # rest) = Some (take 63 s, CHR '' '' # rest)"
proof (cases "plain_start (hd s) \<and> list_all role_char s \<and> \<not> keyword s")
  case True
  with assms obtain c s' where s: "s = c # s'" by (cases s) auto
  have "takeWhile role_char (s @ CHR '' '' # rest) = s" "dropWhile role_char (s @ CHR '' '' # rest) = CHR '' '' # rest"
    using True not_role_char(2) by (simp_all add: list_all_iff)
  moreover have "c \<noteq> CHR 0x22" using True s not_role_char(3) by auto
  ultimately show ?thesis using True s by (simp add: quote_ident_def read_ident_def)
next
  case False
  with assms have q: "quote_ident keyword s = CHR 0x22 # doubled (\<lambda>c. c = CHR 0x22) s @ [CHR 0x22]"
    by (auto simp: quote_ident_def)
  have "read_quoted (CHR 0x22) False (doubled (\<lambda>c. c = CHR 0x22) s @ CHR 0x22 # CHR '' '' # rest) = Some (s, CHR '' '' # rest)"
    by (rule read_quoted_doubled) simp_all
  with q show ?thesis by (simp add: read_ident_def)
qed

lemma read_quote_literal: "read_literal (quote_literal s) = Some (s, [])"
proof -
  have "read_quoted (CHR 0x27) (CHR 0x5C \<in> set s) (doubled (\<lambda>c. c = CHR 0x27 \<or> c = CHR 0x5C) s @ [CHR 0x27]) = Some (s, [])"
    by (rule read_quoted_doubled) auto
  then show ?thesis by (cases "CHR 0x5C \<in> set s") (simp_all add: quote_literal_def read_literal_def)
qed

lemma assembled_statement:
  assumes "role \<noteq> []"
  shows "read_alter_role (role_password_text keyword role password) = Some (take 63 role, password)"
  using read_quote_ident [OF assms, of keyword "''PASSWORD '' @ quote_literal password"]
  by (simp add: read_alter_role_def role_password_text_def read_quote_literal strip_prefix_Some
      split: option.splits)

text \<open>The text the server assembles says what it was given: read back it is the statement that sets
  this password, whatever characters it has, on this role's name up to its 63rd byte.\<close>

theorem assembled_statement_reads_back:
  assumes "role \<noteq> []"
  shows "read_alter_role (role_password_text keyword role password) = Some (take 63 role, password)"
  by (rule assembled_statement [OF assms])

lemma pattern_length:
  assumes "roleNamePattern s"
  shows "s \<noteq> [] \<and> length s \<le> 45 \<and> list_all role_char s"
proof -
  from assms obtain t where "strip_prefix ''app_'' s = Some t" and t: "case t of [] \<Rightarrow> False
      | c # rest \<Rightarrow> is_lower c \<and> length rest \<le> 40 \<and> list_all role_char rest"
    by (auto simp: roleNamePattern_def split: option.splits list.splits)
  then have "s = ''app_'' @ t" by (simp only: strip_prefix_Some)
  with t show ?thesis
    using role_chars by (cases t) simp_all
qed

lemma alter_role_named:
  assumes "roleNamePattern role"
  shows "alter_role keyword role password rs
    = (if rs role = None then Inl (UndefinedRole role) else Inr ((), rs(role \<mapsto> Some password)))"
  using pattern_length [OF assms] assembled_statement [of role keyword password] by (simp add: alter_role_def)

section \<open>What a call does\<close>

text \<open>The connection while the call has it: an open transaction, with nothing staged for the session.\<close>

definition bootstrapping :: "(role_table, 'z) pgconn_scheme \<Rightarrow> (role_table, 'z) pgconn_scheme \<Rightarrow> role_table \<Rightarrow> bool" where
  "bootstrapping c0 c rs \<longleftrightarrow> data c = data c0 \<and> work c = Some rs \<and> session_guc c = session_guc c0
     \<and> staged_guc c = (\<lambda>_. None)"

lemma begin_bootstrapping: "pg_begin ReadWrite c0 = (None, c) \<Longrightarrow> bootstrapping c0 c (data c0) \<and> local_guc c = (\<lambda>_. None)"
  by (auto simp: bootstrapping_def dest!: pg_begin_None)

lemma begin_failed: "pg_begin m c0 = (Some e, c) \<Longrightarrow>
    data c = data c0 \<and> work c = work c0 \<and> session_setting c = session_setting c0"
  by (auto simp: pg_begin_def session_setting_def fun_eq_iff split: prod.splits if_splits)

lemma config_bootstrapping:
  assumes "exec_set_config valid (SetConfig n True) v c = (e, c1)" and "bootstrapping c0 c rs"
  shows "bootstrapping c0 c1 rs \<and> (e = None \<longrightarrow> valid v \<and> local_guc c1 = (local_guc c)(n \<mapsto> v))"
  using assms
  by (auto simp: exec_set_config_def bootstrapping_def pg_exec_config_def run_stmt_def
      split: prod.splits if_splits option.splits sum.splits)

lemma apply_bootstrapping:
  assumes "applyRolePasswordSQL keyword c = (r, c1)" and "bootstrapping c0 c rs"
    and "local_guc c ''app.bootstrap_role'' = Some role" and "local_guc c ''app.bootstrap_password'' = Some password"
  shows "case r of Inl e \<Rightarrow> bootstrapping c0 c1 rs
    | Inr u \<Rightarrow> \<exists>rs'. alter_role keyword role password rs = Inr ((), rs') \<and> bootstrapping c0 c1 rs'"
proof -
  have "guc_value c ''app.bootstrap_role'' = Some role" "guc_value c ''app.bootstrap_password'' = Some password"
    using assms(3,4) by (simp_all add: guc_value_def map_add_def)
  with assms(1,2) show ?thesis
    by (auto simp: applyRolePasswordSQL_def run_stmt_def bootstrapping_def split: prod.splits if_splits option.splits sum.splits)
qed

lemma rollback_bootstrapping: "bootstrapping c0 c rs \<Longrightarrow>
    data (pg_rollback c) = data c0 \<and> pg_idle (pg_rollback c) \<and> session_setting (pg_rollback c) = session_setting c0"
  by (auto simp: bootstrapping_def pg_rollback_def pg_idle_def fun_eq_iff session_setting_def reverted_setting)

lemma commit_bootstrapping:
  assumes "pg_commit c = (e, c1)" and "bootstrapping c0 c rs"
  shows "pg_idle c1 \<and> session_setting c1 = session_setting c0 \<and> (data c1 = rs \<or> e \<noteq> None \<and> data c1 = data c0)"
  using assms
  by (auto simp: bootstrapping_def pg_commit_def pg_idle_def fun_eq_iff session_setting_def reverted_setting map_add_def
      split: prod.splits if_splits option.splits)

lemma set_password_in_tx_ends:
  assumes pat: "roleNamePattern role" and J1: "bootstrapping c c1 (data c)" "local_guc c1 = (\<lambda>_. None)"
    and run: "set_password_in_tx valid keyword role password c1 = (r, c2)"
  shows "(r \<noteq> None \<and> (\<exists>rs. bootstrapping c c2 rs))
    \<or> data c role \<noteq> None \<and> pg_idle c2 \<and> session_setting c2 = session_setting c
      \<and> (r = None \<and> data c2 = (data c)(role \<mapsto> Some password)
          \<or> (\<exists>e. r = Some (CommittingPassword role e)) \<and> data c2 \<in> {data c, (data c)(role \<mapsto> Some password)})"
proof -
  obtain e2 d2 where x2: "exec_set_config valid setBootstrapRoleSQL role c1 = (e2, d2)" by force
  note J2 = config_bootstrapping [OF x2 [unfolded setBootstrapRoleSQL_def] J1(1)]
  obtain e3 d3 where x3: "exec_set_config valid setBootstrapPasswordSQL password d2 = (e3, d3)" by force
  note J3 = config_bootstrapping [OF x3 [unfolded setBootstrapPasswordSQL_def] conjunct1 [OF J2]]
  obtain a d4 where x4: "applyRolePasswordSQL keyword d3 = (a, d4)" by force
  show ?thesis
  proof (cases "e2 = None \<and> e3 = None")
    case False
    with run x2 x3 J2 J3 show ?thesis by (auto simp: set_password_in_tx_def split: option.splits)
  next
    case True
    with J2 J3 J1(2) have l: "local_guc d3 ''app.bootstrap_role'' = Some role"
      "local_guc d3 ''app.bootstrap_password'' = Some password" by auto
    note J4 = apply_bootstrapping [OF x4 conjunct1 [OF J3] l]
    show ?thesis
    proof (cases a)
      case (Inl e)
      with True run x2 x3 x4 J4 show ?thesis by (auto simp: set_password_in_tx_def)
    next
      case (Inr u)
      with J4 alter_role_named [OF pat] have rs: "data c role \<noteq> None" "bootstrapping c d4 ((data c)(role \<mapsto> Some password))"
        by (auto split: if_splits)
      obtain e5 d5 where x5: "pg_commit d4 = (e5, d5)" by force
      from True Inr run x2 x3 x4 x5 commit_bootstrapping [OF x5 rs(2)] rs(1) show ?thesis
        by (auto simp: set_password_in_tx_def split: option.splits)
    qed
  qed
qed

text \<open>C17: A call that reports success has set that password on that role and on nothing else, and a call
  that does not has set nothing, unless it was the commit that failed; the connection goes back idle
  with neither value readable from its session.\<close>

theorem role_password_is_set:
  assumes idle: "pg_idle c" and run: "SetRolePassword valid keyword role password c = (r, c')"
  shows "pg_idle c' \<and> session_setting c' = session_setting c
    \<and> (r = None \<longrightarrow> ValidateRoleCredentials role password = None \<and> data c role \<noteq> None
         \<and> data c' = (data c)(role \<mapsto> Some password))
    \<and> (r \<noteq> None \<longrightarrow> data c' = data c
         \<or> (\<exists>e. r = Some (CommittingPassword role e)) \<and> data c' = (data c)(role \<mapsto> Some password))"
proof (cases "ValidateRoleCredentials role password")
  case (Some e)
  with idle run show ?thesis by (auto simp: SetRolePassword_def)
next
  case None
  then have pat: "roleNamePattern role" by (simp add: ValidateRoleCredentials_def split: if_splits)
  obtain be c1 where b: "pg_begin ReadWrite c = (be, c1)" by force
  show ?thesis
  proof (cases be)
    case (Some e)
    with b None run begin_failed [of ReadWrite c e c1] idle show ?thesis by (auto simp: SetRolePassword_def pg_idle_def)
  next
    case be: None
    with b have J: "bootstrapping c c1 (data c)" "local_guc c1 = (\<lambda>_. None)" using begin_bootstrapping by blast+
    obtain r1 c2 where x: "set_password_in_tx valid keyword role password c1 = (r1, c2)" by force
    with None b be run have r: "r = r1" "c' = pg_rollback c2" by (simp_all add: SetRolePassword_def)
    have "pg_idle c2 \<Longrightarrow> pg_rollback c2 = c2" by (simp add: pg_rollback_def pg_idle_def)
    with set_password_in_tx_ends [OF pat J x] r None show ?thesis by (auto dest: rollback_bootstrapping)
  qed
qed

text \<open>A cluster with the tenant role, not yet usable, and a password with quotes and a backslash in it.\<close>

definition sample_cluster :: role_table where
  "sample_cluster = [''app_tenant'' \<mapsto> None, ''postgres'' \<mapsto> None]"

theorem assembled_statement_reads_back_witness:
  "read_alter_role (role_password_text (\<lambda>_. False) ''app_tenant'' [CHR 0x27, CHR 0x5C, CHR ''x'']) = Some (''app_tenant'', [CHR 0x27, CHR 0x5C, CHR ''x''])"
  using assembled_statement_reads_back [of "''app_tenant''"] by simp

lemma sample_credentials: "ValidateRoleCredentials ''app_tenant'' ''it's'' = None"
  by code_simp

theorem role_password_is_set_witness:
  "\<exists>c. SetRolePassword (\<lambda>_. True) (\<lambda>_. False) ''app_tenant'' ''it's'' (idle_conn sample_cluster 0 []) = (None, c)
    \<and> data c = sample_cluster(''app_tenant'' \<mapsto> Some ''it's'') \<and> session_setting c ''app.bootstrap_password'' = None"
proof -
  obtain r c where run: "SetRolePassword (\<lambda>_. True) (\<lambda>_. False) ''app_tenant'' ''it's'' (idle_conn sample_cluster 0 []) = (r, c)"
    by force
  have "roleNamePattern ''app_tenant''" by code_simp
  from alter_role_named [OF this] have "r = None"
    using run
    by (simp add: SetRolePassword_def sample_credentials set_password_in_tx_def exec_set_config_def pg_begin_def take_fault_def
        pg_exec_config_def idle_conn_def setBootstrapRoleSQL_def setBootstrapPasswordSQL_def applyRolePasswordSQL_def run_stmt_def
        guc_value_def sample_cluster_def pg_commit_def)
  moreover have "session_setting (idle_conn sample_cluster 0 []) ''app.bootstrap_password'' = None"
    by (simp add: session_setting_def idle_conn_def nullif_empty_def)
  moreover have "pg_idle (idle_conn sample_cluster 0 [])" "data (idle_conn sample_cluster 0 []) = sample_cluster"
    by (simp_all add: pg_idle_def idle_conn_def)
  ultimately show ?thesis using role_password_is_set [OF _ run] run by (intro exI [of _ c]) simp
qed

end
