(* ===== verification/Migrate.thy ===== *)
theory Migrate imports TxScope
begin

text \<open>
  \<^verbatim>\<open>internal/db/migrate.go\<close>: applying, rolling back and reading the schema version. The provider
  built over the embedded migrations is goose's, so it is an argument; these functions build one per
  call and say which step failed.
\<close>

record 'w goose =
  new_provider :: "'w \<Rightarrow> string option \<times> 'w"
  goose_up :: "'w \<Rightarrow> string option \<times> 'w"
  goose_down_to :: "int \<Rightarrow> 'w \<Rightarrow> string option \<times> 'w"
  db_version :: "'w \<Rightarrow> (string + int) \<times> 'w"

datatype migrate_error = Preparing string | Applying string | RollingBack int string | ReadingVersion string

definition newProvider :: "'w goose \<Rightarrow> 'w \<Rightarrow> migrate_error option \<times> 'w" where
  "newProvider g w = apfst (map_option Preparing) (new_provider g w)"

definition Up :: "'w goose \<Rightarrow> 'w \<Rightarrow> migrate_error option \<times> 'w" where
  "Up g w =
     (case newProvider g w of
        (Some e, w1) \<Rightarrow> (Some e, w1)
      | (None, w1) \<Rightarrow> apfst (map_option Applying) (goose_up g w1))"

definition DownTo :: "'w goose \<Rightarrow> int \<Rightarrow> 'w \<Rightarrow> migrate_error option \<times> 'w" where
  "DownTo g version w =
     (case newProvider g w of
        (Some e, w1) \<Rightarrow> (Some e, w1)
      | (None, w1) \<Rightarrow> apfst (map_option (RollingBack version)) (goose_down_to g version w1))"

definition Version :: "'w goose \<Rightarrow> 'w \<Rightarrow> (migrate_error + int) \<times> 'w" where
  "Version g w =
     (case newProvider g w of
        (Some e, w1) \<Rightarrow> (Inl e, w1)
      | (None, w1) \<Rightarrow> apfst (map_sum ReadingVersion id) (db_version g w1))"

text \<open>
  A failure of the provider's own step is reported as that step's and leaves the world as the step
  left it; without one the call is the provider's.
\<close>

lemma up_runs_the_provider:
  "new_provider g w = (None, w1) \<Longrightarrow> Up g w = apfst (map_option Applying) (goose_up g w1)"
  "new_provider g w = (Some e, w1) \<Longrightarrow> Up g w = (Some (Preparing e), w1)"
  by (simp_all add: Up_def newProvider_def)

lemma no_error_is_success:
  "fst (Up g w) = None \<longleftrightarrow> (\<exists>w1. new_provider g w = (None, w1) \<and> fst (goose_up g w1) = None)"
  "fst (DownTo g v w) = None \<longleftrightarrow> (\<exists>w1. new_provider g w = (None, w1) \<and> fst (goose_down_to g v w1) = None)"
  by (cases "new_provider g w"; cases "fst (new_provider g w)"; simp add: Up_def DownTo_def newProvider_def)+

end
