(* ===== verification/GoText.thy ===== *)
theory GoText imports GoStrings
begin

text \<open>
  The text functions the scripts share: trimming a cutset, joining, decoding a string into runes, and
  squeezing white space. Runes are kept as their encodings, so that taking a number of them and
  encoding again is concatenation.
\<close>

section \<open>Text\<close>

abbreviation (input) LF :: char where "LF \<equiv> CHR 0x0A"
abbreviation (input) CR :: char where "CR \<equiv> CHR 0x0D"
abbreviation (input) TAB :: char where "TAB \<equiv> CHR 0x09"
abbreviation (input) BACKSLASH :: char where "BACKSLASH \<equiv> CHR 0x5C"

text \<open>\<^verbatim>\<open>strings.TrimRight(s, cutset)\<close> of an ASCII cutset, and \<^verbatim>\<open>strings.Join\<close>.\<close>

definition trim_right_in :: "string \<Rightarrow> string \<Rightarrow> string" where
  "trim_right_in cutset s = rev (dropWhile (\<lambda>c. c \<in> set cutset) (rev s))"

fun join_text :: "string \<Rightarrow> string list \<Rightarrow> string" where
  "join_text sep [] = []"
| "join_text sep [x] = x"
| "join_text sep (x # y # xs) = x @ sep @ join_text sep (y # xs)"

text \<open>
  \<^verbatim>\<open>[]rune(s)\<close> as the encodings of the runes: a byte that starts no valid encoding is U+FFFD.
\<close>

definition cont :: "nat \<Rightarrow> nat \<Rightarrow> char \<Rightarrow> bool" where
  "cont lo hi c \<longleftrightarrow> lo \<le> nat_of_byte c \<and> nat_of_byte c \<le> hi"

definition lead :: "char \<Rightarrow> nat" where
  "lead a =
     (let b = nat_of_byte a in
      if b < 128 then 1 else if 194 \<le> b \<and> b \<le> 223 then 2 else if 224 \<le> b \<and> b \<le> 239 then 3
      else if 240 \<le> b \<and> b \<le> 244 then 4 else 0)"

definition second :: "char \<Rightarrow> char \<Rightarrow> bool" where
  "second a =
     (let b = nat_of_byte a in
      cont (if b = 224 then 160 else if b = 240 then 144 else 128) (if b = 237 then 159 else if b = 244 then 143 else 191))"

definition well_formed :: "nat \<Rightarrow> char \<Rightarrow> string \<Rightarrow> bool" where
  "well_formed n a s \<longleftrightarrow> n - 1 \<le> length s \<and> (2 \<le> n \<longrightarrow> second a (s ! 0)) \<and> (3 \<le> n \<longrightarrow> cont 128 191 (s ! 1))
     \<and> (4 \<le> n \<longrightarrow> cont 128 191 (s ! 2))"

definition rune_length :: "string \<Rightarrow> nat" where
  "rune_length s = (case s of [] \<Rightarrow> 0 | a # s' \<Rightarrow> if well_formed (lead a) a s' then lead a else 0)"

definition replacement :: string where
  "replacement = [CHR 0xEF, CHR 0xBF, CHR 0xBD]"

function runes :: "string \<Rightarrow> string list" where
  "runes s =
     (if s = [] then []
      else if rune_length s = 0 then replacement # runes (drop 1 s)
      else take (rune_length s) s # runes (drop (rune_length s) s))"
  by pat_completeness auto
termination by (relation "measure length") auto

declare runes.simps [simp del]

text \<open>Replacing every run of ASCII white space (\<^verbatim>\<open>\s+\<close>) by one blank.\<close>

definition re_space :: "char \<Rightarrow> bool" where
  "re_space c \<longleftrightarrow> c \<in> {TAB, LF, CHR 0x0C, CR, CHR '' ''}"

fun squeeze :: "bool \<Rightarrow> string \<Rightarrow> string" where
  "squeeze inside [] = []"
| "squeeze inside (c # s) =
     (if re_space c then (if inside then squeeze True s else CHR '' '' # squeeze True s)
      else c # squeeze False s)"

definition ellipsis :: string where
  "ellipsis = [CHR 0xE2, CHR 0x80, CHR 0xA6]"

section \<open>Facts\<close>

lemma trim_right_stop: "c \<notin> set cutset \<Longrightarrow> trim_right_in cutset (s @ [c]) = s @ [c]"
  by (simp add: trim_right_in_def)

lemma squeeze_set: "set (squeeze b s) \<subseteq> insert CHR '' '' (set s)"
  by (induction b s rule: squeeze.induct) auto

lemma lead_le: "lead a \<le> 4" by (simp add: lead_def Let_def)

lemma rune_length_le: "rune_length s \<le> length s"
  by (cases s) (auto simp: rune_length_def well_formed_def)

lemma concat_take_runes_set: "set (concat (runes s)) \<subseteq> set replacement \<union> set s"
proof (induction s rule: runes.induct)
  case (1 s)
  show ?case
  proof (cases "s = [] \<or> rune_length s = 0")
    case True
    then show ?thesis using "1.IH"(1) by (subst runes.simps) (auto dest: in_set_dropD)
  next
    case False
    then show ?thesis using "1.IH"(2) by (subst runes.simps) (auto dest: in_set_dropD in_set_takeD)
  qed
qed

lemma trim_right_in_set: "set (trim_right_in cs s) \<subseteq> set s"
  by (auto simp: trim_right_in_def dest: set_dropWhileD)

text \<open>
  A byte string that is the encoding of one rune. Encodings are read back one by one, and trimming
  ASCII characters from the end removes whole runes.
\<close>

definition rune :: "string \<Rightarrow> bool" where
  "rune v \<longleftrightarrow> v \<noteq> [] \<and> rune_length v = length v"

lemma rune_length_append: "0 < rune_length v \<Longrightarrow> rune_length (v @ t) = rune_length v"
  by (cases v) (auto simp: rune_length_def well_formed_def nth_append split: if_splits)

lemma rune_length_take: "rune_length (take (rune_length s) s) = rune_length s"
proof (cases "rune_length s")
  case (Suc n)
  then obtain a s' where s: "s = a # s'" by (cases s) (auto simp: rune_length_def)
  with Suc have n: "lead a = Suc n" "well_formed (Suc n) a s'" by (auto simp: rune_length_def split: if_splits)
  then have "well_formed (Suc n) a (take n s')" using lead_le [of a] by (auto simp: well_formed_def)
  with Suc s n(1) show ?thesis by (simp add: rune_length_def)
qed (simp add: rune_length_def)

lemma runes_Cons: "rune v \<Longrightarrow> runes (v @ t) = v # runes t"
  by (subst runes.simps) (simp add: rune_def rune_length_append)

lemma runes_concat: "\<forall>v \<in> set vs. rune v \<Longrightarrow> runes (concat vs @ t) = vs @ runes t"
  by (induction vs) (simp_all add: runes_Cons)

lemma rune_constants: "rune replacement" "rune ellipsis"
  by code_simp+

lemma runes_are_runes: "v \<in> set (runes s) \<Longrightarrow> rune v"
proof (induction s rule: runes.induct)
  case (1 s)
  show ?case
  proof (cases "s = [] \<or> rune_length s = 0")
    case True
    with 1 show ?thesis by (subst (asm) (2) runes.simps) (auto simp: rune_constants split: if_splits)
  next
    case False
    have "rune (take (rune_length s) s)" using False rune_length_le [of s] by (simp add: rune_def rune_length_take)
    with False 1 show ?thesis by (subst (asm) (3) runes.simps) auto
  qed
qed

lemma rune_last: "rune v \<Longrightarrow> (\<exists>c. v = [c]) \<or> 128 \<le> nat_of_byte (last v)"
proof -
  assume v: "rune v"
  then obtain a s where s: "v = a # s" by (cases v) (auto simp: rune_def)
  with v have n: "lead a = Suc (length s)" "well_formed (Suc (length s)) a s"
    by (auto simp: rune_def rune_length_def split: if_splits)
  have c: "128 \<le> nat_of_byte b" if "second a b \<or> cont 128 191 b" for b
    using that by (auto simp: second_def cont_def Let_def split: if_splits)
  have "length s \<le> 3" using lead_le [of a] n(1) by simp
  then consider "s = []" | b where "s = [b]" | b b' where "s = [b, b']" | b b' b'' where "s = [b, b', b'']"
    by (auto simp: le_Suc_eq length_Suc_conv numeral_eq_Suc)
  then show ?thesis using n(2) c s by cases (auto simp: well_formed_def)
qed

lemma trim_right_runes:
  assumes "\<forall>v \<in> set vs. rune v" and "is_ascii cs"
  shows "\<exists>k \<le> length vs. trim_right_in cs (concat vs) = concat (take k vs)"
  using assms(1)
proof (induction vs rule: rev_induct)
  case (snoc v vs)
  then obtain k where k: "k \<le> length vs" "trim_right_in cs (concat vs) = concat (take k vs)" by auto
  have v: "rune v" "v \<noteq> []" using snoc.prems by (auto simp: rune_def)
  show ?case
  proof (cases "last v \<in> set cs")
    case True
    then have "nat_of_byte (last v) < 128" using assms(2) by (simp add: is_ascii_set)
    with rune_last [OF v(1)] obtain c where "v = [c]" by auto
    with True k show ?thesis by (intro exI [of _ k]) (simp add: trim_right_in_def)
  next
    case False
    have "concat (vs @ [v]) = (concat vs @ butlast v) @ [last v]" using v(2) by simp
    with False have "trim_right_in cs (concat (vs @ [v])) = concat (vs @ [v])" by (metis trim_right_stop)
    then show ?thesis by (intro exI [of _ "length (vs @ [v])"]) simp
  qed
qed (simp add: trim_right_in_def)

text \<open>A text cut to \<open>n\<close> runes, trimmed and ended with an ellipsis has at most one more.\<close>

lemma cut_length:
  assumes "is_ascii cs"
  shows "length (runes (trim_right_in cs (concat (take n (runes s))) @ ellipsis)) \<le> n + 1"
proof -
  have all: "\<forall>v \<in> set (take n (runes s)). rune v" by (meson in_set_takeD runes_are_runes)
  from trim_right_runes [OF this assms] obtain k where
    "trim_right_in cs (concat (take n (runes s))) = concat (take k (take n (runes s)))" by blast
  moreover have "runes ellipsis = [ellipsis]" using runes_Cons [OF rune_constants(2), of "[]"] by (simp add: runes.simps [of "[]"])
  moreover have "\<forall>v \<in> set (take k (take n (runes s))). rune v" using all by (meson in_set_takeD)
  ultimately show ?thesis by (simp add: runes_concat)
qed

end
