(* ===== verification/Doctor.thy ===== *)
theory Doctor imports GoText
begin

text \<open>
  \<^verbatim>\<open>scripts/doctor.go\<close>, the session preflight: probing each tool of its manifest, probing that
  this host runs a fresh binary, comparing the manifest with what the Makefile's recipes run, and
  the report with its exit status. Processes, files and the platform are the record \<open>host\<close>;
  \<open>q\<close> is the verb \<^verbatim>\<open>%q\<close>.
\<close>

section \<open>Text\<close>

text \<open>\<^verbatim>\<open>strings.Split(s, "&&")\<close>.\<close>

definition cons_first :: "char \<Rightarrow> string list \<Rightarrow> string list" where
  "cons_first c ps = (case ps of [] \<Rightarrow> [[c]] | p # ps' \<Rightarrow> (c # p) # ps')"

fun split_and :: "string \<Rightarrow> string list" where
  "split_and [] = [[]]"
| "split_and [c] = [[c]]"
| "split_and (c # d # s) =
     (if c = CHR ''&'' \<and> d = CHR ''&'' then [] # split_and s else cons_first c (split_and (d # s)))"

text \<open>\<^verbatim>\<open>strings.Fields\<close>: the runs between white space.\<close>

function words_from :: "string \<Rightarrow> string \<Rightarrow> string list" where
  "words_from cur s =
     (case s of
        [] \<Rightarrow> (if cur = [] then [] else [cur])
      | c # s' \<Rightarrow>
          (case drop_one utf8_spaces s of
             Some r \<Rightarrow> (if cur = [] then words_from [] r else cur # words_from [] r)
           | None \<Rightarrow> words_from (cur @ [c]) s'))"
  by pat_completeness auto
termination
proof (relation "measure (\<lambda>(cur, s). length s)")
  have spaces: "[] \<notin> set utf8_spaces" by (simp add: utf8_spaces_def)
  show "((([] :: string), r), (cur, s)) \<in> measure (\<lambda>(cur, s). length s)"
    if "drop_one utf8_spaces s = Some r" for cur s r
    using drop_one_shorter [OF that spaces] by simp
  show "((([] :: string), r), (cur, s)) \<in> measure (\<lambda>(cur, s). length s)"
    if "drop_one utf8_spaces s = Some r" for cur s r
    using drop_one_shorter [OF that spaces] by simp
qed auto

declare words_from.simps [simp del]

definition words_of :: "string \<Rightarrow> string list" where
  "words_of s = words_from [] s"

definition firstLine :: "string \<Rightarrow> string" where
  "firstLine out =
     (let text = trim_space out in
      if text = [] then ''(no output)''
      else let text = trim_space (squeeze False (takeWhile (\<lambda>c. c \<noteq> CR \<and> c \<noteq> LF) text)) in
        if length (runes text) > 90
        then trim_right_in '' ,.;:'' (concat (take 89 (runes text))) @ ellipsis
        else text)"

section \<open>The manifest\<close>

datatype severity = Required | Optional

record check =
  chk_name :: string
  sev :: severity
  probe :: "string list"
  why :: string
  gone :: string

definition manifest :: "check list" where
  "manifest =
     [\<lparr>chk_name = ''go'', sev = Required, probe = [''go'', ''version''],
       why = ''the API toolchain: build, test, vet, and every `go run` recipe'',
       gone = ''nothing in apps/api builds or runs''\<rparr>,
      \<lparr>chk_name = ''docker'', sev = Required, probe = [''docker'', ''version'', ''--format'', ''{{.Server.Version}}''],
       why = ''runs the test suite (test-api-container) and the local stack (dev)'',
       gone = ''no test run of any kind is possible on this host; `make test-short` proves nothing about isolation''\<rparr>,
      \<lparr>chk_name = ''git'', sev = Required, probe = [''git'', ''--version''],
       why = ''branch-per-PR delivery and every commit in the task-close ritual'',
       gone = ''no commits, no branches, no recovery point''\<rparr>,
      \<lparr>chk_name = ''npm'', sev = Required, probe = [''npm'', ''--version''],
       why = ''apps/web: dependencies, test, lint, typecheck, type generation'',
       gone = ''the web side of `make test`, `make lint` and `make generate` fails''\<rparr>,
      \<lparr>chk_name = ''golangci-lint'', sev = Required, probe = [''golangci-lint'', ''--version''],
       why = ''the Go linter in `make lint-api`, part of every task's definition of done'',
       gone = ''no task can be closed: lint clean is not verifiable''\<rparr>,
      \<lparr>chk_name = ''govulncheck'', sev = Required, probe = [''govulncheck'', ''-version''],
       why = ''supply-chain gate in `make lint-api` and in CI'',
       gone = ''vulnerable dependencies stop being detected before they reach CI''\<rparr>,
      \<lparr>chk_name = ''sqlc'', sev = Required, probe = [''sqlc'', ''version''],
       why = ''generates the query layer from internal/db/query + the migrations'',
       gone = ''`make generate` fails; new queries cannot reach Go code''\<rparr>,
      \<lparr>chk_name = ''oapi-codegen'', sev = Required, probe = [''oapi-codegen'', ''--version''],
       why = ''generates the HTTP server types from api/openapi.yaml'',
       gone = ''`make generate` fails; the API contract and the code drift apart''\<rparr>,
      \<lparr>chk_name = ''goose'', sev = Optional, probe = [''goose'', ''--version''],
       why = ''the migration CLI behind `make migrate`, `migrate-down` and `db-reset`'',
       gone = ''no migrations against a real database from this host. The test suite is unaffected: it embeds the same migration set and applies it itself''\<rparr>,
      \<lparr>chk_name = ''gentle-ai'', sev = Optional, probe = [''gentle-ai'', ''--version''],
       why = ''the SDD ledger: attempt accounting, sdd-status/continue, and the review lifecycle'',
       gone = ''the SDD attempt ledger cannot be settled. The WORK does not depend on it -- TDD, the test suite, mutation testing, per-PR budgets and commits all keep working. What is lost is the bookkeeping, and an unsettled attempt has to be recorded in PROJECT_STATE.md by hand''\<rparr>]"

record result =
  res_check :: check
  status :: string
  detail :: string
  failing :: bool

section \<open>Probing\<close>

datatype outcome = TimedOut string string | WouldNotRun string string | Ran string

text \<open>
  What the program asks of its host. A command is answered with its outcome: cut off at the timeout,
  or ended with an error, each with the error's text and the output so far, or its output. \<open>order\<close> is the order a range over a
  map happens to take.
\<close>

record host =
  look_path :: "string \<Rightarrow> string option"
  exec_command :: "string \<Rightarrow> string list \<Rightarrow> outcome"
  mkdir_temp :: "string + string"
  write_file :: "string \<Rightarrow> string option"
  order :: "(string \<times> string) list \<Rightarrow> (string \<times> string) list"
  go_build :: "string \<Rightarrow> string \<Rightarrow> outcome"
  working_dir :: "string + string list"
  is_there :: "string list \<Rightarrow> string \<Rightarrow> bool"
  read_makefile :: "string list \<Rightarrow> string option"
  GOOS :: string
  GOARCH :: string

definition failed_probe :: "check \<Rightarrow> string \<Rightarrow> result" where
  "failed_probe c text =
     \<lparr>res_check = c, status = (if sev c = Optional then ''WARN'' else ''FAIL''), detail = text,
      failing = (sev c = Required)\<rparr>"

definition run_check :: "(string \<Rightarrow> string) \<Rightarrow> host \<Rightarrow> check \<Rightarrow> result" where
  "run_check q h c =
     (case look_path h (hd (probe c)) of
        None \<Rightarrow> failed_probe c ''not on PATH''
      | Some path \<Rightarrow>
          (case exec_command h path (tl (probe c)) of
             TimedOut err out \<Rightarrow> failed_probe c
               (''found, but '' @ q (join_text '' '' (probe c)) @ '' did not answer in 20s'')
           | WouldNotRun err out \<Rightarrow> failed_probe c
               (''found at '' @ path @ '', but it would not run: '' @ err @ '' ('' @ firstLine out @ '')'')
           | Ran out \<Rightarrow> \<lparr>res_check = c, status = ''OK'', detail = firstLine out, failing = False\<rparr>))"

definition fresh_binary :: check where
  "fresh_binary =
     \<lparr>chk_name = ''fresh-binary'', sev = Optional, probe = [],
      why = ''proves this host can EXECUTE a newly compiled binary, which is what `go test` does on every run'',
      gone = ''`go test` exits non-zero without running any test, and the output reads like a failing suite. This is Smart App Control on Windows and it has no exclusion list. The runner is `make test-api-container`, which links and runs inside Linux''\<rparr>"

definition fresh_token :: string where
  "fresh_token = ''mascotapp-doctor-ok''"

definition probe_files :: "(string \<times> string) list" where
  "probe_files =
     [(''go.mod'', ''module doctorprobe'' @ [LF, LF] @ ''go 1.21'' @ [LF]),
      (''main.go'', ''package main'' @ [LF, LF] @ ''import '' @ [CHR 0x22] @ ''fmt'' @ [CHR 0x22, LF, LF]
         @ ''func main() { fmt.Print('' @ [CHR 0x22] @ fresh_token @ [CHR 0x22] @ '') }'' @ [LF])]"

definition warned :: "string \<Rightarrow> result" where
  "warned text = \<lparr>res_check = fresh_binary, status = ''WARN'', detail = text, failing = False\<rparr>"

fun write_probe :: "host \<Rightarrow> string \<Rightarrow> (string \<times> string) list \<Rightarrow> string option" where
  "write_probe h dir [] = None"
| "write_probe h dir ((name, body) # files) =
     (case write_file h (dir @ ''/'' @ name) of
        Some err \<Rightarrow> Some err
      | None \<Rightarrow> write_probe h dir files)"

definition freshBinaryCheck :: "host \<Rightarrow> result" where
  "freshBinaryCheck h =
     (case mkdir_temp h of
        Inl err \<Rightarrow> warned (''could not create a scratch directory: '' @ err)
      | Inr dir \<Rightarrow>
          (case write_probe h dir (order h probe_files) of
             Some err \<Rightarrow> warned (''could not write the probe: '' @ err)
           | None \<Rightarrow>
               (let binary = dir @ ''/probe'' @ (if GOOS h = ''windows'' then ''.exe'' else []) in
                case go_build h dir binary of
                  TimedOut err out \<Rightarrow> warned (''the probe did not compile: '' @ err @ '' ('' @ firstLine out @ '')'')
                | WouldNotRun err out \<Rightarrow> warned (''the probe did not compile: '' @ err @ '' ('' @ firstLine out @ '')'')
                | Ran out0 \<Rightarrow>
                    (case exec_command h binary [] of
                       TimedOut err out \<Rightarrow> warned (''compiled, but WOULD NOT RUN: '' @ err @ '' ('' @ firstLine out @ '')'')
                     | WouldNotRun err out \<Rightarrow> warned (''compiled, but WOULD NOT RUN: '' @ err @ '' ('' @ firstLine out @ '')'')
                     | Ran out \<Rightarrow>
                         if trim_space out \<noteq> fresh_token
                         then warned (''ran, but printed something unexpected: '' @ firstLine out)
                         else \<lparr>res_check = fresh_binary, status = ''OK'', detail = ''compiled and ran'', failing = False\<rparr>))))"

section \<open>What the Makefile runs\<close>

text \<open>The loop of \<^verbatim>\<open>recipeLines\<close> with what is pending of a continued line.\<close>

fun recipe_from :: "string list \<Rightarrow> string \<Rightarrow> string list" where
  "recipe_from [] pending = (if pending = [] then [] else [pending])"
| "recipe_from (line # lines) pending =
     (if take 1 line \<noteq> [TAB] \<and> pending = [] then recipe_from lines []
      else let trimmed = trim_right_in [CHR '' '', TAB, CR] line in
        if trimmed \<noteq> [] \<and> last trimmed = BACKSLASH
        then recipe_from lines (pending @ butlast trimmed @ '' '')
        else (pending @ trimmed) # recipe_from lines [])"

definition recipeLines :: "string \<Rightarrow> string list" where
  "recipeLines makefile = recipe_from (split_on LF makefile) []"

definition shell_words :: "string list" where
  "shell_words = [''cd'', ''rm'', ''mkdir'', ''echo'', ''if'', ''fi'', ''then'', ''else'', ''exit'', ''make'', ''for'',
     ''done'', ''set'', ''true'', ''false'', ''test'']"

definition known_tools :: "string list" where
  "known_tools = map (hd \<circ> probe) manifest"

definition commands_of :: "string \<Rightarrow> string list" where
  "commands_of line =
     (let text = trim_space line in split_and (case strip_prefix ''@'' text of Some r \<Rightarrow> r | None \<Rightarrow> text))"

text \<open>The command word, after the assignments before it.\<close>

definition command_word :: "string \<Rightarrow> string option" where
  "command_word command =
     (case dropWhile (\<lambda>f. CHR ''='' \<in> set f) (words_of (trim_space command)) of [] \<Rightarrow> None | name # _ \<Rightarrow> Some name)"

definition is_known :: "string \<Rightarrow> bool" where
  "is_known name \<longleftrightarrow> take 1 name = ''$'' \<or> take 1 name = [CHR 0x22] \<or> name \<in> set shell_words \<or> name \<in> set known_tools"

fun collect :: "string list \<Rightarrow> string list \<Rightarrow> string list" where
  "collect unknown [] = unknown"
| "collect unknown (command # commands) =
     (case command_word command of
        None \<Rightarrow> collect unknown commands
      | Some name \<Rightarrow>
          if is_known name \<or> name \<in> set unknown then collect unknown commands
          else collect (unknown @ [name]) commands)"

definition unknownMakefileTools :: "string option \<Rightarrow> string list" where
  "unknownMakefileTools content =
     (case content of
        None \<Rightarrow> []
      | Some makefile \<Rightarrow> collect [] (concat (map commands_of (recipeLines makefile))))"

section \<open>The run\<close>

text \<open>An absolute directory is the list of its names; the parent of the root is the root.\<close>

fun root_from :: "host \<Rightarrow> string list \<Rightarrow> string list option" where
  "root_from h [] = (if is_there h [] ''PROJECT_STATE.md'' then Some [] else None)"
| "root_from h (name # up) =
     (if is_there h (rev (name # up)) ''PROJECT_STATE.md'' then Some (rev (name # up)) else root_from h up)"

definition repoRoot :: "host \<Rightarrow> string + string list" where
  "repoRoot h =
     (case working_dir h of
        Inl err \<Rightarrow> Inl err
      | Inr dir \<Rightarrow>
          (case root_from h (rev dir) of
             None \<Rightarrow> Inl ''repository root not found: no PROJECT_STATE.md in any parent''
           | Some root \<Rightarrow> Inr root))"

definition pad_to :: "nat \<Rightarrow> string \<Rightarrow> string" where
  "pad_to n s = s @ replicate (n - length s) CHR '' ''"

definition row :: "nat \<Rightarrow> result \<Rightarrow> string" where
  "row width r = ''  '' @ pad_to 4 (status r) @ '' '' @ pad_to width (chk_name (res_check r)) @ ''  '' @ detail r"

definition cost :: "result \<Rightarrow> string list" where
  "cost r = [chk_name (res_check r) @ '' -- '' @ why (res_check r), ''  without it: '' @ gone (res_check r), []]"

definition stale :: "(string \<Rightarrow> string) \<Rightarrow> string list \<Rightarrow> string list" where
  "stale q unknown =
     (if unknown = [] then []
      else [''This preflight is out of date:'']
        @ map (\<lambda>name. ''  a Makefile recipe runs '' @ q name @ '' and doctor's manifest does not list it.'') unknown
        @ [''  Add it to `manifest` in scripts/doctor.go with what breaks without it,'',
           ''  or the next person to lose that tool finds out the expensive way.'', []])"

text \<open>The lines of standard output, and the exit status.\<close>

definition report :: "(string \<Rightarrow> string) \<Rightarrow> host \<Rightarrow> result list \<Rightarrow> string list \<Rightarrow> string list \<times> nat" where
  "report q h results unknown =
     (let width = foldl (\<lambda>w r. if length (chk_name (res_check r)) > w then length (chk_name (res_check r)) else w) 0 results;
          problems = filter (\<lambda>r. status r \<noteq> ''OK'') results;
          blocked = (\<exists>r \<in> set problems. failing r) \<or> unknown \<noteq> [];
          head = [''MascotApp preflight -- '' @ GOOS h @ ''/'' @ GOARCH h, []] @ map (row width) results
            @ (if problems = [] then [] else [] # concat (map cost problems)) @ stale q unknown in
      if blocked then (head @ [''Preflight FAILED. Fix the above before starting work.''], 1)
      else if problems \<noteq> []
      then (head @ [''Preflight passed with warnings. Nothing above blocks the build --'',
                    ''read what each one costs and decide, but decide knowingly.''], 0)
      else (head @ [''Preflight clean.''], 0))"

text \<open>\<^verbatim>\<open>main\<close>: what it prints, on which stream, and how it exits.\<close>

definition doctor :: "(string \<Rightarrow> string) \<Rightarrow> host \<Rightarrow> (string + string list) \<times> nat" where
  "doctor q h =
     (case repoRoot h of
        Inl err \<Rightarrow> (Inl err, 1)
      | Inr root \<Rightarrow>
          apfst Inr (report q h (map (run_check q h) manifest @ [freshBinaryCheck h])
                       (unknownMakefileTools (read_makefile h root))))"

section \<open>Properties\<close>

text \<open>A recipe line continued over several physical lines is one logical line.\<close>

definition continued :: "string list \<Rightarrow> string list" where
  "continued ps = map (\<lambda>p. p @ [BACKSLASH]) (butlast ps) @ [last ps]"

lemma recipe_pending:
  assumes "pending \<noteq> []" and "trim_right_in [CHR '' '', TAB, CR] p = [] \<or> last (trim_right_in [CHR '' '', TAB, CR] p) \<noteq> BACKSLASH"
  shows "recipe_from (map (\<lambda>p. p @ [BACKSLASH]) ps @ p # rest) pending
    = (pending @ concat (map (\<lambda>p. p @ '' '') ps) @ trim_right_in [CHR '' '', TAB, CR] p) # recipe_from rest []"
  using assms
proof (induction ps arbitrary: pending)
  case (Cons x ps)
  have "trim_right_in [CHR '' '', TAB, CR] (x @ [BACKSLASH]) = x @ [BACKSLASH]" by (rule trim_right_stop) simp
  with Cons.IH [of "pending @ x @ '' ''"] Cons.prems show ?case by simp
qed auto

lemma continued_is_one_line:
  assumes "ps \<noteq> []" and "take 1 (hd ps) = [TAB]"
    and "trim_right_in [CHR '' '', TAB, CR] (last ps) = [] \<or> last (trim_right_in [CHR '' '', TAB, CR] (last ps)) \<noteq> BACKSLASH"
  shows "recipe_from (continued ps @ rest) []
    = (concat (map (\<lambda>p. p @ '' '') (butlast ps)) @ trim_right_in [CHR '' '', TAB, CR] (last ps)) # recipe_from rest []"
proof (cases "butlast ps")
  case Nil
  with assms(1) obtain p where "ps = [p]" by (metis append_butlast_last_id self_append_conv2)
  with assms(2,3) show ?thesis by (auto simp: continued_def)
next
  case (Cons x qs)
  with assms(1) have "hd ps = x" by (metis append_butlast_last_id hd_append2 list.sel(1) list.simps(3))
  with assms(2) have tab: "take 1 (x @ [BACKSLASH]) = [TAB]" by (cases x) auto
  have "trim_right_in [CHR '' '', TAB, CR] (x @ [BACKSLASH]) = x @ [BACKSLASH]" by (rule trim_right_stop) simp
  with tab recipe_pending [where pending = "x @ '' ''" and p = "last ps" and ps = qs, OF _ assms(3)] Cons
  show ?thesis by (simp add: continued_def)
qed

text \<open>
  A continued line that is no recipe is not joined: its own continuation, indented by a tab as is
  usual, is read as a recipe of its own.
\<close>

lemma continued_variable_is_read_as_recipe:
  "recipeLines (''SOURCES = a '' @ [BACKSLASH, LF, TAB] @ ''b c'') = [[TAB] @ ''b c'']"
  by code_simp

lemma collect_set: "set (collect unknown cs)
    = set unknown \<union> {name. \<exists>c \<in> set cs. command_word c = Some name \<and> \<not> is_known name}"
  by (induction cs arbitrary: unknown) (auto split: option.splits)

lemma collect_distinct: "distinct unknown \<Longrightarrow> distinct (collect unknown cs)"
  by (induction cs arbitrary: unknown) (auto split: option.splits)

lemma collect_Nil: "collect [] cs \<noteq> [] \<longleftrightarrow> (\<exists>c \<in> set cs. \<exists>name. command_word c = Some name \<and> \<not> is_known name)"
  unfolding set_empty [symmetric] collect_set by auto

definition runs :: "host \<Rightarrow> check \<Rightarrow> bool" where
  "runs h c \<longleftrightarrow> (\<exists>path out. look_path h (hd (probe c)) = Some path \<and> exec_command h path (tl (probe c)) = Ran out)"

lemma run_check_status:
  "status (run_check q h c) = ''OK'' \<longleftrightarrow> runs h c" "failing (run_check q h c) \<longleftrightarrow> sev c = Required \<and> \<not> runs h c"
  by (auto simp: run_check_def runs_def failed_probe_def split: option.splits outcome.splits)

lemma fresh_never_fails: "\<not> failing (freshBinaryCheck h)"
  by (simp add: freshBinaryCheck_def warned_def Let_def split: sum.split option.split outcome.split)

lemma failing_blocks: "(\<exists>r \<in> set (filter (\<lambda>r. status r \<noteq> ''OK'') (map (run_check q h) manifest @ [freshBinaryCheck h])). failing r)
    \<longleftrightarrow> (\<exists>c \<in> set manifest. sev c = Required \<and> \<not> runs h c)"
  by (auto simp: run_check_status fresh_never_fails)

text \<open>C37: The preflight exits with 0 or 1, and with 1 exactly if there is no repository root, a required tool
  is missing, does not start or does not answer, or a recipe of the Makefile runs a command word that
  is no shell word and no tool of the manifest; an optional tool and the fresh binary never fail it.\<close>

theorem preflight_fails_exactly:
  "snd (doctor q h) = (if (\<exists>e. repoRoot h = Inl e)
       \<or> (\<exists>c \<in> set manifest. sev c = Required \<and> \<not> runs h c)
       \<or> (\<exists>root makefile. repoRoot h = Inr root \<and> read_makefile h root = Some makefile
           \<and> (\<exists>line \<in> set (recipeLines makefile). \<exists>c \<in> set (commands_of line). \<exists>name.
                command_word c = Some name \<and> \<not> is_known name))
     then 1 else 0)"
proof (cases "repoRoot h")
  case (Inr root)
  have stale: "unknownMakefileTools (read_makefile h root) \<noteq> [] \<longleftrightarrow>
      (\<exists>makefile. read_makefile h root = Some makefile
         \<and> (\<exists>line \<in> set (recipeLines makefile). \<exists>c \<in> set (commands_of line). \<exists>name.
              command_word c = Some name \<and> \<not> is_known name))"
    by (cases "read_makefile h root") (simp_all add: unknownMakefileTools_def collect_Nil Bex_def, blast)
  have "snd (doctor q h) = (if (\<exists>c \<in> set manifest. sev c = Required \<and> \<not> runs h c)
      \<or> unknownMakefileTools (read_makefile h root) \<noteq> [] then 1 else 0)"
    using failing_blocks [of q h] by (simp add: doctor_def Inr report_def Let_def)
  with Inr stale show ?thesis by simp
qed (simp add: doctor_def)

text \<open>The line shown of a tool's output has no line break in it, whatever the tool printed.\<close>

lemma first_line_is_one_line: "LF \<notin> set (firstLine out) \<and> CR \<notin> set (firstLine out)"
proof -
  define shown where "shown = trim_space (squeeze False (takeWhile (\<lambda>c. c \<noteq> CR \<and> c \<noteq> LF) (trim_space out)))"
  have "set shown \<subseteq> insert CHR '' '' (set (takeWhile (\<lambda>c. c \<noteq> CR \<and> c \<noteq> LF) (trim_space out)))"
    unfolding shown_def using trim_space_set squeeze_set by blast
  then have t: "LF \<notin> set shown" "CR \<notin> set shown" by (auto dest: set_takeWhileD)
  have "set (concat (take 89 (runes shown))) \<subseteq> set (concat (runes shown))"
    using set_take_subset [of 89 "runes shown"] by auto
  with trim_right_in_set [of "'' ,.;:''" "concat (take 89 (runes shown))"] concat_take_runes_set [of shown]
  have sub: "set (trim_right_in '' ,.;:'' (concat (take 89 (runes shown)))) \<subseteq> set replacement \<union> set shown"
    by (meson subset_trans)
  moreover have "LF \<notin> set replacement" "CR \<notin> set replacement" by (simp_all add: replacement_def)
  ultimately have "LF \<notin> set (trim_right_in '' ,.;:'' (concat (take 89 (runes shown))))"
    "CR \<notin> set (trim_right_in '' ,.;:'' (concat (take 89 (runes shown))))"
    using t by blast+
  with t show ?thesis by (simp add: firstLine_def Let_def shown_def [symmetric] ellipsis_def)
qed

lemma first_line_is_short: "length (runes (firstLine out)) \<le> 90"
proof -
  have "length (runes ''(no output)'') \<le> 90" by code_simp
  then show ?thesis using cut_length [of "'' ,.;:''" 89] by (simp add: firstLine_def Let_def nat_of_byte_def)
qed

end
