(* ===== verification/OpenApi.thy ===== *)
theory OpenApi imports Router
begin

text \<open>
  \<^verbatim>\<open>internal/api/openapi.gen.go\<close>, the server generated from the contract: the enums and models, the
  response objects and how each writes itself, the strict handlers between a typed server and
  \<^verbatim>\<open>net/http\<close>, the wrapper with its middlewares, and the registration of the routes. The last
  section relates it to the endpoints \<^verbatim>\<open>httpapi\<close> writes by hand.
\<close>

section \<open>Models\<close>

definition Ok_LivenessStatusStatus :: string where "Ok_LivenessStatusStatus = ''ok''"

definition NotReady_ReadinessFailureStatus :: string where "NotReady_ReadinessFailureStatus = ''not ready''"

definition Ready_ReadinessStatusStatus :: string where "Ready_ReadinessStatusStatus = ''ready''"

definition LivenessStatusStatus_Valid :: "string \<Rightarrow> bool" where
  "LivenessStatusStatus_Valid e \<longleftrightarrow> e = Ok_LivenessStatusStatus"

definition ReadinessFailureStatus_Valid :: "string \<Rightarrow> bool" where
  "ReadinessFailureStatus_Valid e \<longleftrightarrow> e = NotReady_ReadinessFailureStatus"

definition ReadinessStatusStatus_Valid :: "string \<Rightarrow> bool" where
  "ReadinessStatusStatus_Valid e \<longleftrightarrow> e = Ready_ReadinessStatusStatus"

record LivenessStatus =
  live_Status :: string

text \<open>A nil slice is \<^verbatim>\<open>None\<close>.\<close>

record ReadinessFailure =
  Failed :: "string list option"
  failure_Status :: string

record ReadinessStatus =
  ready_Status :: string

text \<open>The errors of parameters, which no operation of the contract has yet; \<^verbatim>\<open>Err\<close> is its text.\<close>

datatype param_error =
    UnescapedCookieParamError string string
  | UnmarshalingParamError string string
  | RequiredParamError string
  | RequiredHeaderError string string
  | InvalidParamFormatError string string
  | TooManyValuesForParamError string nat

fun param_error_text :: "param_error \<Rightarrow> string" where
  "param_error_text (UnescapedCookieParamError p e) = ''error unescaping cookie parameter '' @ [CHR 0x27] @ p @ [CHR 0x27]"
| "param_error_text (UnmarshalingParamError p e) = ''Error unmarshaling parameter '' @ p @ '' as JSON: '' @ e"
| "param_error_text (RequiredParamError p) = ''Query argument '' @ p @ '' is required, but not found''"
| "param_error_text (RequiredHeaderError p e) = ''Header parameter '' @ p @ '' is required, but not found''"
| "param_error_text (InvalidParamFormatError p e) = ''Invalid format for parameter '' @ p @ '': '' @ e"
| "param_error_text (TooManyValuesForParamError p n) = ''Expected one value for '' @ p @ '', got '' @ decimal n"

fun param_error_unwrap :: "param_error \<Rightarrow> string option" where
  "param_error_unwrap (UnescapedCookieParamError p e) = Some e"
| "param_error_unwrap (UnmarshalingParamError p e) = Some e"
| "param_error_unwrap (RequiredHeaderError p e) = Some e"
| "param_error_unwrap (InvalidParamFormatError p e) = Some e"
| "param_error_unwrap e = None"

section \<open>Response objects\<close>

text \<open>What a handler may return as \<^verbatim>\<open>any\<close>: nothing, a response object, or a value of another type, by
  the name \<^verbatim>\<open>%T\<close> prints.\<close>

datatype response =
    NilResponse
  | GetLiveness200JSONResponse LivenessStatus
  | GetReadiness200JSONResponse ReadinessStatus
  | GetReadiness503JSONResponse ReadinessFailure
  | OtherResponse string

fun go_type :: "response \<Rightarrow> string" where
  "go_type NilResponse = ''<nil>''"
| "go_type (GetLiveness200JSONResponse x) = ''api.GetLiveness200JSONResponse''"
| "go_type (GetReadiness200JSONResponse x) = ''api.GetReadiness200JSONResponse''"
| "go_type (GetReadiness503JSONResponse x) = ''api.GetReadiness503JSONResponse''"
| "go_type (OtherResponse t) = t"

fun GetLivenessResponseObject :: "response \<Rightarrow> bool" where
  "GetLivenessResponseObject (GetLiveness200JSONResponse x) = True"
| "GetLivenessResponseObject r = False"

fun GetReadinessResponseObject :: "response \<Rightarrow> bool" where
  "GetReadinessResponseObject (GetReadiness200JSONResponse x) = True"
| "GetReadinessResponseObject (GetReadiness503JSONResponse x) = True"
| "GetReadinessResponseObject r = False"

text \<open>\<^verbatim>\<open>encoding/json\<close> writes the fields of a struct in the order of their declaration.\<close>

definition struct_text :: "(string \<times> string) list \<Rightarrow> string" where
  "struct_text kvs = CHR 0x7B # join_with CHR '','' (map (\<lambda>(k, v). json_string k @ '':'' @ v) kvs) @ [CHR 0x7D]"

definition slice_text :: "string list option \<Rightarrow> string" where
  "slice_text xs = (case xs of None \<Rightarrow> ''null'' | Some xs \<Rightarrow> json_text (JList (map JString xs)))"

text \<open>How \<^verbatim>\<open>buf.WriteTo\<close> ends is the connection's: it may write a part and report an error.\<close>

type_synonym writer = "string \<Rightarrow> reply \<Rightarrow> string option \<times> reply"

definition net_write :: writer where
  "net_write s w = (None, write_body s w)"

definition visit_json :: "writer \<Rightarrow> nat \<Rightarrow> string \<Rightarrow> reply \<Rightarrow> string option \<times> reply" where
  "visit_json wr code body w =
     wr (body @ [CHR 0x0A]) (WriteHeader code (set_header ''Content-Type'' ''application/json'' w))"

definition VisitGetLiveness200 :: "writer \<Rightarrow> LivenessStatus \<Rightarrow> reply \<Rightarrow> string option \<times> reply" where
  "VisitGetLiveness200 wr x = visit_json wr 200 (struct_text [(''status'', json_string (live_Status x))])"

definition VisitGetReadiness200 :: "writer \<Rightarrow> ReadinessStatus \<Rightarrow> reply \<Rightarrow> string option \<times> reply" where
  "VisitGetReadiness200 wr x = visit_json wr 200 (struct_text [(''status'', json_string (ready_Status x))])"

definition VisitGetReadiness503 :: "writer \<Rightarrow> ReadinessFailure \<Rightarrow> reply \<Rightarrow> string option \<times> reply" where
  "VisitGetReadiness503 wr x =
     visit_json wr 503 (struct_text [(''failed'', slice_text (Failed x)), (''status'', json_string (failure_Status x))])"

fun visit :: "writer \<Rightarrow> response \<Rightarrow> reply \<Rightarrow> string option \<times> reply" where
  "visit wr (GetLiveness200JSONResponse x) w = VisitGetLiveness200 wr x w"
| "visit wr (GetReadiness200JSONResponse x) w = VisitGetReadiness200 wr x w"
| "visit wr (GetReadiness503JSONResponse x) w = VisitGetReadiness503 wr x w"
| "visit wr r w = (None, w)"

section \<open>The strict handlers\<close>

text \<open>
  A strict handler returns a response and an error, or panics (\<^verbatim>\<open>None\<close>). The request objects of both
  operations are empty structs and are left out.
\<close>

type_synonym 'w strict_handler = "request \<Rightarrow> reply \<times> 'w \<Rightarrow> (response \<times> string option) option \<times> reply \<times> 'w"
type_synonym 'w strict_middleware = "'w strict_handler \<Rightarrow> string \<Rightarrow> 'w strict_handler"
type_synonym 'w error_handler = "request \<Rightarrow> string \<Rightarrow> reply \<times> 'w \<Rightarrow> reply \<times> 'w"

record 'w StrictServerInterface =
  ssi_GetLiveness :: "request \<Rightarrow> 'w \<Rightarrow> (response \<times> string option) option \<times> 'w"
  ssi_GetReadiness :: "request \<Rightarrow> 'w \<Rightarrow> (response \<times> string option) option \<times> 'w"

record 'w StrictHTTPServerOptions =
  RequestErrorHandlerFunc :: "'w error_handler option"
  ResponseErrorHandlerFunc :: "'w error_handler option"

record 'w ServerInterface =
  si_GetLiveness :: "'w handler"
  si_GetReadiness :: "'w handler"

definition error_with :: "nat \<Rightarrow> 'w error_handler" where
  "error_with code r err = apfst (http_error err code)"

definition filled :: "nat \<Rightarrow> 'w error_handler option \<Rightarrow> 'w error_handler" where
  "filled code f = (case f of None \<Rightarrow> error_with code | Some g \<Rightarrow> g)"

definition strict_op ::
  "writer \<Rightarrow> (response \<Rightarrow> bool) \<Rightarrow> string \<Rightarrow> 'w strict_middleware list \<Rightarrow> 'w error_handler
   \<Rightarrow> (request \<Rightarrow> 'w \<Rightarrow> (response \<times> string option) option \<times> 'w) \<Rightarrow> 'w handler" where
  "strict_op wr object operationID middlewares onError serve r ws =
     (let base = (\<lambda>r (w, s). case serve r s of (res, s') \<Rightarrow> (res, w, s'));
          handler = foldl (\<lambda>h m. m h operationID) base middlewares;
          reject = (\<lambda>err w s. (Served, onError r err (w, s))) in
      case handler r ws of
        (None, w, s) \<Rightarrow> (Panicked, w, s)
      | (Some (response, Some err), w, s) \<Rightarrow> reject err w s
      | (Some (response, None), w, s) \<Rightarrow>
          if object response
          then (case visit wr response w of
                  (Some err, w') \<Rightarrow> reject err w' s
                | (None, w') \<Rightarrow> (Served, w', s))
          else if response \<noteq> NilResponse
          then reject (''unexpected response type: '' @ go_type response) w s
          else (Served, w, s))"

record 'w strictHandler =
  ssi :: "'w StrictServerInterface"
  strict_middlewares :: "'w strict_middleware list"
  onRequestError :: "'w error_handler"
  onResponseError :: "'w error_handler"

definition strict_GetLiveness :: "writer \<Rightarrow> 'w strictHandler \<Rightarrow> 'w handler" where
  "strict_GetLiveness wr sh =
     strict_op wr GetLivenessResponseObject ''GetLiveness'' (strict_middlewares sh) (onResponseError sh) (ssi_GetLiveness (ssi sh))"

definition strict_GetReadiness :: "writer \<Rightarrow> 'w strictHandler \<Rightarrow> 'w handler" where
  "strict_GetReadiness wr sh =
     strict_op wr GetReadinessResponseObject ''GetReadiness'' (strict_middlewares sh) (onResponseError sh) (ssi_GetReadiness (ssi sh))"

definition NewStrictHandlerWithOptions ::
  "writer \<Rightarrow> 'w StrictServerInterface \<Rightarrow> 'w strict_middleware list \<Rightarrow> 'w StrictHTTPServerOptions \<Rightarrow> 'w ServerInterface" where
  "NewStrictHandlerWithOptions wr server middlewares options =
     (let sh = \<lparr>ssi = server, strict_middlewares = middlewares,
                onRequestError = filled 400 (RequestErrorHandlerFunc options),
                onResponseError = filled 500 (ResponseErrorHandlerFunc options)\<rparr> in
      \<lparr>si_GetLiveness = strict_GetLiveness wr sh, si_GetReadiness = strict_GetReadiness wr sh\<rparr>)"

definition NewStrictHandler ::
  "writer \<Rightarrow> 'w StrictServerInterface \<Rightarrow> 'w strict_middleware list \<Rightarrow> 'w ServerInterface" where
  "NewStrictHandler wr server middlewares =
     NewStrictHandlerWithOptions wr server middlewares
       \<lparr>RequestErrorHandlerFunc = Some (error_with 400), ResponseErrorHandlerFunc = Some (error_with 500)\<rparr>"

text \<open>The server that implements nothing.\<close>

definition Unimplemented :: "'w ServerInterface" where
  "Unimplemented = \<lparr>si_GetLiveness = (\<lambda>r. answer (WriteHeader 501)), si_GetReadiness = (\<lambda>r. answer (WriteHeader 501))\<rparr>"

section \<open>The routes\<close>

record 'w ServerInterfaceWrapper =
  siw_Handler :: "'w ServerInterface"
  HandlerMiddlewares :: "'w middleware list"
  siw_ErrorHandlerFunc :: "'w error_handler"

definition wrapped :: "'w middleware list \<Rightarrow> 'w handler \<Rightarrow> 'w handler" where
  "wrapped mws h = foldl (\<lambda>handler middleware. middleware handler) h mws"

definition siw_GetLiveness :: "'w ServerInterfaceWrapper \<Rightarrow> 'w handler" where
  "siw_GetLiveness siw = wrapped (HandlerMiddlewares siw) (si_GetLiveness (siw_Handler siw))"

definition siw_GetReadiness :: "'w ServerInterfaceWrapper \<Rightarrow> 'w handler" where
  "siw_GetReadiness siw = wrapped (HandlerMiddlewares siw) (si_GetReadiness (siw_Handler siw))"

text \<open>A router while it is built: what was registered on it so far.\<close>

type_synonym 'w chi_router = "'w middleware list \<times> 'w route list"

definition chi_Get :: "string \<Rightarrow> 'w handler \<Rightarrow> 'w chi_router \<Rightarrow> 'w chi_router" where
  "chi_Get path h r = apsnd (\<lambda>routes. routes @ [(''GET'', path, h)]) r"

record 'w ChiServerOptions =
  BaseURL :: string
  BaseRouter :: "'w chi_router option"
  Middlewares :: "'w middleware list"
  ErrorHandlerFunc :: "'w error_handler option"

definition HandlerWithOptions :: "'w ServerInterface \<Rightarrow> 'w ChiServerOptions \<Rightarrow> 'w chi_router" where
  "HandlerWithOptions si options =
     (let r = (case BaseRouter options of None \<Rightarrow> ([], []) | Some r \<Rightarrow> r);
          wrapper = \<lparr>siw_Handler = si, HandlerMiddlewares = Middlewares options,
                     siw_ErrorHandlerFunc = filled 400 (ErrorHandlerFunc options)\<rparr> in
      chi_Get (BaseURL options @ ''/readyz'') (siw_GetReadiness wrapper)
        (chi_Get (BaseURL options @ ''/healthz'') (siw_GetLiveness wrapper) r))"

definition api_Handler :: "'w ServerInterface \<Rightarrow> 'w chi_router" where
  "api_Handler si = HandlerWithOptions si \<lparr>BaseURL = [], BaseRouter = None, Middlewares = [], ErrorHandlerFunc = None\<rparr>"

definition HandlerFromMux :: "'w ServerInterface \<Rightarrow> 'w chi_router \<Rightarrow> 'w chi_router" where
  "HandlerFromMux si r = HandlerWithOptions si \<lparr>BaseURL = [], BaseRouter = Some r, Middlewares = [], ErrorHandlerFunc = None\<rparr>"

definition HandlerFromMuxWithBaseURL :: "'w ServerInterface \<Rightarrow> 'w chi_router \<Rightarrow> string \<Rightarrow> 'w chi_router" where
  "HandlerFromMuxWithBaseURL si r baseURL =
     HandlerWithOptions si \<lparr>BaseURL = baseURL, BaseRouter = Some r, Middlewares = [], ErrorHandlerFunc = None\<rparr>"

section \<open>What a strict handler answers\<close>

text \<open>Middlewares nest the other way round than those of the router: the last of the list is outermost.\<close>

lemma last_middleware_is_outermost:
  "wrapped (mws @ [m]) h = m (wrapped mws h)"
  "foldl (\<lambda>h m. m h oid) base (sms @ [sm]) = sm (foldl (\<lambda>h m. m h oid) base sms) oid"
  by (simp_all add: wrapped_def)

lemma strict_op_plain: "strict_op wr object oid [] onError serve r (w, s) =
    (case serve r s of
       (None, s') \<Rightarrow> (Panicked, w, s')
     | (Some (response, Some err), s') \<Rightarrow> (Served, onError r err (w, s'))
     | (Some (response, None), s') \<Rightarrow>
         if object response
         then (case visit wr response w of
                 (Some err, w') \<Rightarrow> (Served, onError r err (w', s'))
               | (None, w') \<Rightarrow> (Served, w', s'))
         else if response \<noteq> NilResponse
         then (Served, onError r (''unexpected response type: '' @ go_type response) (w, s'))
         else (Served, w, s'))"
  by (simp add: strict_op_def Let_def split: prod.split option.split)

lemma visit_sends:
  assumes "sent w = None" and "GetLivenessResponseObject x \<or> GetReadinessResponseObject x"
    and "\<And>t v. sent v \<noteq> None \<Longrightarrow> sent (snd (wr t v)) = sent v"
  shows "\<exists>h. sent (snd (visit wr x w)) = Some (case x of GetReadiness503JSONResponse f \<Rightarrow> 503 | _ \<Rightarrow> 200, h)"
  using assms(1,2) by (cases x) (auto simp: VisitGetLiveness200_def VisitGetReadiness200_def VisitGetReadiness503_def
    visit_json_def WriteHeader_def set_header_def assms(3))

text \<open>A write that fails after the status was sent is reported to the error handler, which can no
  longer change the status: the client keeps the one the response object has.\<close>

lemma failed_write_keeps_status:
  assumes "sent w = None" and "object = GetLivenessResponseObject \<or> object = GetReadinessResponseObject" and "object x"
    and "serve r s = (Some (x, None), s')"
    and "\<And>t v. sent v \<noteq> None \<Longrightarrow> sent (snd (wr t v)) = sent v"
  shows "\<exists>w'. strict_op wr object oid [] (error_with 500) serve r (w, s) = (Served, w', s')
    \<and> status w' = (case x of GetReadiness503JSONResponse f \<Rightarrow> 503 | _ \<Rightarrow> 200)"
proof -
  have "GetLivenessResponseObject x \<or> GetReadinessResponseObject x" using assms(2,3) by auto
  from visit_sends [OF assms(1) this, where wr = wr] assms(5) obtain h where
    h: "sent (snd (visit wr x w)) = Some (case x of GetReadiness503JSONResponse f \<Rightarrow> 503 | _ \<Rightarrow> 200, h)" by blast
  obtain e w' where v: "visit wr x w = (e, w')" by fastforce
  with h http_error_late [of w'] assms(3,4) show ?thesis
    by (cases e) (simp_all add: strict_op_plain error_with_def)
qed

section \<open>The contract and the endpoints\<close>

text \<open>A response object inside the contract: enums have their values, a failure names a check.\<close>

fun in_contract :: "response \<Rightarrow> bool" where
  "in_contract (GetLiveness200JSONResponse x) = LivenessStatusStatus_Valid (live_Status x)"
| "in_contract (GetReadiness200JSONResponse x) = ReadinessStatusStatus_Valid (ready_Status x)"
| "in_contract (GetReadiness503JSONResponse x) =
     (ReadinessFailureStatus_Valid (failure_Status x) \<and> Failed x \<noteq> None \<and> Failed x \<noteq> Some [])"
| "in_contract r = False"

definition liveness_object :: response where
  "liveness_object = GetLiveness200JSONResponse \<lparr>live_Status = Ok_LivenessStatusStatus\<rparr>"

definition readiness_object :: "string list \<Rightarrow> response" where
  "readiness_object failed =
     (if failed = [] then GetReadiness200JSONResponse \<lparr>ready_Status = Ready_ReadinessStatusStatus\<rparr>
      else GetReadiness503JSONResponse \<lparr>Failed = Some (sort failed), failure_Status = NotReady_ReadinessFailureStatus\<rparr>)"

lemmas contract_defs = liveness_object_def readiness_object_def Ok_LivenessStatusStatus_def
  NotReady_ReadinessFailureStatus_def Ready_ReadinessStatusStatus_def
lemmas visit_defs = VisitGetLiveness200_def VisitGetReadiness200_def VisitGetReadiness503_def visit_json_def net_write_def
  struct_text_def slice_text_def

lemma sort_is_Nil: "sort xs = [] \<longleftrightarrow> xs = []"
  by (metis length_0_conv length_sort)

lemma objects_in_contract: "in_contract liveness_object" "in_contract (readiness_object failed)"
    "GetLivenessResponseObject liveness_object" "GetReadinessResponseObject (readiness_object failed)"
  by (simp_all add: contract_defs LivenessStatusStatus_Valid_def ReadinessStatusStatus_Valid_def ReadinessFailureStatus_Valid_def
      sort_is_Nil)

lemma handwritten_bytes:
  "visit net_write liveness_object w = (None, writeJSON 200 (JObject [(''status'', JString ''ok'')]) w)"
  "visit net_write (readiness_object failed) w = (None, readiness_reply failed w)"
  by (auto simp: contract_defs visit_defs writeJSON_def readiness_reply_def)

lemma strict_agrees:
  assumes "serve r s = (Some (x, None), s)" and "object x" and "visit wr x w = (None, w')"
  shows "strict_op wr object oid [] onError serve r (w, s) = (Served, w', s)"
  using assms by (simp add: strict_op_plain)


text \<open>The router the process serves registers exactly what the contract does.\<close>

lemma router_serves_the_contract: "snd (HandlerFromMux \<lparr>si_GetLiveness = LivenessHandler,
    si_GetReadiness = NewReadinessHandler readinessTimeout [] now\<rparr> (mws, [])) = health_routes now"
  by (simp add: HandlerFromMux_def HandlerWithOptions_def chi_Get_def siw_GetLiveness_def siw_GetReadiness_def
      wrapped_def Let_def health_routes_def)

section \<open>Worked example\<close>

definition probed :: "readiness_check list \<Rightarrow> unit StrictServerInterface" where
  "probed checks = \<lparr>ssi_GetLiveness = (\<lambda>r s. (Some (liveness_object, None), s)),
     ssi_GetReadiness = (\<lambda>r s. (Some (readiness_object (run_checks 12 checks []), None), s))\<rparr>"


end
