(* ===== verification/Harness.thy ===== *)
theory Harness imports RoleGuard Migrate Bootstrap Dsn "HOL-Library.Multiset"
begin

text \<open>
  \<^verbatim>\<open>internal/db/dbtest/container.go\<close>: when an integration test may be skipped, and the database it is
  given otherwise: a container, its migrations and role passwords, and a guarded pool for every
  application role, with the closers that take all of it down again. What starts, connects and stops
  is the record \<open>machine\<close>; its laws are the locale.
\<close>

section \<open>Skipping\<close>

definition skipEnvVar :: string where "skipEnvVar = ''MASCOTAPP_SKIP_DOCKER_TESTS''"

definition ciEnvVar :: string where "ciEnvVar = ''CI''"

datatype hatch_error = ErrEscapeHatchInCI

definition GuardEscapeHatch :: "(string \<Rightarrow> string) \<Rightarrow> hatch_error option" where
  "GuardEscapeHatch getenv = (if getenv skipEnvVar \<noteq> [] \<and> getenv ciEnvVar \<noteq> [] then Some ErrEscapeHatchInCI else None)"

definition SkipReason :: "bool \<Rightarrow> (string \<Rightarrow> string) \<Rightarrow> string \<times> bool" where
  "SkipReason short getenv =
     (if short then (''-short was requested and this test needs a container'', True)
      else if getenv skipEnvVar \<noteq> [] then (skipEnvVar @ '' is set'', True)
      else ([], False))"

definition failureAdvice :: string where
  "failureAdvice = ''This is a failure, not a skip. If your Docker daemon is simply not ''
     @ ''running, start it (`make dev`) and re-run. To skip these tests locally, set '' @ skipEnvVar @ ''=1 ''
     @ [CHR 0xE2, CHR 0x80, CHR 0x94] @ '' it is refused in CI.''"

section \<open>The machine\<close>

datatype resource = Container nat | Pool nat | Handle nat

text \<open>
  \<^verbatim>\<open>testcontainers\<close>, \<^verbatim>\<open>pgxpool\<close> and \<^verbatim>\<open>database/sql\<close>: a run that fails may return a container with its
  error. \<open>on_handle\<close> lets a function act on the connection behind a handle; \<open>any_order\<close> is the order a
  range over a map happens to take.
\<close>

record 'w machine =
  run_container :: "string \<Rightarrow> string \<Rightarrow> string \<Rightarrow> string \<Rightarrow> 'w \<Rightarrow> (nat option \<times> string + nat) \<times> 'w"
  connection_string :: "nat \<Rightarrow> 'w \<Rightarrow> (string + string) \<times> 'w"
  terminate :: "nat \<Rightarrow> 'w \<Rightarrow> 'w"
  pool_new :: "string \<Rightarrow> 'w \<Rightarrow> (string + nat) \<times> 'w"
  pool_ping :: "nat \<Rightarrow> 'w \<Rightarrow> string option \<times> 'w"
  pool_exec :: "nat \<Rightarrow> string \<Rightarrow> 'w \<Rightarrow> string option \<times> 'w"
  pool_close :: "nat \<Rightarrow> 'w \<Rightarrow> 'w"
  query_capabilities :: "nat \<Rightarrow> 'w \<Rightarrow> (string + role_capabilities) \<times> 'w"
  sql_open :: "string \<Rightarrow> 'w \<Rightarrow> (string + nat) \<times> 'w"
  handle_close :: "nat \<Rightarrow> 'w \<Rightarrow> 'w"
  provider_of :: "nat \<Rightarrow> 'w goose"
  on_handle :: "nat \<Rightarrow> (role_table pgconn \<Rightarrow> bootstrap_error option \<times> role_table pgconn) \<Rightarrow> 'w \<Rightarrow> bootstrap_error option \<times> 'w"
  new_uuid :: "'w \<Rightarrow> uuid \<times> 'w"
  any_order :: "(string \<times> string) list \<Rightarrow> (string \<times> string) list"
  valid_text :: "string \<Rightarrow> bool"
  sql_keyword :: "string \<Rightarrow> bool"

fun close_resource :: "'w machine \<Rightarrow> resource \<Rightarrow> 'w \<Rightarrow> 'w" where
  "close_resource m (Container c) = terminate m c"
| "close_resource m (Pool p) = pool_close m p"
| "close_resource m (Handle h) = handle_close m h"

text \<open>The closers run from the last registered to the first.\<close>

definition cleanup :: "'w machine \<Rightarrow> resource list \<Rightarrow> 'w \<Rightarrow> 'w" where
  "cleanup m closers w = fold (close_resource m) (rev closers) w"

section \<open>Pools\<close>

datatype open_error = CreatingPool string | Connecting string

definition openPool :: "'w machine \<Rightarrow> string \<Rightarrow> 'w \<Rightarrow> (open_error + nat) \<times> 'w" where
  "openPool m dsn w =
     (case pool_new m dsn w of
        (Inl e, w1) \<Rightarrow> (Inl (CreatingPool e), w1)
      | (Inr p, w1) \<Rightarrow>
          (case pool_ping m p w1 of
             (Some e, w2) \<Rightarrow> (Inl (Connecting e), pool_close m p w2)
           | (None, w2) \<Rightarrow> (Inr p, w2)))"

record env =
  OwnerPool :: nat
  OwnerDSN :: string
  OwnerRole :: string
  TenantPool :: "nat option"
  PublicPool :: "nat option"
  AuthPool :: "nat option"
  ShelterA :: uuid
  ShelterB :: uuid
  guarded_roles :: "string \<rightharpoonup> role_capabilities"

definition GuardedRoles :: "env \<Rightarrow> string \<rightharpoonup> role_capabilities" where
  "GuardedRoles e = guarded_roles e"

datatype env_error = Starting string | ConnectionString string | OwnerPoolFailed open_error
  | OpeningHandle string | ApplyingMigrations migrate_error | SettingPasswordFor string bootstrap_error
  | BuildingDsn string | RolePoolFailed string open_error | GuardFailed "string role_error"

definition openAppPool :: "'w machine \<Rightarrow> env \<Rightarrow> string \<Rightarrow> string \<Rightarrow> 'w \<Rightarrow> (env_error + nat) \<times> 'w" where
  "openAppPool m env role password w =
     (case withCredentials (OwnerDSN env) role password of
        None \<Rightarrow> (Inl (BuildingDsn role), w)
      | Some dsn \<Rightarrow>
          (case openPool m dsn w of
             (Inl e, w1) \<Rightarrow> (Inl (RolePoolFailed role e), w1)
           | (Inr p, w1) \<Rightarrow> (Inr p, w1)))"

section \<open>Migrating\<close>

definition image :: string where "image = ''postgres:17-alpine''"
definition ownerRole :: string where "ownerRole = ''mascotapp''"
definition ownerPass :: string where "ownerPass = ''mascotapp''"
definition database :: string where "database = ''mascotapp''"
definition tenantRole :: string where "tenantRole = ''app_tenant''"
definition publicRole :: string where "publicRole = ''app_public''"
definition authRole :: string where "authRole = ''app_auth''"
definition tenantPass :: string where "tenantPass = ''tenant-test-password''"
definition publicPass :: string where "publicPass = ''public-test-password''"
definition authPass :: string where "authPass = ''auth-test-password''"

fun set_passwords :: "'w machine \<Rightarrow> nat \<Rightarrow> (string \<times> string) list \<Rightarrow> 'w \<Rightarrow> env_error option \<times> 'w" where
  "set_passwords m h [] w = (None, w)"
| "set_passwords m h ((role, password) # rest) w =
     (case on_handle m h (SetRolePassword (valid_text m) (sql_keyword m) role password) w of
        (Some e, w1) \<Rightarrow> (Some (SettingPasswordFor role e), w1)
      | (None, w1) \<Rightarrow> set_passwords m h rest w1)"

definition role_passwords :: "(string \<times> string) list" where
  "role_passwords = [(tenantRole, tenantPass), (publicRole, publicPass), (authRole, authPass)]"

definition migrate_env :: "'w machine \<Rightarrow> env \<Rightarrow> 'w \<Rightarrow> env_error option \<times> 'w" where
  "migrate_env m env w =
     (case sql_open m (OwnerDSN env) w of
        (Inl e, w1) \<Rightarrow> (Some (OpeningHandle e), w1)
      | (Inr h, w1) \<Rightarrow>
          apsnd (handle_close m h)
            (case Up (provider_of m h) w1 of
               (Some e, w2) \<Rightarrow> (Some (ApplyingMigrations e), w2)
             | (None, w2) \<Rightarrow> set_passwords m h (any_order m role_passwords) w2))"

section \<open>The environment\<close>

type_synonym role_spec = "string \<times> string \<times> (nat \<Rightarrow> env \<Rightarrow> env)"

definition role_specs :: "role_spec list" where
  "role_specs =
     [(tenantRole, tenantPass, (\<lambda>p env. env\<lparr>TenantPool := Some p\<rparr>)),
      (publicRole, publicPass, (\<lambda>p env. env\<lparr>PublicPool := Some p\<rparr>)),
      (authRole, authPass, (\<lambda>p env. env\<lparr>AuthPool := Some p\<rparr>))]"

fun open_roles :: "'w machine \<Rightarrow> role_spec list \<Rightarrow> env \<Rightarrow> resource list \<Rightarrow> 'w \<Rightarrow> (env_error + env) \<times> resource list \<times> 'w" where
  "open_roles m [] env closers w = (Inr env, closers, w)"
| "open_roles m ((role, password, assign) # specs) env closers w =
     (case openAppPool m env role password w of
        (Inl e, w1) \<Rightarrow> (Inl e, closers, w1)
      | (Inr p, w1) \<Rightarrow>
          (case query_capabilities m p w1 of
             (caps, w2) \<Rightarrow>
               (case guardRole role caps (OwnerRole env) of
                  Inl e \<Rightarrow> (Inl (GuardFailed e), closers @ [Pool p], w2)
                | Inr c \<Rightarrow>
                    open_roles m specs (assign p (env\<lparr>guarded_roles := (guarded_roles env)(role \<mapsto> c)\<rparr>))
                      (closers @ [Pool p]) w2)))"

definition with_container :: "'w machine \<Rightarrow> nat \<Rightarrow> resource list \<Rightarrow> 'w \<Rightarrow> (env_error + env) \<times> resource list \<times> 'w" where
  "with_container m c closers w =
     (case connection_string m c w of
        (Inl e, w1) \<Rightarrow> (Inl (ConnectionString e), closers, w1)
      | (Inr dsn, w1) \<Rightarrow>
          (case openPool m dsn w1 of
             (Inl e, w2) \<Rightarrow> (Inl (OwnerPoolFailed e), closers, w2)
           | (Inr p, w2) \<Rightarrow>
               (case new_uuid m w2 of (a, w3) \<Rightarrow>
               (case new_uuid m w3 of (b, w4) \<Rightarrow>
                  let env = \<lparr>OwnerPool = p, OwnerDSN = dsn, OwnerRole = ownerRole, TenantPool = None, PublicPool = None,
                             AuthPool = None, ShelterA = a, ShelterB = b, guarded_roles = Map.empty\<rparr> in
                  (case migrate_env m env w4 of
                     (Some e, w5) \<Rightarrow> (Inl e, closers @ [Pool p], w5)
                   | (None, w5) \<Rightarrow> open_roles m role_specs env (closers @ [Pool p]) w5)))))"

text \<open>A container that was returned is registered before its error is looked at.\<close>

definition newEnv :: "'w machine \<Rightarrow> 'w \<Rightarrow> (env_error + env) \<times> resource list \<times> 'w" where
  "newEnv m w =
     (case run_container m image database ownerRole ownerPass w of
        (Inl (None, e), w1) \<Rightarrow> (Inl (Starting e), [], w1)
      | (Inl (Some c, e), w1) \<Rightarrow> (Inl (Starting e), [Container c], w1)
      | (Inr c, w1) \<Rightarrow> with_container m c [Container c] w1)"

section \<open>What a test gets\<close>

datatype outcome = Skip string | Fatal env_error string | Ready env

definition verdict :: "env_error + env \<Rightarrow> bool \<times> (string \<Rightarrow> string) \<Rightarrow> outcome" where
  "verdict r call =
     (case SkipReason (fst call) (snd call) of
        (reason, True) \<Rightarrow> Skip (''skipping: '' @ reason)
      | (_, False) \<Rightarrow> (case r of Inl e \<Rightarrow> Fatal e failureAdvice | Inr env \<Rightarrow> Ready env))"

text \<open>
  \<^verbatim>\<open>Postgres\<close> with the package's \<^verbatim>\<open>sync.Once\<close>: what the first start gave is kept, its cleanup is not.
\<close>

definition Postgres ::
  "'w machine \<Rightarrow> bool \<times> (string \<Rightarrow> string) \<Rightarrow> (env_error + env) option \<Rightarrow> 'w \<Rightarrow> outcome \<times> (env_error + env) option \<times> 'w" where
  "Postgres m call shared w =
     (case SkipReason (fst call) (snd call) of
        (reason, True) \<Rightarrow> (Skip (''skipping: '' @ reason), shared, w)
      | (_, False) \<Rightarrow>
          (case (case shared of
                   Some r \<Rightarrow> (r, w)
                 | None \<Rightarrow> (case newEnv m w of (r, _, w1) \<Rightarrow> (r, w1))) of
             (Inl e, w1) \<Rightarrow> (Fatal e failureAdvice, Some (Inl e), w1)
           | (Inr env, w1) \<Rightarrow> (Ready env, Some (Inr env), w1)))"

text \<open>The result with the closers that are registered with the test, which run when it ends.\<close>

definition PostgresIsolated :: "'w machine \<Rightarrow> bool \<times> (string \<Rightarrow> string) \<Rightarrow> 'w \<Rightarrow> outcome \<times> resource list \<times> 'w" where
  "PostgresIsolated m call w =
     (case SkipReason (fst call) (snd call) of
        (reason, True) \<Rightarrow> (Skip (''skipping: '' @ reason), [], w)
      | (_, False) \<Rightarrow>
          (case newEnv m w of
             (Inl e, closers, w1) \<Rightarrow> (Fatal e failureAdvice, closers, w1)
           | (Inr env, closers, w1) \<Rightarrow> (Ready env, closers, w1)))"

section \<open>Fixtures\<close>

definition truncate :: "string \<Rightarrow> string" where
  "truncate s = (if length s \<le> 80 then s else take 80 s @ ''...'')"

text \<open>\<open>q\<close> is the verb \<^verbatim>\<open>%q\<close>; an error is the test's failure.\<close>

definition MustExec :: "(string \<Rightarrow> string) \<Rightarrow> 'w machine \<Rightarrow> nat \<Rightarrow> string \<Rightarrow> 'w \<Rightarrow> string option \<times> 'w" where
  "MustExec q m p stmt w =
     (case pool_exec m p stmt w of
        (Some err, w1) \<Rightarrow> (Some (''exec '' @ q (truncate stmt) @ '': '' @ err), w1)
      | (None, w1) \<Rightarrow> (None, w1))"

section \<open>The laws of the machine\<close>

text \<open>What is running afterwards is what was running before, with what was handed out and without
  what was closed.\<close>

locale machine =
  fixes m :: "'w machine" and live :: "'w \<Rightarrow> resource multiset"
  assumes run: "run_container m i d u p w = (r0, w') \<Longrightarrow> live w' = live w
      + (case r0 of Inl (None, e) \<Rightarrow> {#} | Inl (Some x, e) \<Rightarrow> {#Container x#} | Inr x \<Rightarrow> {#Container x#})"
    and new: "pool_new m dsn w = (r, w') \<Longrightarrow> live w' = live w + (case r of Inl e \<Rightarrow> {#} | Inr x \<Rightarrow> {#Pool x#})"
    and opened: "sql_open m dsn w = (r2, w') \<Longrightarrow> live w' = live w + (case r2 of Inl e \<Rightarrow> {#} | Inr x \<Rightarrow> {#Handle x#})"
    and closed: "live (close_resource m x w) = live w - {#x#}"
    and asked: "live (snd (connection_string m c2 w)) = live w" "live (snd (pool_ping m p2 w)) = live w"
      "live (snd (query_capabilities m p2 w)) = live w" "live (snd (new_uuid m w)) = live w"
      "live (snd (new_provider (provider_of m h) w)) = live w" "live (snd (goose_up (provider_of m h) w)) = live w"
      "live (snd (on_handle m h f w)) = live w"
begin

lemma asked_eqs:
  "connection_string m c w = (r, w') \<Longrightarrow> live w' = live w" "pool_ping m p w = (e, w') \<Longrightarrow> live w' = live w"
  "query_capabilities m p w = (caps, w') \<Longrightarrow> live w' = live w" "new_uuid m w = (u, w') \<Longrightarrow> live w' = live w"
  "new_provider (provider_of m h) w = (e, w') \<Longrightarrow> live w' = live w" "goose_up (provider_of m h) w = (e, w') \<Longrightarrow> live w' = live w"
  "on_handle m h f w = (be, w') \<Longrightarrow> live w' = live w"
  by (auto dest!: arg_cong [where f = "\<lambda>x. live (snd x)"] simp: asked)

lemma closed_eqs: "live (pool_close m p w) = live w - {#Pool p#}" "live (handle_close m h w) = live w - {#Handle h#}"
  using closed [of "Pool p" w] closed [of "Handle h" w] by simp_all

text \<open>Closing in any order closes everything that was registered.\<close>

lemma cleanup_live: "live w = L + mset closers \<Longrightarrow> live (cleanup m closers w) = L"
proof (induction closers arbitrary: w rule: rev_induct)
  case (snoc x closers)
  have "live (close_resource m x w) = L + mset closers" using snoc.prems by (simp add: closed)
  with snoc.IH show ?case by (simp add: cleanup_def)
qed (simp add: cleanup_def)

lemma openPool_live: "openPool m dsn w = (r, w') \<Longrightarrow> live w' = live w + (case r of Inl e \<Rightarrow> {#} | Inr p \<Rightarrow> {#Pool p#})"
  by (auto simp: openPool_def closed_eqs dest!: new asked_eqs split: sum.splits prod.splits option.splits)

lemma openAppPool_live: "openAppPool m env role pw w = (r, w') \<Longrightarrow> live w' = live w + (case r of Inl e \<Rightarrow> {#} | Inr p \<Rightarrow> {#Pool p#})"
  by (auto simp: openAppPool_def dest!: openPool_live split: sum.splits prod.splits option.splits)

lemma set_passwords_live: "live (snd (set_passwords m h specs w)) = live w"
  by (induction specs arbitrary: w) (auto dest: asked_eqs split: prod.splits option.splits)

lemma up_live: "Up (provider_of m h) w = (e, w') \<Longrightarrow> live w' = live w"
  by (auto simp: Up_def newProvider_def apfst_def map_prod_def dest!: asked_eqs split: prod.splits option.splits)

lemma migrate_live:
  assumes "migrate_env m env w = (e, w')"
  shows "live w' = live w"
proof (cases "sql_open m (OwnerDSN env) w")
  case (Pair r w1)
  show ?thesis
  proof (cases r)
    case (Inr h)
    obtain e2 w2 where up: "Up (provider_of m h) w1 = (e2, w2)" by fastforce
    obtain e3 w3 where pw: "set_passwords m h (any_order m role_passwords) w2 = (e3, w3)" by fastforce
    from set_passwords_live [of h "any_order m role_passwords" w2] pw have "live w3 = live w2" by simp
    with assms Pair Inr up pw opened [OF Pair] up_live [OF up] show ?thesis
      by (auto simp: migrate_env_def closed_eqs split: option.splits)
  qed (use assms Pair opened [OF Pair] in \<open>auto simp: migrate_env_def\<close>)
qed

lemma open_roles_live: "open_roles m specs env closers w = (r, closers', w') \<Longrightarrow> live w = L + mset closers \<Longrightarrow>
    live w' = L + mset closers'"
proof (induction specs arbitrary: env closers w)
  case (Cons spec specs)
  obtain role password assign where spec: "spec = (role, password, assign)" by (metis prod_cases3)
  from Cons show ?case unfolding spec
    by (auto dest!: openAppPool_live asked_eqs split: sum.splits prod.splits)
qed auto

lemma newEnv_live: "newEnv m w = (r, closers, w') \<Longrightarrow> live w' = live w + mset closers"
  by (auto simp: newEnv_def with_container_def Let_def dest!: run openPool_live asked_eqs migrate_live
      dest: open_roles_live split: sum.splits prod.splits option.splits)

text \<open>Whatever the test was given, its closers leave what there was before it.\<close>

lemma isolated_live: "PostgresIsolated m call w = (out, closers, w1) \<Longrightarrow> live w1 = live w + mset closers"
  by (auto simp: PostgresIsolated_def dest: newEnv_live split: prod.splits bool.splits sum.splits)

lemma isolated_closed: "PostgresIsolated m call w = (out, closers, w1) \<Longrightarrow> live (cleanup m closers w1) = live w"
  by (rule cleanup_live) (rule isolated_live)

text \<open>The shared start drops its closers: what a failed one had started stays for the sidecar.\<close>

lemma failed_shared_start_stays:
  assumes "newEnv m w = (Inl e, closers, w1)" and "SkipReason (fst call) (snd call) = (reason, False)"
  shows "Postgres m call None w = (Fatal e failureAdvice, Some (Inl e), w1) \<and> live w1 = live w + mset closers"
  using assms newEnv_live by (auto simp: Postgres_def)

end

section \<open>What a test may rely on\<close>

definition pool_of :: "env \<Rightarrow> string \<Rightarrow> nat option" where
  "pool_of env role =
     (if role = tenantRole then TenantPool env else if role = publicRole then PublicPool env
      else if role = authRole then AuthPool env else None)"

text \<open>Every application role has a pool of its own, and that pool's connection answered with a role
  that is known, bound by policies, and not the owner.\<close>

definition bound_role :: "role_capabilities \<Rightarrow> string \<Rightarrow> bool" where
  "bound_role caps owner \<longleftrightarrow> rc_Name caps \<noteq> [] \<and> \<not> rc_Super caps \<and> \<not> rc_BypassRLS caps \<and> (owner = [] \<or> rc_Name caps \<noteq> owner)"

definition guarded_pools :: "'w machine \<Rightarrow> env \<Rightarrow> bool" where
  "guarded_pools m env \<longleftrightarrow> (\<forall>role \<in> {tenantRole, publicRole, authRole}. \<exists>p caps w.
     pool_of env role = Some p \<and> GuardedRoles env role = Some caps \<and> fst (query_capabilities m p w) = Inr caps
     \<and> bound_role caps ownerRole)"

lemma roles_distinct [simp]: "tenantRole \<noteq> publicRole" "tenantRole \<noteq> authRole" "publicRole \<noteq> authRole"
    "publicRole \<noteq> tenantRole" "authRole \<noteq> tenantRole" "authRole \<noteq> publicRole"
  by (simp_all add: tenantRole_def publicRole_def authRole_def)

lemma guardRole_bound: "guardRole label answer owner = Inr caps \<longleftrightarrow> answer = Inr caps \<and> bound_role caps owner"
  unfolding guardRole_Inr bound_role_def by simp

lemma guardRole_unbound: "guardRole label (Inr caps :: 'e + role_capabilities) owner = Inl e \<Longrightarrow> \<not> bound_role caps owner"
  using guardRole_bound [of label "Inr caps :: 'e + role_capabilities" owner caps] by auto

lemma open_roles_step: "open_roles m ((role, password, assign) # specs) env closers w = (Inr env', closers', w') \<longleftrightarrow>
    (\<exists>p w1 caps w2. openAppPool m env role password w = (Inr p, w1) \<and> query_capabilities m p w1 = (Inr caps, w2)
      \<and> bound_role caps (OwnerRole env)
      \<and> open_roles m specs (assign p (env\<lparr>guarded_roles := (guarded_roles env)(role \<mapsto> caps)\<rparr>)) (closers @ [Pool p]) w2
        = (Inr env', closers', w'))"
  by (auto simp: guardRole_bound dest: guardRole_unbound split: prod.splits sum.splits)

lemma open_roles_guarded:
  assumes "open_roles m role_specs env closers w = (Inr env', closers', w')" and "OwnerRole env = ownerRole"
  shows "guarded_pools m env'"
proof -
  from assms obtain p1 w1 c1 w2 p2 w3 c2 w4 p3 w5 c3 w6 where
    q: "query_capabilities m p1 w1 = (Inr c1, w2)" "query_capabilities m p2 w3 = (Inr c2, w4)" "query_capabilities m p3 w5 = (Inr c3, w6)"
    and g: "bound_role c1 ownerRole"
      "bound_role c2 ownerRole"
      "bound_role c3 ownerRole"
    and e: "TenantPool env' = Some p1" "PublicPool env' = Some p2" "AuthPool env' = Some p3"
      "guarded_roles env' = (guarded_roles env)(tenantRole \<mapsto> c1, publicRole \<mapsto> c2, authRole \<mapsto> c3)"
    unfolding role_specs_def open_roles_step by auto
  show ?thesis
    unfolding guarded_pools_def GuardedRoles_def e pool_of_def
    using q [THEN arg_cong [where f = fst]] g by auto
qed

lemma newEnv_guarded: "newEnv m w = (Inr env, closers, w') \<Longrightarrow> guarded_pools m env"
  by (auto simp: newEnv_def with_container_def Let_def dest!: open_roles_guarded split: sum.splits prod.splits option.splits)

section \<open>Sharing\<close>

text \<open>The tests of one package, one after another.\<close>

fun postgres_calls ::
  "'w machine \<Rightarrow> (bool \<times> (string \<Rightarrow> string)) list \<Rightarrow> (env_error + env) option \<Rightarrow> 'w \<Rightarrow> outcome list \<times> 'w" where
  "postgres_calls m [] shared w = ([], w)"
| "postgres_calls m (call # calls) shared w =
     (case Postgres m call shared w of (out, shared1, w1) \<Rightarrow> apfst (Cons out) (postgres_calls m calls shared1 w1))"

lemma SkipReason_iff: "snd (SkipReason short getenv) \<longleftrightarrow> short \<or> getenv skipEnvVar \<noteq> []"
  by (simp add: SkipReason_def)

lemma Postgres_started: "Postgres m call (Some r) w = (verdict r call, Some r, w)"
  by (auto simp: Postgres_def verdict_def split: prod.split bool.split sum.split)

lemma Postgres_first: "Postgres m call None w = (if snd (SkipReason (fst call) (snd call)) then (verdict r call, None, w)
    else (verdict (fst (newEnv m w)) call, Some (fst (newEnv m w)), snd (snd (newEnv m w))))"
  by (auto simp: Postgres_def verdict_def split: prod.split bool.split sum.split)

lemma calls_started: "postgres_calls m calls (Some r) w = (map (verdict r) calls, w)"
  by (induction calls) (simp_all add: Postgres_started)

lemma calls_from_start: "postgres_calls m calls None w = (map (verdict (fst (newEnv m w))) calls,
    if \<exists>call \<in> set calls. \<not> snd (SkipReason (fst call) (snd call)) then snd (snd (newEnv m w)) else w)"
proof (induction calls)
  case (Cons call calls)
  show ?case
    using Cons Postgres_first [of m call w "fst (newEnv m w)"] calls_started [of m calls "fst (newEnv m w)"]
    by (simp del: split_paired_All split_paired_Ex)
qed simp

text \<open>
  In CI as anywhere the harness skips when the hatch is open: only a package that asks
  \<^verbatim>\<open>GuardEscapeHatch\<close> first fails instead.
\<close>

lemma hatch_skips_in_ci:
  assumes "getenv skipEnvVar \<noteq> []" and "getenv ciEnvVar \<noteq> []"
  shows "GuardEscapeHatch getenv = Some ErrEscapeHatchInCI \<and> (\<exists>reason. Postgres m (False, getenv) shared w = (Skip reason, shared, w))"
  using assms by (simp add: GuardEscapeHatch_def Postgres_def SkipReason_def)

lemma truncated_length: "length (truncate s) \<le> 83"
  by (simp add: truncate_def)

text \<open>In any sequence of tests the database is started at most once, and every test that does not skip gets
  the result of that one start: ready, and then every application role has a pool whose own connection
  answered with a role that policies bind, or a failure. It skips exactly if the short mode or the
  escape hatch asks for it, never because something did not start.\<close>

theorem tests_share_one_guarded_start:
  "fst (postgres_calls m calls None w) = map (verdict (fst (newEnv m w))) calls
    \<and> snd (postgres_calls m calls None w) \<in> {w, snd (snd (newEnv m w))}
    \<and> (\<forall>env. fst (newEnv m w) = Inr env \<longrightarrow> guarded_pools m env)
    \<and> (\<forall>r short getenv. (\<exists>reason. verdict r (short, getenv) = Skip reason) \<longleftrightarrow> short \<or> getenv skipEnvVar \<noteq> [])"
proof -
  have "guarded_pools m env" if "fst (newEnv m w) = Inr env" for env
    using that newEnv_guarded [of m w env "fst (snd (newEnv m w))" "snd (snd (newEnv m w))"] by (metis prod.collapse)
  moreover have "(\<exists>reason. verdict r (short, getenv) = Skip reason) \<longleftrightarrow> short \<or> getenv skipEnvVar \<noteq> []" for r short getenv
    by (auto simp: verdict_def SkipReason_def split: sum.split)
  ultimately show ?thesis by (simp add: calls_from_start)
qed


section \<open>A machine\<close>

text \<open>
  The laws hold of a host that keeps the resources it handed out, fails where a script of faults says
  so, a run that fails late leaving its container behind, and answers a pool's query with the role its
  connection string names.
\<close>

record lab =
  lab_live :: "resource list"
  lab_next :: nat
  lab_faults :: "fault list"
  lab_roles :: "role_capabilities list"
  lab_users :: "nat \<rightharpoonup> string"
  lab_conn :: "role_table pgconn"

definition lab_fault :: "lab \<Rightarrow> fault \<times> lab" where
  "lab_fault w = (case lab_faults w of [] \<Rightarrow> (NoFault, w) | f # fs \<Rightarrow> (f, w\<lparr>lab_faults := fs\<rparr>))"

definition lab_start :: "(nat \<Rightarrow> resource) \<Rightarrow> lab \<Rightarrow> lab" where
  "lab_start kind w = w\<lparr>lab_live := kind (lab_next w) # lab_live w, lab_next := Suc (lab_next w)\<rparr>"

definition lab_stop :: "resource \<Rightarrow> lab \<Rightarrow> lab" where
  "lab_stop x w = w\<lparr>lab_live := remove1 x (lab_live w)\<rparr>"

definition lab_step :: "'a \<Rightarrow> lab \<Rightarrow> (string + 'a) \<times> lab" where
  "lab_step x w = (case lab_fault w of (f, w1) \<Rightarrow> (if f = NoFault then Inr x else Inl ''fault'', w1))"

definition lab_err :: "lab \<Rightarrow> string option \<times> lab" where
  "lab_err w = (case lab_fault w of (f, w1) \<Rightarrow> (if f = NoFault then None else Some ''fault'', w1))"

definition lab_new :: "(nat \<Rightarrow> resource) \<Rightarrow> (nat \<rightharpoonup> string) \<Rightarrow> lab \<Rightarrow> (string + nat) \<times> lab" where
  "lab_new kind users w =
     (case lab_fault w of (f, w1) \<Rightarrow>
        if f = NoFault then (Inr (lab_next w1), lab_start kind (w1\<lparr>lab_users := users\<rparr>)) else (Inl ''fault'', w1))"

definition lab_run :: "lab \<Rightarrow> (nat option \<times> string + nat) \<times> lab" where
  "lab_run w =
     (case lab_fault w of (f, w1) \<Rightarrow>
        (case f of
           NoFault \<Rightarrow> (Inr (lab_next w1), lab_start Container w1)
         | LoseAck \<Rightarrow> (Inl (Some (lab_next w1), ''not ready''), lab_start Container w1)
         | Refuse \<Rightarrow> (Inl (None, ''no daemon''), w1)))"

definition lab_caps :: "nat \<Rightarrow> lab \<Rightarrow> (string + role_capabilities) \<times> lab" where
  "lab_caps p w =
     (case lab_users w p of
        None \<Rightarrow> (Inl ''closed'', w)
      | Some user \<Rightarrow>
          (case readCapabilitiesSQL user (lab_roles w) of
             None \<Rightarrow> (Inl ''no rows'', w)
           | Some caps \<Rightarrow> lab_step caps w))"

definition lab_machine :: "lab machine" where
  "lab_machine = \<lparr>run_container = (\<lambda>i d u p. lab_run), connection_string = (\<lambda>c. lab_step ''postgres://h/d''),
     terminate = (\<lambda>c. lab_stop (Container c)),
     pool_new = (\<lambda>dsn w. lab_new Pool ((lab_users w)(lab_next w := map_option fst (url_userinfo dsn))) w),
     pool_ping = (\<lambda>p. lab_err), pool_exec = (\<lambda>p s. lab_err), pool_close = (\<lambda>p. lab_stop (Pool p)),
     query_capabilities = lab_caps, sql_open = (\<lambda>dsn w. lab_new Handle (lab_users w) w),
     handle_close = (\<lambda>h. lab_stop (Handle h)),
     provider_of = (\<lambda>h. \<lparr>new_provider = lab_err, goose_up = lab_err, goose_down_to = (\<lambda>v. lab_err), db_version = lab_step 17\<rparr>),
     on_handle = (\<lambda>h f w. case f (lab_conn w) of (e, c) \<Rightarrow> (e, w\<lparr>lab_conn := c\<rparr>)),
     new_uuid = (\<lambda>w. (word_of_nat (lab_next w), w\<lparr>lab_next := Suc (lab_next w)\<rparr>)),
     any_order = rev, valid_text = (\<lambda>s. True), sql_keyword = (\<lambda>s. False)\<rparr>"

lemma lab_fault_live: "lab_fault w = (f, w1) \<Longrightarrow> lab_live w1 = lab_live w"
  by (auto simp: lab_fault_def split: list.splits)

lemmas lab_defs = lab_machine_def lab_run_def lab_new_def lab_step_def lab_err_def lab_caps_def lab_start_def lab_stop_def

interpretation lab: machine lab_machine "\<lambda>w. mset (lab_live w)"
proof (unfold_locales, goal_cases)
  case (4 x w)
  then show ?case by (cases x) (simp_all add: lab_defs)
qed (auto simp: lab_defs dest!: lab_fault_live split: prod.splits option.splits fault.splits if_splits)

section \<open>Worked examples\<close>

definition app_role :: "string \<Rightarrow> bool \<Rightarrow> role_capabilities" where
  "app_role name bypass = \<lparr>rc_Name = name, rc_Super = False, rc_BypassRLS = bypass\<rparr>"

definition lab_with :: "bool \<Rightarrow> fault list \<Rightarrow> lab" where
  "lab_with bypass fs = \<lparr>lab_live = [], lab_next = 0, lab_faults = fs,
     lab_roles = [app_role tenantRole False, app_role publicRole False, app_role authRole bypass],
     lab_users = Map.empty,
     lab_conn = idle_conn [tenantRole \<mapsto> None, publicRole \<mapsto> None, authRole \<mapsto> None] 0 []\<rparr>"

lemma healthy_lab: "case fst (newEnv lab_machine (lab_with False [])) of Inl e \<Rightarrow> False
    | Inr env \<Rightarrow> TenantPool env = Some 5 \<and> PublicPool env = Some 6 \<and> AuthPool env = Some 7"
  by code_simp

text \<open>Three tests, the second in short mode: the other two share a guarded database.\<close>

theorem tests_share_one_guarded_start_witness:
  "\<exists>env. fst (postgres_calls lab_machine [(False, \<lambda>_. []), (True, \<lambda>_. []), (False, \<lambda>_. [])] None (lab_with False []))
      = [Ready env, Skip ''skipping: -short was requested and this test needs a container'', Ready env]
    \<and> guarded_pools lab_machine env \<and> TenantPool env = Some 5"
proof -
  from healthy_lab obtain env where env: "fst (newEnv lab_machine (lab_with False [])) = Inr env" "TenantPool env = Some 5"
    by (cases "fst (newEnv lab_machine (lab_with False []))") simp_all
  then show ?thesis
    using tests_share_one_guarded_start [of lab_machine "[(False, \<lambda>_. []), (True, \<lambda>_. []), (False, \<lambda>_. [])]" "lab_with False []"]
    by (simp add: verdict_def SkipReason_def)
qed

text \<open>The migrations fail: the container and the owner's pool are closed again, the handle already is.\<close>

lemma failing_lab: "fst (snd (PostgresIsolated lab_machine (False, \<lambda>_. [])
    (lab_with False [NoFault, NoFault, NoFault, NoFault, NoFault, NoFault, Refuse]))) = [Container 0, Pool 1]"
  by code_simp


end
