(* ===== verification/EngramIndex.thy ===== *)
theory EngramIndex imports GoText GoFmt "HOL-Library.List_Lexorder" "HOL-Library.Char_ord" "HOL-Library.Product_Lexorder"
  "HOL-Library.Multiset"
begin

text \<open>
  \<^verbatim>\<open>scripts/engram-index.go\<close>: reading the frontmatter of the notes, cutting a summary out of their
  text, and rendering the index with its three sections. Files are the record \<open>vault\<close>;
  \<^verbatim>\<open>sort.Slice\<close>, which is not stable, is an interface with the two laws its documentation gives, and
  the order a range over a map happens to take is an argument.
\<close>

section \<open>Notes\<close>

record memo =
  note_fields :: "string \<rightharpoonup> string"
  note_file :: string
  note_summary :: string
  note_link :: string

definition em_dash :: string where
  "em_dash = [CHR 0xE2, CHR 0x80, CHR 0x94]"

text \<open>Indexing the map of fields, and \<^verbatim>\<open>entry.get\<close>.\<close>

definition note_field :: "memo \<Rightarrow> string \<Rightarrow> string" where
  "note_field e key = (case note_fields e key of None \<Rightarrow> [] | Some v \<Rightarrow> v)"

definition note_get :: "memo \<Rightarrow> string \<Rightarrow> string" where
  "note_get e key = (case note_fields e key of Some v \<Rightarrow> if v \<noteq> [] then v else em_dash | None \<Rightarrow> em_dash)"

section \<open>Parsing\<close>

text \<open>
  \<^verbatim>\<open>frontmatterRe\<close>: the lazy group ends at the first place where the closing delimiter can follow.
  A line break is ASCII, so every place it starts at is the start of a rune.
\<close>

definition line_break :: "string \<Rightarrow> string option" where
  "line_break s = (case strip_prefix [CR, LF] s of Some r \<Rightarrow> Some r | None \<Rightarrow> strip_prefix [LF] s)"

definition closing :: "string \<Rightarrow> string option" where
  "closing s = Option.bind (line_break s) (\<lambda>s. Option.bind (strip_prefix ''---'' s) line_break)"

fun until_closing :: "string \<Rightarrow> (string \<times> string) option" where
  "until_closing [] = None"
| "until_closing (c # s) =
     (case closing (c # s) of
        Some body \<Rightarrow> Some ([], body)
      | None \<Rightarrow> map_option (apfst (Cons c)) (until_closing s))"

definition frontmatterRe :: "string \<Rightarrow> (string \<times> string) option" where
  "frontmatterRe s = Option.bind (strip_prefix ''---'' s) (\<lambda>s. Option.bind (line_break s) until_closing)"

text \<open>\<^verbatim>\<open>scalarRe\<close>: a dot does not match a line feed.\<close>

definition key_char :: "char \<Rightarrow> bool" where
  "key_char c \<longleftrightarrow> 97 \<le> nat_of_byte c \<and> nat_of_byte c \<le> 122 \<or> c = CHR ''_''"

definition scalarRe :: "string \<Rightarrow> (string \<times> string) option" where
  "scalarRe s =
     (let key = takeWhile key_char s in
      case strip_prefix '':'' (dropWhile key_char s) of
        None \<Rightarrow> None
      | Some rest \<Rightarrow>
          (let value = dropWhile re_space rest in
           if key = [] \<or> LF \<in> set value then None else Some (key, value)))"

definition trim_in :: "string \<Rightarrow> string \<Rightarrow> string" where
  "trim_in cutset s = trim_right_in cutset (dropWhile (\<lambda>c. c \<in> set cutset) s)"

definition parse_fields :: "string \<Rightarrow> string \<rightharpoonup> string" where
  "parse_fields block =
     foldl (\<lambda>fields line.
         (case scalarRe (trim_right_in [CR] line) of
            Some (key, value) \<Rightarrow> fields(key \<mapsto> trim_in [CHR 0x22] (trim_space value))
          | None \<Rightarrow> fields))
       Map.empty (split_on LF block)"

section \<open>Summaries\<close>

definition summaryLimit :: nat where "summaryLimit = 130"

definition markup :: "string \<Rightarrow> bool" where
  "markup line \<longleftrightarrow> strip_prefix ''#'' line \<noteq> None \<or> strip_prefix ''---'' line \<noteq> None
     \<or> strip_prefix ''|'' line \<noteq> None \<or> strip_prefix ''>'' line \<noteq> None"

text \<open>The loop over the lines, with the paragraph so far.\<close>

fun first_paragraph :: "string list \<Rightarrow> string list \<Rightarrow> string list" where
  "first_paragraph paragraph [] = paragraph"
| "first_paragraph paragraph (raw # lines) =
     (let line = trim_space raw in
      if markup line then first_paragraph paragraph lines
      else if line = [] then (if length paragraph > 0 then paragraph else first_paragraph paragraph lines)
      else first_paragraph (paragraph @ [line]) lines)"

text \<open>\<^verbatim>\<open>strings.NewReplacer("**", "", "|", "/", "`", "")\<close>, which goes over the text once.\<close>

definition plain_char :: "char \<Rightarrow> string" where
  "plain_char c = (if c = CHR ''|'' then ''/'' else if c = CHR ''`'' then [] else [c])"

fun plain_text :: "string \<Rightarrow> string" where
  "plain_text [] = []"
| "plain_text [c] = plain_char c"
| "plain_text (c # d # s) =
     (if c = CHR ''*'' \<and> d = CHR ''*'' then plain_text s else plain_char c @ plain_text (d # s))"

definition summarize :: "string \<Rightarrow> string" where
  "summarize body =
     (let paragraph = first_paragraph [] (split_on LF body) in
      if length paragraph = 0 then em_dash
      else let text = trim_space (squeeze False (plain_text (join_text '' '' paragraph))) in
        if length (runes text) \<le> summaryLimit then text
        else trim_right_in '' ,.;:'' (concat (take (summaryLimit - 1) (runes text))) @ ellipsis)"

definition parse_note :: "string \<Rightarrow> string \<Rightarrow> string \<Rightarrow> memo option" where
  "parse_note linkPrefix base content =
     (case frontmatterRe content of
        None \<Rightarrow> None
      | Some (block, body) \<Rightarrow>
          Some \<lparr>note_fields = parse_fields block, note_file = base, note_summary = summarize body,
                note_link = linkPrefix @ base\<rparr>)"

section \<open>Sorting\<close>

text \<open>
  The documentation of \<^verbatim>\<open>sort.Slice\<close>: the slice is permuted, and sorted if the comparison is a
  strict weak order. Elements that compare equal may come out in any order.
\<close>

locale sort_Slice =
  fixes sort_slice :: "('a \<Rightarrow> 'a \<Rightarrow> bool) \<Rightarrow> 'a list \<Rightarrow> 'a list"
  assumes keeps: "mset (sort_slice lt xs) = mset xs"
    and sorts: "asymp lt \<Longrightarrow> transp lt \<Longrightarrow> (\<And>a b c. lt a c \<Longrightarrow> lt a b \<or> lt b c)
      \<Longrightarrow> sorted_wrt (\<lambda>a b. \<not> lt b a) (sort_slice lt xs)"
begin

lemma keeps_set [simp]: "set (sort_slice lt xs) = set xs"
  using keeps by (rule mset_eq_setD)

lemma by_key:
  fixes f :: "'a \<Rightarrow> 'b :: linorder"
  assumes "\<And>a b. lt a b \<longleftrightarrow> f a < f b"
  shows "sorted (map f (sort_slice lt xs))"
proof -
  have "sorted_wrt (\<lambda>a b. \<not> lt b a) (sort_slice lt xs)"
    by (rule sorts) (auto simp: assms asymp_on_def transp_on_def)
  then show ?thesis by (simp add: assms sorted_map not_less)
qed

text \<open>With a key that tells the elements apart the result does not depend on the implementation.\<close>

lemma is_sort_key:
  fixes f :: "'a \<Rightarrow> 'b :: linorder"
  assumes "\<And>a b. lt a b \<longleftrightarrow> f a < f b" and "inj_on f (set xs)" and "mset zs = mset xs"
  shows "sort_slice lt zs = sort_key f xs"
proof (rule properties_for_sort_key [symmetric])
  have set: "set zs = set xs" using assms(3) by (rule mset_eq_setD)
  fix k assume "k \<in> set (sort_slice lt zs)"
  then have k: "k \<in> set xs" by (simp add: set)
  have "filter (\<lambda>x. f k = f x) ys = replicate (count (mset ys) k) k" if "set ys = set xs" for ys
  proof -
    have "filter (\<lambda>x. f k = f x) ys = filter (\<lambda>x. k = x) ys"
      using that k by (intro filter_cong) (auto simp: inj_on_eq_iff [OF assms(2)])
    then show ?thesis by (simp add: count_mset count_list_eq_length_filter replicate_length_filter)
  qed
  then show "filter (\<lambda>x. f k = f x) (sort_slice lt zs) = filter (\<lambda>x. f k = f x) xs" by (simp add: keeps assms(3) set)
qed (use keeps assms(3) by_key [OF assms(1)] in auto)

end

text \<open>Insertion sort, as the package itself sorts up to twelve elements.\<close>

fun insert_less :: "('a \<Rightarrow> 'a \<Rightarrow> bool) \<Rightarrow> 'a \<Rightarrow> 'a list \<Rightarrow> 'a list" where
  "insert_less lt x [] = [x]"
| "insert_less lt x (y # ys) = (if lt x y then x # y # ys else y # insert_less lt x ys)"

definition insertion_sort :: "('a \<Rightarrow> 'a \<Rightarrow> bool) \<Rightarrow> 'a list \<Rightarrow> 'a list" where
  "insertion_sort lt xs = foldl (\<lambda>s x. insert_less lt x s) [] xs"

lemma mset_insert_less: "mset (insert_less lt x xs) = add_mset x (mset xs)"
  by (induction xs) auto

lemma sorted_insert_less:
  assumes "transp lt" and "asymp lt" and "sorted_wrt (\<lambda>a b. \<not> lt b a) xs"
  shows "sorted_wrt (\<lambda>a b. \<not> lt b a) (insert_less lt x xs)"
  using assms(3)
proof (induction xs)
  case (Cons y ys)
  have "set (insert_less lt x ys) = insert x (set ys)"
    using mset_insert_less [of lt x ys] by (metis set_mset_add_mset_insert set_mset_mset)
  moreover have "\<not> lt z x" if "lt x y" "z \<in> set (y # ys)" for z
    using that Cons.prems transpD [OF assms(1), of z x y] asympD [OF assms(2), of x y] by auto
  ultimately show ?case using Cons by (cases "lt x y") auto
qed simp

interpretation insertion: sort_Slice insertion_sort
proof
  show "mset (insertion_sort lt xs) = mset xs" for lt and xs :: "'a list"
    by (induction xs rule: rev_induct) (simp_all add: insertion_sort_def mset_insert_less)
  show "sorted_wrt (\<lambda>a b. \<not> lt b a) (insertion_sort lt xs)" if "asymp lt" "transp lt" for lt and xs :: "'a list"
    using that by (induction xs rule: rev_induct) (simp_all add: insertion_sort_def sorted_insert_less)
qed

section \<open>The index\<close>

definition saved_of :: "memo list \<Rightarrow> memo list" where
  "saved_of es = filter (\<lambda>e. note_field e ''observation_id'' \<noteq> []) es"

definition discarded_of :: "memo list \<Rightarrow> memo list" where
  "discarded_of es = filter (\<lambda>e. note_field e ''observation_id'' = [] \<and> note_field e ''disposition'' \<noteq> []) es"

definition pending_of :: "memo list \<Rightarrow> memo list" where
  "pending_of es = filter (\<lambda>e. note_field e ''observation_id'' = [] \<and> note_field e ''disposition'' = []) es"

definition less_file :: "memo \<Rightarrow> memo \<Rightarrow> bool" where
  "less_file a b \<longleftrightarrow> note_file a < note_file b"

definition less_task :: "memo \<Rightarrow> memo \<Rightarrow> bool" where
  "less_task a b \<longleftrightarrow>
     (if note_get a ''task'' \<noteq> note_get b ''task'' then note_get a ''task'' < note_get b ''task''
      else note_file a < note_file b)"

definition note_namespace :: "memo \<Rightarrow> string" where
  "note_namespace e =
     (let topic = note_get e ''topic_key''; segments = split_on CHR ''/'' topic in
      if length segments > 2 then join_with CHR ''/'' (take 2 segments) else topic)"

definition replacement_of :: "memo \<Rightarrow> string" where
  "replacement_of e =
     (let r = note_field e ''superseded_by'';
          r' = (case cut_on CHR ''#'' r of (before, _, found) \<Rightarrow> if found then trim_space before else r) in
      if r' = [] then em_dash else r')"

type_synonym sorter = "(memo \<Rightarrow> memo \<Rightarrow> bool) \<Rightarrow> memo list \<Rightarrow> memo list"

definition pending_table :: "sorter \<Rightarrow> memo list \<Rightarrow> memo list" where
  "pending_table srt es = srt less_file (pending_of es)"

definition discarded_table :: "sorter \<Rightarrow> memo list \<Rightarrow> memo list" where
  "discarded_table srt es = srt less_file (discarded_of es)"

text \<open>The keys of \<^verbatim>\<open>byNamespace\<close> in the order the range takes, sorted; and the group of one.\<close>

definition namespaces :: "(string list \<Rightarrow> string list) \<Rightarrow> memo list \<Rightarrow> string list" where
  "namespaces order es = sort (order (remdups (map note_namespace (saved_of es))))"

definition saved_table :: "sorter \<Rightarrow> memo list \<Rightarrow> string \<Rightarrow> memo list" where
  "saved_table srt es ns = srt less_task (filter (\<lambda>e. note_namespace e = ns) (saved_of es))"

definition intro_text :: string where
  "intro_text =
     ''# '' @ [CHR 0xC3, CHR 0x8D] @ ''ndice de memoria '' @ [CHR 0xE2, CHR 0x80, CHR 0x94] @ '' Engram'' @ [LF, LF]
     @ ''> **Generado por `make engram-index`. No editar a mano.**'' @ [LF]
     @ ''> Fuente: `docs/vault/70-conocimiento/*.md` (aprobadas) y `.engram/queue/*.md` (pendientes).'' @ [LF, LF]
     @ ''Engram es un '' @ [CHR 0xC3, CHR 0xAD] @ ''ndice sem'' @ [CHR 0xC3, CHR 0xA1] @ ''ntico que vive **fuera del repositorio**, en una base'' @ [LF]
     @ ''SQLite local (`~/.engram/`). No viaja con un clone: quien clone este repo'' @ [LF]
     @ ''obtiene **cero** observaciones. Este archivo y las notas que enumera son lo que'' @ [LF]
     @ ''hace que el conocimiento viaje '' @ [CHR 0xE2, CHR 0x80, CHR 0x94] @ '' regla IA-4: el repositorio es la verdad operativa.'' @ [LF, LF]
     @ ''**El texto completo de cada decisi'' @ [CHR 0xC3, CHR 0xB3] @ ''n vive en `70-conocimiento/`**, dentro del'' @ [LF]
     @ ''vault, con enlaces ['' @ ''[wiki]'' @ ''] que resuelven en el grafo. El `observation_id` nombra'' @ [LF]
     @ ''la misma nota dentro de Engram: es trazabilidad, no un requisito para leerla.'' @ [LF, LF]"

definition counts_text :: "memo list \<Rightarrow> string" where
  "counts_text es =
     ''- Candidatos totales: **'' @ decimal (length es) @ ''**'' @ [LF]
     @ ''- Aprobados y guardados en Engram: **'' @ decimal (length (saved_of es)) @ ''**'' @ [LF]
     @ ''- Pendientes de aprobaci'' @ [CHR 0xC3, CHR 0xB3] @ ''n expl'' @ [CHR 0xC3, CHR 0xAD] @ ''cita del usuario: **'' @ decimal (length (pending_of es)) @ ''**'' @ [LF]
     @ ''- Descartados por el pase de curadur'' @ [CHR 0xC3, CHR 0xAD] @ ''a: **'' @ decimal (length (discarded_of es)) @ ''**'' @ [LF, LF]"

definition pending_head :: string where
  "pending_head =
     ''## Pendientes de aprobaci'' @ [CHR 0xC3, CHR 0xB3] @ ''n'' @ [LF, LF]
     @ ''Nada de esto est'' @ [CHR 0xC3, CHR 0xA1] @ '' en Engram todav'' @ [CHR 0xC3, CHR 0xAD] @ ''a. Requiere el s'' @ [CHR 0xC3, CHR 0xAD] @ '' expl'' @ [CHR 0xC3, CHR 0xAD] @ ''cito del usuario'' @ [LF]
     @ ''antes de `mem_save` ('' @ [CHR 0xC2, CHR 0xA7] @ ''6.6 del plan maestro).'' @ [LF, LF]
     @ ''| Tarea | Tipo | Score | Archivo | Qu'' @ [CHR 0xC3, CHR 0xA9] @ '' dice |'' @ [LF]
     @ ''|---|---|---|---|---|'' @ [LF]"

definition discarded_head :: string where
  "discarded_head =
     ''## Descartados '' @ [CHR 0xE2, CHR 0x80, CHR 0x94] @ '' NO guardar'' @ [LF, LF]
     @ ''El pase de curadur'' @ [CHR 0xC3, CHR 0xAD] @ ''a los rechaz'' @ [CHR 0xC3, CHR 0xB3] @ ''. **No tienen `observation_id` porque fueron'' @ [LF]
     @ ''descartados, no porque esperen aprobaci'' @ [CHR 0xC3, CHR 0xB3] @ ''n.** Guardarlos meter'' @ [CHR 0xC3, CHR 0xAD] @ ''a en Engram'' @ [LF]
     @ ''exactamente lo que la columna de abajo explica que est'' @ [CHR 0xC3, CHR 0xA1] @ '' mal.'' @ [LF, LF]
     @ ''| Tarea | Archivo | Por qu'' @ [CHR 0xC3, CHR 0xA9] @ '' se descart'' @ [CHR 0xC3, CHR 0xB3] @ '' | Reemplazado por |'' @ [LF]
     @ ''|---|---|---|---|'' @ [LF]"

definition saved_head :: string where
  "saved_head =
     ''| Tarea | `topic_key` | Score | Archivo | `observation_id` | Qu'' @ [CHR 0xC3, CHR 0xA9] @ '' dice |'' @ [LF]
     @ ''|---|---|---|---|---|---|'' @ [LF]"

definition pending_row :: "memo \<Rightarrow> string" where
  "pending_row e = ''| `'' @ note_get e ''task'' @ ''` | '' @ note_get e ''type'' @ '' | '' @ note_get e ''score'' @ '' | ['' @ note_file e @ '']('' @ note_link e @ '') | '' @ note_summary e @ '' |'' @ [LF]"

definition discarded_row :: "memo \<Rightarrow> string" where
  "discarded_row e = ''| `'' @ note_get e ''task'' @ ''` | ['' @ note_file e @ '']('' @ note_link e @ '') | '' @ note_get e ''disposition'' @ '' | `'' @ replacement_of e @ ''` |'' @ [LF]"

definition saved_row :: "memo \<Rightarrow> string" where
  "saved_row e = ''| `'' @ note_get e ''task'' @ ''` | `'' @ [CHR 0xE2, CHR 0x80, CHR 0xA6] @ ''/'' @ last (split_on CHR ''/'' (note_get e ''topic_key'')) @ ''` | '' @ note_get e ''score'' @ '' | ['' @ note_file e @ '']('' @ note_link e @ '') | `'' @ note_field e ''observation_id'' @ ''` | '' @ note_summary e @ '' |'' @ [LF]"

definition saved_section :: "string \<Rightarrow> memo list \<Rightarrow> string" where
  "saved_section ns rows = ''### `'' @ ns @ ''/*` '' @ [CHR 0xE2, CHR 0x80, CHR 0x94] @ '' '' @ decimal (length rows) @ [LF, LF] @ saved_head @ concat (map saved_row rows) @ [LF]"

definition render :: "sorter \<Rightarrow> (string list \<Rightarrow> string list) \<Rightarrow> memo list \<Rightarrow> string" where
  "render srt order es =
     intro_text @ counts_text es
     @ (if length (pending_of es) > 0
        then pending_head @ concat (map pending_row (pending_table srt es)) @ [LF] else [])
     @ (if length (discarded_of es) > 0
        then discarded_head @ concat (map discarded_row (discarded_table srt es)) @ [LF] else [])
     @ ''## Guardadas'' @ [LF, LF]
     @ concat (map (\<lambda>ns. saved_section ns (saved_table srt es ns)) (namespaces order es))"

section \<open>The run\<close>

record vault =
  cwd :: "string + string list"
  exists_in :: "string list \<Rightarrow> string \<Rightarrow> bool"
  glob_md :: "string list \<Rightarrow> string + string list"
  read_note :: "string list \<Rightarrow> string \<Rightarrow> string + string"
  mkdir_all :: "string list \<Rightarrow> string option"
  write_index :: "string list \<Rightarrow> string \<Rightarrow> string option"

text \<open>An absolute directory is the list of its names, innermost first in \<open>index_root_from\<close>.\<close>

fun index_root_from :: "vault \<Rightarrow> string list \<Rightarrow> string list option" where
  "index_root_from v [] = (if exists_in v [] ''PROJECT_STATE.md'' then Some [] else None)"
| "index_root_from v (name # up) =
     (if exists_in v (rev (name # up)) ''PROJECT_STATE.md'' then Some (rev (name # up)) else index_root_from v up)"

definition index_root :: "vault \<Rightarrow> string + string list" where
  "index_root v =
     (case cwd v of
        Inl err \<Rightarrow> Inl err
      | Inr dir \<Rightarrow>
          (case index_root_from v (rev dir) of
             None \<Rightarrow> Inl ''repository root not found: no PROJECT_STATE.md in any parent''
           | Some root \<Rightarrow> Inr root))"

definition knowledge_prefix :: string where "knowledge_prefix = ''../70-conocimiento/''"

definition queue_prefix :: string where "queue_prefix = ''../../../.engram/queue/''"

definition sources :: "(string list \<times> string) list" where
  "sources = [([''docs'', ''vault'', ''70-conocimiento''], knowledge_prefix), ([''.engram'', ''queue''], queue_prefix)]"

text \<open>
  The files of one source, whose paths differ in their last name only, so that sorting paths is
  sorting names: the warnings and the notes so far, or an error.
\<close>

fun load_files :: "vault \<Rightarrow> string list \<Rightarrow> string \<Rightarrow> string list \<Rightarrow> string list \<times> memo list \<Rightarrow> string list \<times> (string + memo list)" where
  "load_files v dir prefix [] (ws, es) = (ws, Inr es)"
| "load_files v dir prefix (name # names) (ws, es) =
     (case read_note v dir name of
        Inl err \<Rightarrow> (ws, Inl err)
      | Inr content \<Rightarrow>
          (case parse_note prefix name content of
             None \<Rightarrow> load_files v dir prefix names (ws @ [''warning: no frontmatter in '' @ name @ '', skipped''], es)
           | Some e \<Rightarrow>
               if prefix = knowledge_prefix \<and> note_field e ''observation_id'' = [] \<and> note_field e ''disposition'' = []
               then load_files v dir prefix names
                 (ws @ [''warning: '' @ note_file e @ '' is in the vault with neither observation_id nor disposition, skipped''], es)
               else load_files v dir prefix names (ws, es @ [e])))"

fun load_sources :: "vault \<Rightarrow> string list \<Rightarrow> (string list \<times> string) list \<Rightarrow> string list \<times> memo list \<Rightarrow> string list \<times> (string + memo list)" where
  "load_sources v root [] (ws, es) = (ws, Inr es)"
| "load_sources v root ((dir, prefix) # srcs) (ws, es) =
     (case glob_md v (root @ dir) of
        Inl err \<Rightarrow> (ws, Inl err)
      | Inr names \<Rightarrow>
          (case load_files v (root @ dir) prefix (sort names) (ws, es) of
             (ws', Inl err) \<Rightarrow> (ws', Inl err)
           | (ws', Inr es') \<Rightarrow> load_sources v root srcs (ws', es')))"

text \<open>What a run leaves: its exit status, the lines on both streams, and the text it put in the index.\<close>

record index_run =
  run_exit :: nat
  run_err :: "string list"
  run_out :: "string list"
  run_index :: "string option"

definition index_fail :: "string list \<Rightarrow> string \<Rightarrow> index_run" where
  "index_fail ws err = \<lparr>run_exit = 1, run_err = ws @ [err], run_out = [], run_index = None\<rparr>"

definition index_dir :: "string list" where "index_dir = [''docs'', ''vault'', ''20-arquitectura'']"

definition engram_index :: "sorter \<Rightarrow> (string list \<Rightarrow> string list) \<Rightarrow> vault \<Rightarrow> index_run" where
  "engram_index srt order v =
     (case index_root v of
        Inl err \<Rightarrow> index_fail [] err
      | Inr root \<Rightarrow>
          (case load_sources v root sources ([], []) of
             (ws, Inl err) \<Rightarrow> index_fail ws err
           | (ws, Inr es) \<Rightarrow>
               if length es = 0 then index_fail ws ''no notes found under docs/vault/70-conocimiento or .engram/queue''
               else (case mkdir_all v (root @ index_dir) of
                   Some err \<Rightarrow> index_fail ws err
                 | None \<Rightarrow>
                     (case write_index v (root @ index_dir @ [''indice-engram.md'']) (render srt order es) of
                        Some err \<Rightarrow> index_fail ws err
                      | None \<Rightarrow>
                          \<lparr>run_exit = 0, run_err = ws,
                           run_out = [''wrote docs/vault/20-arquitectura/indice-engram.md ('' @ decimal (length es) @ '' entries)''],
                           run_index = Some (render srt order es)\<rparr>))))"

section \<open>A summary is one cell\<close>

lemma plain_text_set: "c \<in> set (plain_text s) \<Longrightarrow> c \<noteq> CHR ''|'' \<and> c \<noteq> CHR ''`'' \<and> (c = CHR ''/'' \<or> c \<in> set s)"
  by (induction s rule: plain_text.induct) (auto simp: plain_char_def split: if_splits)

lemma squeeze_no_break: "c \<in> set (squeeze b s) \<Longrightarrow> c = CHR '' '' \<or> \<not> re_space c \<and> c \<in> set s"
  by (induction b s rule: squeeze.induct) (auto split: if_splits)

definition cell_char :: "char \<Rightarrow> bool" where
  "cell_char c \<longleftrightarrow> c \<noteq> CHR ''|'' \<and> c \<noteq> CHR ''`'' \<and> (re_space c \<longrightarrow> c = CHR '' '')"

lemma text_cells: "c \<in> set (trim_space (squeeze False (plain_text s))) \<Longrightarrow> cell_char c"
  by (auto simp: cell_char_def re_space_def dest!: subsetD [OF trim_space_set] squeeze_no_break plain_text_set)

lemma constant_cells: "\<forall>c \<in> set (replacement @ ellipsis @ em_dash). cell_char c"
  by code_simp

text \<open>The summary of any note is one table cell: no bar, no backtick, no line break, no white space but
  blanks, and at most 130 runes, whatever bytes the note has.\<close>

theorem summary_is_one_cell:
  "(\<forall>c \<in> set (summarize body). cell_char c) \<and> length (runes (summarize body)) \<le> summaryLimit"
proof -
  define t where "t = trim_space (squeeze False (plain_text (join_text '' '' (first_paragraph [] (split_on LF body)))))"
  have t: "\<forall>c \<in> set t. cell_char c" using text_cells by (auto simp: t_def)
  have dash: "length (runes em_dash) \<le> summaryLimit" by code_simp
  have "set (concat (take (summaryLimit - 1) (runes t))) \<subseteq> set (concat (runes t))"
    using set_take_subset [of "summaryLimit - 1" "runes t"] by auto
  then have cut: "set (trim_right_in '' ,.;:'' (concat (take (summaryLimit - 1) (runes t)))) \<subseteq> set replacement \<union> set t"
    using trim_right_in_set concat_take_runes_set by (meson subset_trans)
  have len: "length (runes (trim_right_in '' ,.;:'' (concat (take (summaryLimit - 1) (runes t))) @ ellipsis)) \<le> summaryLimit"
    using cut_length [of "'' ,.;:''" "summaryLimit - 1" t] by (simp add: nat_of_byte_def summaryLimit_def)
  have "summarize body = em_dash \<or> summarize body = t \<and> length (runes t) \<le> summaryLimit
      \<or> summarize body = trim_right_in '' ,.;:'' (concat (take (summaryLimit - 1) (runes t))) @ ellipsis"
    by (auto simp: summarize_def t_def Let_def)
  then show ?thesis using t cut len dash constant_cells by (elim disjE) (auto simp: subset_iff)
qed

section \<open>Every note is listed once\<close>

lemma less_task_key: "less_task a b \<longleftrightarrow> (note_get a ''task'', note_file a) < (note_get b ''task'', note_file b)"
  by (auto simp: less_task_def less_prod_def)

lemma mset_groups: "distinct ks \<Longrightarrow>
    mset (concat (map (\<lambda>k. filter (\<lambda>e. f e = k) xs) ks)) = mset (filter (\<lambda>e. f e \<in> set ks) xs)"
proof (induction ks)
  case (Cons k ks)
  have "filter (\<lambda>e. f e \<in> set (k # ks)) xs = filter (\<lambda>e. f e = k \<or> f e \<in> set ks) xs" by simp
  moreover have "mset (filter (\<lambda>e. f e = k \<or> f e \<in> set ks) xs)
      = mset (filter (\<lambda>e. f e = k) xs) + mset (filter (\<lambda>e. f e \<in> set ks) xs)"
    using Cons.prems by (induction xs) auto
  ultimately show ?case using Cons by simp
qed simp

lemma mset_sections: "mset (pending_of es) + mset (discarded_of es) + mset (saved_of es) = mset es"
  by (induction es) (simp_all add: pending_of_def discarded_of_def saved_of_def)

text \<open>The rows of the tables, from top to bottom.\<close>

definition listed :: "sorter \<Rightarrow> (string list \<Rightarrow> string list) \<Rightarrow> memo list \<Rightarrow> memo list" where
  "listed srt order es =
     pending_table srt es @ discarded_table srt es @ concat (map (saved_table srt es) (namespaces order es))"

lemma namespaces_facts:
  assumes "\<And>ks. mset (order ks) = mset ks"
  shows "set (namespaces order es) = note_namespace ` set (saved_of es)" "distinct (namespaces order es)"
proof -
  let ?ks = "remdups (map note_namespace (saved_of es))"
  show "set (namespaces order es) = note_namespace ` set (saved_of es)"
    using mset_eq_setD [OF assms [of ?ks]] by (simp add: namespaces_def)
  show "distinct (namespaces order es)"
    using mset_eq_imp_distinct_iff [OF assms [of ?ks]] by (simp add: namespaces_def)
qed

lemma listed_once:
  assumes "sort_Slice srt" and "\<And>ks. mset (order ks) = mset ks"
  shows "mset (listed srt order es) = mset es"
proof -
  note keeps = sort_Slice.keeps [OF assms(1)]
  note ns = namespaces_facts [where es = es, OF assms(2)]
  have "mset (concat (map (saved_table srt es) ks)) = mset (concat (map (\<lambda>k. filter (\<lambda>e. note_namespace e = k) (saved_of es)) ks))" for ks
    by (induction ks) (simp_all add: saved_table_def keeps)
  also have "mset (concat (map (\<lambda>k. filter (\<lambda>e. note_namespace e = k) (saved_of es)) (namespaces order es))) = mset (saved_of es)"
    unfolding mset_groups [OF ns(2)] using ns(1) by (simp add: filter_id_conv)
  finally show ?thesis
    using mset_sections [of es] by (simp add: listed_def pending_table_def discarded_table_def keeps ac_simps)
qed

section \<open>The text depends on the notes alone\<close>

lemma same_order:
  assumes "sort_Slice srt" and "sort_Slice srt'" and "\<And>a b. lt a b \<longleftrightarrow> f a < (f b :: 'b :: linorder)"
    and "mset xs = mset ys" and "inj_on f (set xs)"
  shows "srt lt xs = srt' lt ys"
  using sort_Slice.is_sort_key [OF assms(1,3,5) refl] sort_Slice.is_sort_key [OF assms(2,3,5) assms(4) [symmetric]] by simp

lemma sections_mset:
  "mset es = mset es' \<Longrightarrow> mset (pending_of es) = mset (pending_of es')"
  "mset es = mset es' \<Longrightarrow> mset (discarded_of es) = mset (discarded_of es')"
  "mset es = mset es' \<Longrightarrow> mset (saved_of es) = mset (saved_of es')"
  by (simp_all add: pending_of_def discarded_of_def saved_of_def)

lemma inj_filter: "distinct (map g es) \<Longrightarrow> inj_on g (set (filter P es))"
  by (auto simp: distinct_map intro: inj_on_subset)

lemma same_namespaces:
  assumes "\<And>ks. mset (order ks) = mset ks" and "\<And>ks. mset (order' ks) = mset ks" and "mset es = mset es'"
  shows "namespaces order es = namespaces order' es'"
proof (rule sorted_distinct_set_unique)
  show "set (namespaces order es) = set (namespaces order' es')"
    using mset_eq_setD [OF sections_mset(3) [OF assms(3)]] namespaces_facts(1) [OF assms(1)] namespaces_facts(1) [OF assms(2)] by simp
qed (use namespaces_facts(2) assms(1,2) in \<open>auto simp: namespaces_def\<close>)

text \<open>Every note that was read has exactly one row, in the section its fields say. With no two notes of
  one file name the text is a function of the set of notes: neither the order they were read in, nor
  that of the map, nor the sorting algorithm shows, so generating it again changes nothing.\<close>

theorem index_is_canonical:
  assumes srt: "sort_Slice srt" "sort_Slice srt'"
    and order: "\<And>ks. mset (order ks) = mset ks" "\<And>ks. mset (order' ks) = mset ks"
    and same: "mset es = mset es'" and files: "distinct (map note_file es)"
  shows "render srt order es = render srt' order' es' \<and> mset (listed srt order es) = mset es
    \<and> set (pending_table srt es) = set (pending_of es) \<and> set (discarded_table srt es) = set (discarded_of es)"
proof -
  have inj: "inj_on note_file (set (filter P es))" "inj_on (\<lambda>e. (note_get e ''task'', note_file e)) (set (filter P es))" for P
    using inj_filter [OF files, of P] by (auto simp: inj_on_def)
  have "pending_table srt es = pending_table srt' es'"
    unfolding pending_table_def by (rule same_order [OF srt less_file_def sections_mset(1) [OF same]]) (simp only: pending_of_def inj)
  moreover have "discarded_table srt es = discarded_table srt' es'"
    unfolding discarded_table_def
    by (rule same_order [OF srt less_file_def sections_mset(2) [OF same]]) (simp only: discarded_of_def inj)
  moreover have "saved_table srt es ns = saved_table srt' es' ns" for ns
    unfolding saved_table_def
    by (rule same_order [OF srt less_task_key]) (simp add: sections_mset(3) [OF same], simp only: saved_of_def filter_filter inj)
  moreover note sections_mset [OF same, THEN mset_eq_length] mset_eq_length [OF same]
  ultimately have "render srt order es = render srt' order' es'"
    by (simp only: render_def counts_text_def same_namespaces [OF order same])
  then show ?thesis
    using listed_once [OF srt(1) order(1)] sort_Slice.keeps_set [OF srt(1)] by (simp add: pending_table_def discarded_table_def)
qed

section \<open>A run\<close>

lemma load_files_all:
  assumes "\<And>e. note_link e = prefix @ note_file e \<Longrightarrow>
      prefix = knowledge_prefix \<longrightarrow> note_field e ''observation_id'' \<noteq> [] \<or> note_field e ''disposition'' \<noteq> [] \<Longrightarrow> P e"
  shows "load_files v dir prefix names (ws, es) = (ws', Inr es') \<Longrightarrow> \<forall>e \<in> set es. P e \<Longrightarrow> \<forall>e \<in> set es'. P e"
proof (induction names arbitrary: ws es)
  case (Cons name names)
  have link: "note_link e = prefix @ note_file e" if "parse_note prefix name content = Some e" for e content
    using that by (auto simp: parse_note_def split: option.splits)
  show ?case
  proof (cases "\<exists>content e. read_note v dir name = Inr content \<and> parse_note prefix name content = Some e
      \<and> \<not> (prefix = knowledge_prefix \<and> note_field e ''observation_id'' = [] \<and> note_field e ''disposition'' = [])")
    case True
    then obtain content e where e: "read_note v dir name = Inr content" "parse_note prefix name content = Some e"
      "\<not> (prefix = knowledge_prefix \<and> note_field e ''observation_id'' = [] \<and> note_field e ''disposition'' = [])" by blast
    have "P e" by (rule assms [OF link [OF e(2)]]) (use e(3) in blast)
    then have p: "\<forall>x \<in> set (es @ [e]). P x" using Cons.prems(2) by simp
    have l: "load_files v dir prefix names (ws, es @ [e]) = (ws', Inr es')"
      using Cons.prems(1) by (simp only: load_files.simps e(1,2) sum.case option.case if_not_P [OF e(3)])
    show ?thesis by (rule Cons.IH [OF l p])
  next
    case False
    obtain content where content: "read_note v dir name = Inr content"
      using Cons.prems(1) by (cases "read_note v dir name") auto
    have "\<exists>ws2. load_files v dir prefix names (ws2, es) = (ws', Inr es')"
    proof (cases "parse_note prefix name content")
      case None
      with content Cons.prems(1) show ?thesis by (simp only: load_files.simps sum.case option.case) blast
    next
      case (Some e)
      with content False have "prefix = knowledge_prefix \<and> note_field e ''observation_id'' = [] \<and> note_field e ''disposition'' = []"
        by blast
      with content Some Cons.prems(1) show ?thesis by (simp only: load_files.simps sum.case option.case if_True simp_thms) blast
    qed
    with Cons.IH Cons.prems(2) show ?thesis by blast
  qed
qed simp

lemma load_sources_notes:
  assumes "load_sources v root sources ([], []) = (ws, Inr es)"
  shows "\<forall>e \<in> set (pending_of es). note_link e = queue_prefix @ note_file e"
proof -
  define P where "P e \<longleftrightarrow> note_field e ''observation_id'' = [] \<and> note_field e ''disposition'' = []
      \<longrightarrow> note_link e = queue_prefix @ note_file e" for e
  from assms obtain d1 d2 ws1 es1 names1 names2 where
    l1: "load_files v d1 knowledge_prefix names1 ([], []) = (ws1, Inr es1)" and
    l2: "load_files v d2 queue_prefix names2 (ws1, es1) = (ws, Inr es)"
    by (auto simp: sources_def split: sum.splits prod.splits)
  have "\<forall>e \<in> set es1. P e" by (rule load_files_all [OF _ l1]) (auto simp: P_def)
  with l2 have "\<forall>e \<in> set es. P e" by (rule load_files_all [rotated]) (simp add: P_def)
  then show ?thesis by (auto simp: pending_of_def P_def)
qed

text \<open>A run exits with 0 exactly if it wrote the index, which is then the rendering of at least one note,
  and the section of candidates awaiting approval lists only files of the queue; otherwise it exits
  with 1, says why, and has written nothing.\<close>

theorem run_writes_or_fails:
  "case run_index (engram_index srt order v) of
     None \<Rightarrow> run_exit (engram_index srt order v) = 1 \<and> run_err (engram_index srt order v) \<noteq> []
   | Some page \<Rightarrow> run_exit (engram_index srt order v) = 0 \<and>
       (\<exists>es. es \<noteq> [] \<and> page = render srt order es
         \<and> (\<forall>e \<in> set (pending_of es). note_link e = queue_prefix @ note_file e))"
  using load_sources_notes [of v]
  by (simp add: engram_index_def index_fail_def split: sum.split option.split prod.split) blast

section \<open>Worked example\<close>

definition sample_note :: string where
  "sample_note = ''---'' @ [LF] @ ''task: T-1'' @ [CR, LF] @ ''superseded_by: '' @ [CHR 0x22] @ ''b.md'' @ [CHR 0x22, LF]
     @ ''disposition: wrong'' @ [LF] @ ''---'' @ [LF, LF] @ ''# Title'' @ [LF, LF] @ ''One **two** |'' @ [LF] @ '' `three`'' @ [LF, LF] @ ''rest''"

lemma sample_note_parses: "map_option (\<lambda>e. (note_field e ''task'', replacement_of e, note_summary e)) (parse_note [] ''a.md'' sample_note)
    = Some (''T-1'', ''b.md'', ''One two / three'')"
  by code_simp

text \<open>A quoted value with a comment behind it keeps its closing quote.\<close>

lemma commented_value_keeps_its_quote:
  "map_option replacement_of (parse_note [] ''a.md'' (''---'' @ [LF] @ ''superseded_by: '' @ [CHR 0x22] @ ''b.md'' @ [CHR 0x22]
     @ ''  # why'' @ [LF] @ ''---'' @ [LF])) = Some (''b.md'' @ [CHR 0x22])"
  by code_simp

definition sample :: "string \<Rightarrow> string \<Rightarrow> memo" where
  "sample file topic = \<lparr>note_fields = [''observation_id'' \<mapsto> ''obs'', ''topic_key'' \<mapsto> topic], note_file = file,
     note_summary = ''s'', note_link = file\<rparr>"

theorem index_is_canonical_witness:
  "render insertion_sort rev [sample ''b'' ''x/y/1'', sample ''a'' ''q'', sample ''c'' ''x/y/2'']
    = render insertion_sort id [sample ''a'' ''q'', sample ''c'' ''x/y/2'', sample ''b'' ''x/y/1'']"
  using index_is_canonical [OF insertion.sort_Slice_axioms insertion.sort_Slice_axioms, of rev id
      "[sample ''b'' ''x/y/1'', sample ''a'' ''q'', sample ''c'' ''x/y/2'']" "[sample ''a'' ''q'', sample ''c'' ''x/y/2'', sample ''b'' ''x/y/1'']"]
  by (simp add: sample_def)

end
