(* ===== verification/AuthQuerier.thy ===== *)
theory AuthQuerier imports Session Recovery
begin

text \<open>
  The methods of \<^verbatim>\<open>sqlcgen/querier.go\<close> on refresh tokens and recovery codes as data, beside \<open>Querier\<close>, which
  has those on the tenant, public and identity tables: a callback of \<^verbatim>\<open>WithAuthUser\<close> or
  \<^verbatim>\<open>WithAuthLookup\<close> is a program of these calls, and what any such program can do is proved of all of
  them at once. A nil hash and a NULL expiry, which no caller passes, have no constructor.
\<close>

section \<open>The interface\<close>

datatype auth_query =
    AQ_GetRefreshTokenByHash bytes
  | AQ_InsertRefreshToken uuid uuid bytes uuid time
  | AQ_RevokeRefreshTokenFamily uuid
  | AQ_RevokeRefreshTokenIfLive uuid
  | AQ_SetRefreshTokenReplacedBy uuid uuid
  | AQ_LockRefreshTokenFamily string
  | AQ_DeleteRecoveryCodesForUser uuid
  | AQ_InsertRecoveryCode uuid uuid bytes
  | AQ_GetRecoveryCodeByHash bytes
  | AQ_RedeemRecoveryCode bytes

datatype auth_answer =
    AA_done
  | AA_affected nat
  | AA_token "refresh_token option"
  | AA_code "recovery_row option"

definition auth_answering :: "('a \<Rightarrow> auth_answer) \<Rightarrow> (db_err + 'a) \<times> 'c \<Rightarrow> (db_err + auth_answer) \<times> 'c" where
  "auth_answering f r = (map_sum id f (fst r), snd r)"

fun run_auth_query ::
  "(string \<Rightarrow> uuid option) \<Rightarrow> auth_query \<Rightarrow> (authdb, 'z) pgconn_scheme \<Rightarrow> (db_err + auth_answer) \<times> (authdb, 'z) pgconn_scheme"
where
  "run_auth_query cast (AQ_GetRefreshTokenByHash h) c = auth_answering AA_token (GetRefreshTokenByHash cast h c)"
| "run_auth_query cast (AQ_InsertRefreshToken i u h fam e) c =
     auth_answering (\<lambda>_. AA_done) (InsertRefreshToken cast (new_token_row i u h fam e (clock c)) c)"
| "run_auth_query cast (AQ_RevokeRefreshTokenFamily fam) c = auth_answering AA_affected (RevokeRefreshTokenFamily cast fam c)"
| "run_auth_query cast (AQ_RevokeRefreshTokenIfLive i) c = auth_answering AA_affected (RevokeRefreshTokenIfLive cast i c)"
| "run_auth_query cast (AQ_SetRefreshTokenReplacedBy i j) c = auth_answering (\<lambda>_. AA_done) (SetRefreshTokenReplacedBy cast i j c)"
| "run_auth_query cast (AQ_LockRefreshTokenFamily k) c = auth_answering (\<lambda>_. AA_done) (LockRefreshTokenFamily k c)"
| "run_auth_query cast (AQ_DeleteRecoveryCodesForUser u) c = auth_answering AA_affected (DeleteRecoveryCodesForUser cast u c)"
| "run_auth_query cast (AQ_InsertRecoveryCode i u h) c =
     auth_answering (\<lambda>_. AA_done) (InsertRecoveryCode cast (new_code_row i u h (clock c)) c)"
| "run_auth_query cast (AQ_GetRecoveryCodeByHash h) c = auth_answering AA_code (GetRecoveryCodeByHash cast h c)"
| "run_auth_query cast (AQ_RedeemRecoveryCode h) c = auth_answering AA_affected (RedeemRecoveryCode_sql cast h c)"

section \<open>One shape for all of them\<close>

definition auth_answered :: "('a \<Rightarrow> auth_answer) \<Rightarrow> db_err + 'a \<times> 'd \<Rightarrow> db_err + auth_answer \<times> 'd" where
  "auth_answered f = map_sum id (apfst f)"

fun auth_statement :: "time \<Rightarrow> auth_query \<Rightarrow> uuid option \<Rightarrow> authdb \<Rightarrow> db_err + auth_answer \<times> authdb" where
  "auth_statement now (AQ_GetRefreshTokenByHash h) s db = auth_answered AA_token (sql_GetRefreshTokenByHash h s db)"
| "auth_statement now (AQ_InsertRefreshToken i u h fam e) s db =
     auth_answered (\<lambda>_. AA_done) (sql_InsertRefreshToken (new_token_row i u h fam e now) s db)"
| "auth_statement now (AQ_RevokeRefreshTokenFamily fam) s db = auth_answered AA_affected (sql_RevokeRefreshTokenFamily now fam s db)"
| "auth_statement now (AQ_RevokeRefreshTokenIfLive i) s db = auth_answered AA_affected (sql_RevokeRefreshTokenIfLive now i s db)"
| "auth_statement now (AQ_SetRefreshTokenReplacedBy i j) s db = auth_answered (\<lambda>_. AA_done) (sql_SetRefreshTokenReplacedBy i j s db)"
| "auth_statement now (AQ_LockRefreshTokenFamily k) s db = Inr (AA_done, db)"
| "auth_statement now (AQ_DeleteRecoveryCodesForUser u) s db = auth_answered AA_affected (sql_DeleteRecoveryCodesForUser u s db)"
| "auth_statement now (AQ_InsertRecoveryCode i u h) s db =
     auth_answered (\<lambda>_. AA_done) (sql_InsertRecoveryCode (new_code_row i u h now) s db)"
| "auth_statement now (AQ_GetRecoveryCodeByHash h) s db = auth_answered AA_code (sql_GetRecoveryCodeByHash h s db)"
| "auth_statement now (AQ_RedeemRecoveryCode h) s db = auth_answered AA_affected (sql_RedeemRecoveryCode now h s db)"

lemmas auth_method_defs = GetRefreshTokenByHash_def InsertRefreshToken_def RevokeRefreshTokenFamily_def
  RevokeRefreshTokenIfLive_def SetRefreshTokenReplacedBy_def DeleteRecoveryCodesForUser_def InsertRecoveryCode_def
  GetRecoveryCodeByHash_def RedeemRecoveryCode_sql_def

lemmas auth_sql_defs = sql_GetRefreshTokenByHash_def sql_InsertRefreshToken_def sql_RevokeRefreshTokenFamily_def
  sql_RevokeRefreshTokenIfLive_def sql_SetRefreshTokenReplacedBy_def sql_DeleteRecoveryCodesForUser_def
  sql_InsertRecoveryCode_def sql_GetRecoveryCodeByHash_def sql_RedeemRecoveryCode_def update_tokens_def Let_def

lemma auth_answering_frame:
  "auth_answering f m = (r, c') \<Longrightarrow> (\<And>r1. m = (r1, c') \<Longrightarrow> same_session c c') \<Longrightarrow> same_session c c'"
  by (cases m) (auto simp: auth_answering_def)

lemma run_auth_query_frame: "run_auth_query cast q c = (r, c') \<Longrightarrow> same_session c c'"
  by (cases q) (auto simp: auth_method_defs elim!: auth_answering_frame intro: run_auth_frame conjunct1 [OF lock_frame])

lemma auth_answering_effect:
  assumes "auth_answering f (run_auth cast w g c) = (r, c')" and "auth_scope cast c = Inr s" and "work c = Some db"
  shows "case r of Inl e \<Rightarrow> work c' = Some db | Inr a \<Rightarrow> \<exists>db'. auth_answered f (g s db) = Inr (a, db') \<and> work c' = Some db'"
  using assms
  by (auto simp: auth_answering_def run_auth_def run_stmt_def auth_answered_def split: prod.splits option.splits if_splits sum.splits)

text \<open>A call is an error that leaves the transaction's data alone, or the statement's effect on it.\<close>

lemma run_auth_query_effect:
  assumes "run_auth_query cast q c = (r, c')" and "auth_scope cast c = Inr s" and "work c = Some db"
  shows "case r of Inl e \<Rightarrow> work c' = Some db
    | Inr a \<Rightarrow> \<exists>db'. auth_statement (clock c) q s db = Inr (a, db') \<and> work c' = Some db'"
proof (cases q)
  case (AQ_LockRefreshTokenFamily k)
  obtain r1 c1 where l: "LockRefreshTokenFamily k c = (r1, c1)" by force
  with assms(1) AQ_LockRefreshTokenFamily lock_frame [OF l] assms(3) show ?thesis
    by (auto simp: auth_answering_def map_sum_def split: sum.splits)
qed (insert assms(1), hypsubst, simp only: run_auth_query.simps auth_statement.simps auth_method_defs,
    drule auth_answering_effect [OF _ assms(2,3)], assumption)+

section \<open>A transaction as a program\<close>

datatype ('e, 'r) auth_prog = Auth_Finish "'e + 'r" | Auth_Call auth_query "db_err + auth_answer \<Rightarrow> ('e, 'r) auth_prog"

primrec run_auth_prog ::
  "(string \<Rightarrow> uuid option) \<Rightarrow> ('e, 'r) auth_prog \<Rightarrow> (authdb, 'z) pgconn_scheme \<Rightarrow> ('e + 'r) \<times> (authdb, 'z) pgconn_scheme"
where
  "run_auth_prog cast (Auth_Finish r) = (\<lambda>c. (r, c))"
| "run_auth_prog cast (Auth_Call q k) = (\<lambda>c. case run_auth_query cast q c of (a, c1) \<Rightarrow> run_auth_prog cast (k a) c1)"

lemma run_auth_prog_frame: "run_auth_prog cast p c = (r, c') \<Longrightarrow> same_session c c'"
proof (induction p arbitrary: c)
  case (Auth_Call q k)
  then obtain a c1 where q: "run_auth_query cast q c = (a, c1)" and k: "run_auth_prog cast (k a) c1 = (r, c')"
    by (auto split: prod.splits)
  show ?case by (rule same_session_trans [OF run_auth_query_frame [OF q] Auth_Call.IH [OF _ k]]) simp
qed simp

lemma framed_auth_prog [frames]: "framed (run_auth_prog cast p)"
  unfolding framed_def using run_auth_prog_frame by blast

lemma run_auth_prog_effect:
  assumes "run_auth_prog cast p c = (r, c')" and "auth_scope cast c = Inr s" and "work c = Some db"
    and refl: "\<And>x. R x x" and trans: "\<And>x y z. R x y \<Longrightarrow> R y z \<Longrightarrow> R x z"
    and stmt: "\<And>now q x a y. auth_statement now q s x = Inr (a, y) \<Longrightarrow> R x y"
  shows "\<exists>db'. work c' = Some db' \<and> R db db'"
  using assms(1-3)
proof (induction p arbitrary: c db)
  case (Auth_Call q k)
  from Auth_Call.prems(1) obtain a c1 where q: "run_auth_query cast q c = (a, c1)"
    and k: "run_auth_prog cast (k a) c1 = (r, c')" by (auto split: prod.splits)
  have s: "auth_scope cast c1 = Inr s"
    using same_session_scope [OF run_auth_query_frame [OF q]] Auth_Call.prems(2) by simp
  obtain db1 where w: "work c1 = Some db1" and R: "R db db1"
    using run_auth_query_effect [OF q Auth_Call.prems(2,3)] refl stmt by (auto split: sum.splits)
  from Auth_Call.IH [OF _ k s w] obtain db' where "work c' = Some db'" "R db1 db'" by auto
  with trans [OF R] show ?case by blast
qed (use refl in auto)

section \<open>What any program may do\<close>

text \<open>
  A token keeps its identity, its owner, its hash, its family and its expiry, and a revocation is
  final; nobody's rows but those of \<open>U\<close> change, and no token disappears.
\<close>

definition settled :: "refresh_token \<Rightarrow> refresh_token \<Rightarrow> bool" where
  "settled r r' \<longleftrightarrow> rt_id r' = rt_id r \<and> rt_user_id r' = rt_user_id r \<and> token_hash r' = token_hash r
     \<and> family_id r' = family_id r \<and> expires_at r' = expires_at r \<and> (\<not> live r \<longrightarrow> revoked_at r' = revoked_at r)"

definition forward :: "uuid set \<Rightarrow> authdb \<Rightarrow> authdb \<Rightarrow> bool" where
  "forward U db db' \<longleftrightarrow> user_ids db' = user_ids db
     \<and> filter (\<lambda>r. rc_user_id r \<notin> U) (recovery_codes db') = filter (\<lambda>r. rc_user_id r \<notin> U) (recovery_codes db)
     \<and> (\<exists>f new. refresh_tokens db' = map f (refresh_tokens db) @ new \<and> (\<forall>r. settled r (f r))
          \<and> (\<forall>r. rt_user_id r \<notin> U \<longrightarrow> f r = r) \<and> rt_user_id ` set new \<subseteq> U)"

lemma forwardI:
  assumes "user_ids db' = user_ids db"
    and "filter (\<lambda>r. rc_user_id r \<notin> U) (recovery_codes db') = filter (\<lambda>r. rc_user_id r \<notin> U) (recovery_codes db)"
    and "refresh_tokens db' = map f (refresh_tokens db) @ new"
    and "\<And>r. settled r (f r)" and "\<And>r. rt_user_id r \<notin> U \<Longrightarrow> f r = r" and "rt_user_id ` set new \<subseteq> U"
  shows "forward U db db'"
  using assms unfolding forward_def by blast

lemma settled_refl [simp]: "settled r r"
  by (simp add: settled_def)

lemma settled_trans: "settled a b \<Longrightarrow> settled b c \<Longrightarrow> settled a c"
  by (auto simp: settled_def live_def)

lemma forward_refl: "forward U db db"
  by (rule forwardI [where f = id and new = "[]"]) simp_all

lemma forward_parts:
  assumes "forward U db db'"
  obtains f new where "user_ids db' = user_ids db"
    and "filter (\<lambda>r. rc_user_id r \<notin> U) (recovery_codes db') = filter (\<lambda>r. rc_user_id r \<notin> U) (recovery_codes db)"
    and "refresh_tokens db' = map f (refresh_tokens db) @ new"
    and "\<And>r. settled r (f r)" and "\<And>r. rt_user_id r \<notin> U \<Longrightarrow> f r = r" and "rt_user_id ` set new \<subseteq> U"
  using assms unfolding forward_def by blast

lemma forward_trans:
  assumes "forward U a b" and "forward U b c"
  shows "forward U a c"
proof (rule forward_parts [OF assms(1)], rule forward_parts [OF assms(2)])
  fix f m g n
  assume f: "refresh_tokens b = map f (refresh_tokens a) @ m" "\<And>r. settled r (f r)"
      "\<And>r. rt_user_id r \<notin> U \<Longrightarrow> f r = r" "rt_user_id ` set m \<subseteq> U"
    and g: "refresh_tokens c = map g (refresh_tokens b) @ n" "\<And>r. settled r (g r)"
      "\<And>r. rt_user_id r \<notin> U \<Longrightarrow> g r = r" "rt_user_id ` set n \<subseteq> U"
    and rest: "user_ids b = user_ids a" "user_ids c = user_ids b"
      "filter (\<lambda>r. rc_user_id r \<notin> U) (recovery_codes b) = filter (\<lambda>r. rc_user_id r \<notin> U) (recovery_codes a)"
      "filter (\<lambda>r. rc_user_id r \<notin> U) (recovery_codes c) = filter (\<lambda>r. rc_user_id r \<notin> U) (recovery_codes b)"
  have owner: "rt_user_id (g r) = rt_user_id r" for r using g(2) [of r] by (simp add: settled_def)
  show "forward U a c"
  proof (rule forwardI [where f = "\<lambda>r. g (f r)" and new = "map g m @ n"])
    show "refresh_tokens c = map (\<lambda>r. g (f r)) (refresh_tokens a) @ map g m @ n" by (simp add: f(1) g(1))
    show "settled r (g (f r))" for r by (rule settled_trans [OF f(2) g(2)])
    show "g (f r) = r" if "rt_user_id r \<notin> U" for r using f(3) g(3) that by simp
    show "rt_user_id ` set (map g m @ n) \<subseteq> U" using f(4) g(4) owner by auto
  qed (use rest in simp_all)
qed

lemma forward_mono:
  assumes "forward U db db'" and "U \<subseteq> V"
  shows "forward V db db'"
proof (rule forward_parts [OF assms(1)])
  fix f new
  assume f: "user_ids db' = user_ids db" "refresh_tokens db' = map f (refresh_tokens db) @ new" "\<And>r. settled r (f r)"
      "\<And>r. rt_user_id r \<notin> U \<Longrightarrow> f r = r" "rt_user_id ` set new \<subseteq> U"
    and codes: "filter (\<lambda>r. rc_user_id r \<notin> U) (recovery_codes db') = filter (\<lambda>r. rc_user_id r \<notin> U) (recovery_codes db)"
  have narrow: "filter (\<lambda>r. rc_user_id r \<notin> V) cs = filter (\<lambda>r. rc_user_id r \<notin> V) (filter (\<lambda>r. rc_user_id r \<notin> U) cs)" for cs :: "recovery_row list"
    using assms(2) by (auto intro!: filter_cong)
  show "forward V db db'"
  proof (rule forwardI [OF f(1) _ f(2,3)])
    show "filter (\<lambda>r. rc_user_id r \<notin> V) (recovery_codes db') = filter (\<lambda>r. rc_user_id r \<notin> V) (recovery_codes db)"
      by (subst (1 2) narrow) (simp only: codes)
    show "f r = r" if "rt_user_id r \<notin> V" for r using f(4) that assms(2) by blast
    show "rt_user_id ` set new \<subseteq> V" using f(5) assms(2) by blast
  qed
qed

lemma own_update_forward:
  assumes "\<And>r. P r \<Longrightarrow> rt_user_id r = u" and "\<And>r. P r \<Longrightarrow> settled r (g r)"
  shows "forward {u} db (db\<lparr>refresh_tokens := map (\<lambda>r. if P r then g r else r) (refresh_tokens db)\<rparr>)"
  using assms by (intro forwardI [where f = "\<lambda>r. if P r then g r else r" and new = "[]"]) auto

lemma own_insert_forward: "rt_user_id r = u \<Longrightarrow> forward {u} db (db\<lparr>refresh_tokens := refresh_tokens db @ [r]\<rparr>)"
  by (rule forwardI [where f = id and new = "[r]"]) simp_all

lemma codes_forward:
  "filter (\<lambda>r. rc_user_id r \<noteq> u) cs = filter (\<lambda>r. rc_user_id r \<noteq> u) (recovery_codes db)
    \<Longrightarrow> forward {u} db (db\<lparr>recovery_codes := cs\<rparr>)"
  by (rule forwardI [where f = id and new = "[]"]) simp_all

lemma others_codes_updated: "filter (\<lambda>r. rc_user_id r \<noteq> u)
    (map (\<lambda>r. if rc_user_id r = u \<and> P r then r\<lparr>used_at := t\<rparr> else r) cs) = filter (\<lambda>r. rc_user_id r \<noteq> u) cs"
  by (induction cs) auto

lemma own_delete_forward: "forward {u} db (db\<lparr>recovery_codes := filter (\<lambda>r. rc_user_id r = u \<longrightarrow> P r) (recovery_codes db)\<rparr>)"
  by (rule codes_forward) (auto intro!: filter_cong)

lemma statement_forward: "auth_statement now q (Some u) db = Inr (a, db') \<Longrightarrow> forward {u} db db'"
  by (cases q) (auto simp: auth_answered_def auth_sql_defs settled_def live_def others_codes_updated new_code_row_def
      intro: forward_refl own_insert_forward codes_forward own_delete_forward intro!: own_update_forward split: if_splits)

section \<open>The constraints\<close>

lemma codes_ok_used: "codes_ok cs \<Longrightarrow> codes_ok (map (\<lambda>r. if P r then r\<lparr>used_at := t\<rparr> else r) cs)"
proof -
  have "map rc_id (map (\<lambda>r. if P r then r\<lparr>used_at := t\<rparr> else r) cs) = map rc_id cs"
    "map code_hash (map (\<lambda>r. if P r then r\<lparr>used_at := t\<rparr> else r) cs) = map code_hash cs"
    by (rule map_update_same; simp)+
  then show "codes_ok cs \<Longrightarrow> ?thesis" by (simp only: codes_ok_def)
qed

lemma codes_ok_filter: "codes_ok cs \<Longrightarrow> codes_ok (filter P cs)"
  by (simp add: codes_ok_def distinct_map_filter)

lemma codes_ok_insert: "codes_ok cs \<Longrightarrow> rc_id r \<notin> set (map rc_id cs) \<Longrightarrow> code_hash r \<notin> set (map code_hash cs)
    \<Longrightarrow> codes_ok (cs @ [r])"
  by (simp add: codes_ok_def)

lemma relink_ok:
  assumes "tokens_ok ts" and "filter P ts \<noteq> [] \<longrightarrow> j \<in> set (map rt_id ts)"
  shows "tokens_ok (map (\<lambda>r. if P r then r\<lparr>replaced_by := Some j\<rparr> else r) ts)"
proof (cases "filter P ts = []")
  case True
  then have "map (\<lambda>r. if P r then r\<lparr>replaced_by := Some j\<rparr> else r) ts = ts" by (auto simp: filter_empty_conv intro: map_idI)
  then show ?thesis using assms(1) by simp
qed (use assms tokens_ok_relink in blast)

lemma statement_ok: "auth_statement now q s db = Inr (a, db') \<Longrightarrow> authdb_ok db \<Longrightarrow> authdb_ok db'"
  by (cases q) (auto simp: auth_answered_def auth_sql_defs authdb_ok_def split: if_splits
      intro!: tokens_ok_insert tokens_ok_revoke relink_ok codes_ok_used codes_ok_filter codes_ok_insert)

section \<open>Any history of transactions\<close>

fun auth_calls ::
  "(uuid \<Rightarrow> string) \<Rightarrow> (string \<Rightarrow> uuid option) \<Rightarrow> (uuid \<times> ('e, 'r) auth_prog) list \<Rightarrow> (authdb, 'z) pgconn_scheme \<Rightarrow> (authdb, 'z) pgconn_scheme"
where
  "auth_calls str cast [] c = c"
| "auth_calls str cast ((u, p) # calls) c =
     auth_calls str cast calls (snd (WithAuthUser str pg_driver u (as_callback (run_auth_prog cast p)) c))"

lemma auth_call_any:
  fixes c :: "(authdb, 'z) pgconn_scheme"
  assumes "pg_idle c" and "str u \<noteq> []" and "cast (str u) = Some u"
    and "WithAuthUser str pg_driver u (as_callback (run_auth_prog cast p)) c = (r, c')"
  shows "pg_idle c' \<and> session_setting c' = session_setting c \<and> forward {u} (data c) (data c')
    \<and> (authdb_ok (data c) \<longrightarrow> authdb_ok (data c'))"
proof -
  let ?R = "\<lambda>x y. forward {u} x y \<and> (authdb_ok x \<longrightarrow> authdb_ok y)"
  note call = auth_call_cases [where str = str and cast = cast, OF framed_auth_prog assms]
  have prog: "?R (data c) (data c')"
    if "in_scope cast u c1 (data c)" "run_auth_prog cast p c1 = (Inr a, c2)" "work c2 = Some (data c')"
    for c1 c2 :: "(authdb, 'z) pgconn_scheme" and a
  proof -
    from that(1) have s: "auth_scope cast c1 = Inr (Some u)" "work c1 = Some (data c)" by (simp_all add: in_scope_def)
    have "\<exists>db'. work c2 = Some db' \<and> ?R (data c) db'"
      by (rule run_auth_prog_effect [OF that(2) s]) (auto intro: forward_refl forward_trans statement_forward statement_ok)
    then show ?thesis using that(3) by simp
  qed
  from call(2) have "?R (data c) (data c')"
    by (elim disjE exE conjE) (simp add: forward_refl, rule prog)
  with call(1) show ?thesis by blast
qed

text \<open>C18: Whatever callbacks do with the token and code methods, as the operations of \<^verbatim>\<open>auth\<close> do, in any
  sequence of user-scoped transactions, each failing where it likes: only rows of the users named
  change, no token disappears or changes its owner, secret, family or expiry, a revocation is never
  taken back, the keys and the one live token of a family stay unique, and the connection is left idle
  with its session settings.\<close>

theorem auth_transactions_isolated:
  assumes "pg_idle c" and "\<And>u. str u \<noteq> []" and "\<And>u. cast (str u) = Some u"
  shows "forward (fst ` set calls) (data c) (data (auth_calls str cast calls c))
    \<and> (authdb_ok (data c) \<longrightarrow> authdb_ok (data (auth_calls str cast calls c)))
    \<and> pg_idle (auth_calls str cast calls c) \<and> session_setting (auth_calls str cast calls c) = session_setting c"
  using assms(1)
proof (induction calls arbitrary: c)
  case (Cons call calls)
  obtain u p where call: "call = (u, p)" by force
  define c1 where "c1 = snd (WithAuthUser str pg_driver u (as_callback (run_auth_prog cast p)) c)"
  have one: "pg_idle c1 \<and> session_setting c1 = session_setting c \<and> forward {u} (data c) (data c1)
      \<and> (authdb_ok (data c) \<longrightarrow> authdb_ok (data c1))"
    unfolding c1_def by (rule auth_call_any [where u = u and str = str and cast = cast and p = p, OF Cons.prems assms(2,3)])
      (simp add: prod_eq_iff)
  from one Cons.IH [of c1] forward_trans
    [OF forward_mono [of "{u}" _ _ "fst ` set (call # calls)"] forward_mono [of "fst ` set calls" _ _ "fst ` set (call # calls)"]]
  show ?case by (auto simp: call c1_def [symmetric])
qed (simp add: forward_refl)

section \<open>The package's operations are programs\<close>

definition is_auth_prog ::
  "(string \<Rightarrow> uuid option) \<Rightarrow> ((authdb, 'z) pgconn_scheme \<Rightarrow> ('e + 'r) \<times> (authdb, 'z) pgconn_scheme) \<Rightarrow> bool" where
  "is_auth_prog cast m \<longleftrightarrow> (\<exists>p. m = run_auth_prog cast p)"

primrec auth_bind :: "('e, 'r) auth_prog \<Rightarrow> ('r \<Rightarrow> ('e, 's) auth_prog) \<Rightarrow> ('e, 's) auth_prog" where
  "auth_bind (Auth_Finish r) k = (case r of Inl e \<Rightarrow> Auth_Finish (Inl e) | Inr a \<Rightarrow> k a)"
| "auth_bind (Auth_Call q j) k = Auth_Call q (\<lambda>a. auth_bind (j a) k)"

lemma run_auth_bind: "run_auth_prog cast (auth_bind p k) c = and_then (run_auth_prog cast p c) (\<lambda>a. run_auth_prog cast (k a))"
  by (induction p arbitrary: c) (auto split: sum.splits prod.splits)

named_theorems progs

lemma prog_return [progs]: "is_auth_prog cast (\<lambda>c. (r, c))"
  unfolding is_auth_prog_def by (rule exI [of _ "Auth_Finish r"]) simp

lemma prog_bind [progs]:
  assumes "is_auth_prog cast m" and "\<And>a. is_auth_prog cast (k a)"
  shows "is_auth_prog cast (\<lambda>c. and_then (m c) k)"
proof -
  from assms(1) obtain p where p: "m = run_auth_prog cast p" by (auto simp: is_auth_prog_def)
  from assms(2) obtain j where "\<And>a. k a = run_auth_prog cast (j a)" unfolding is_auth_prog_def by metis
  then have j: "k = (\<lambda>a. run_auth_prog cast (j a))" by (rule ext)
  show ?thesis
    unfolding is_auth_prog_def by (rule exI [of _ "auth_bind p j"]) (simp add: p j run_auth_bind fun_eq_iff)
qed

lemma prog_if [progs]: "is_auth_prog cast m \<Longrightarrow> is_auth_prog cast n \<Longrightarrow> is_auth_prog cast (\<lambda>c. if b then m c else n c)"
  by (cases b) simp_all

lemma prog_option [progs]: "is_auth_prog cast m \<Longrightarrow> (\<And>a. is_auth_prog cast (n a)) \<Longrightarrow>
    is_auth_prog cast (\<lambda>c. case x of None \<Rightarrow> m c | Some a \<Rightarrow> n a c)"
  by (cases x) simp_all

lemma prog_sum [progs]: "(\<And>a. is_auth_prog cast (m a)) \<Longrightarrow> (\<And>a. is_auth_prog cast (n a)) \<Longrightarrow>
    is_auth_prog cast (\<lambda>c. case x of Inl a \<Rightarrow> m a c | Inr a \<Rightarrow> n a c)"
  by (cases x) simp_all

lemma prog_pair [progs]: "(\<And>a b. is_auth_prog cast (m a b)) \<Longrightarrow> is_auth_prog cast (case x of (a, b) \<Rightarrow> m a b)"
  by (cases x) simp

text \<open>A method whose answer \<open>g\<close> reads back is one call.\<close>

lemma prog_method:
  assumes "\<And>c. run_auth_query cast q c = auth_answering tag (m c)" and "\<And>a. g (tag a) = a"
  shows "is_auth_prog cast (\<lambda>c. wrapped f (m c))"
  unfolding is_auth_prog_def
  by (rule exI [of _ "Auth_Call q (\<lambda>a. Auth_Finish (map_sum f g a))"])
    (auto simp: fun_eq_iff assms auth_answering_def wrapped_def split: prod.splits sum.splits)

lemma prog_methods [progs]:
  "is_auth_prog cast (\<lambda>c. wrapped f (GetRefreshTokenByHash cast h c))"
  "is_auth_prog cast (\<lambda>c. wrapped f (InsertRefreshToken cast (new_token_row i u h fam e (clock c)) c))"
  "is_auth_prog cast (\<lambda>c. wrapped f (RevokeRefreshTokenFamily cast fam c))"
  "is_auth_prog cast (\<lambda>c. wrapped f (RevokeRefreshTokenIfLive cast i c))"
  "is_auth_prog cast (\<lambda>c. wrapped f (SetRefreshTokenReplacedBy cast i j c))"
  "is_auth_prog cast (\<lambda>c. wrapped f (LockRefreshTokenFamily k c))"
  "is_auth_prog cast (\<lambda>c. wrapped f (DeleteRecoveryCodesForUser cast u c))"
  "is_auth_prog cast (\<lambda>c. wrapped f (InsertRecoveryCode cast (new_code_row i u h (clock c)) c))"
  "is_auth_prog cast (\<lambda>c. wrapped f (RedeemRecoveryCode_sql cast h c))"
  by (rule prog_method [OF run_auth_query.simps(1), of "\<lambda>a. case a of AA_token x \<Rightarrow> x"], simp)
    (rule prog_method [OF run_auth_query.simps(2), of "\<lambda>_. ()"], simp,
     rule prog_method [OF run_auth_query.simps(3), of "\<lambda>a. case a of AA_affected x \<Rightarrow> x"], simp,
     rule prog_method [OF run_auth_query.simps(4), of "\<lambda>a. case a of AA_affected x \<Rightarrow> x"], simp,
     rule prog_method [OF run_auth_query.simps(5), of "\<lambda>_. ()"], simp,
     rule prog_method [OF run_auth_query.simps(6), of "\<lambda>_. ()"], simp,
     rule prog_method [OF run_auth_query.simps(7), of "\<lambda>a. case a of AA_affected x \<Rightarrow> x"], simp,
     rule prog_method [OF run_auth_query.simps(8), of "\<lambda>_. ()"], simp,
     rule prog_method [OF run_auth_query.simps(10), of "\<lambda>a. case a of AA_affected x \<Rightarrow> x"], simp)

lemma stored_codes_program [progs]: "is_auth_prog cast (store_codes cast newV7 u i codes)"
proof (induction codes arbitrary: i)
  case Nil
  have no_codes: "store_codes cast newV7 u i [] = (\<lambda>c. (Inr (), c))" by (rule ext) simp
  show ?case unfolding no_codes by (rule prog_return)
next
  case (Cons code codes)
  have more: "store_codes cast newV7 u i (code # codes) = (\<lambda>c. case newV7 i of
      None \<Rightarrow> (Inl (CodeIdErr i), c)
    | Some new \<Rightarrow> and_then (wrapped (StoreCodeErr i) (InsertRecoveryCode cast (new_code_row new u (Hash code) (clock c)) c))
        (\<lambda>_ c. store_codes cast newV7 u (Suc i) codes c))" by (rule ext) simp
  show ?case unfolding more by (intro progs Cons.IH)
qed

lemma package_operations_are_programs:
  "is_auth_prog cast (IssueRefreshToken cast H rand i newV4 u now)"
  "is_auth_prog cast (RotateRefreshToken str cast H rand i secret now)"
  "is_auth_prog cast (RegenerateRecoveryCodes cast newV7 u codes)"
  "is_auth_prog cast (RedeemRecoveryCode cast H plaintext)"
  unfolding IssueRefreshToken_def issueInFamily_def issueInFamilyReturningID_def RotateRefreshToken_def
    RegenerateRecoveryCodes_def RedeemRecoveryCode_def
  by (intro progs)+

section \<open>A user's own database\<close>

definition auth_view :: "uuid option \<Rightarrow> authdb \<Rightarrow> authdb" where
  "auth_view s db = db\<lparr>refresh_tokens := filter (own_session s) (refresh_tokens db),
     recovery_codes := filter (own_code s) (recovery_codes db)\<rparr>"

lemma find_own: "find (\<lambda>r. P r \<and> Q r) (filter P xs) = find (\<lambda>r. P r \<and> Q r) xs"
  by (induction xs) auto

lemma filter_own_rows: "filter (\<lambda>r. P r \<and> Q r) (filter P xs) = filter (\<lambda>r. P r \<and> Q r) xs"
  by (induction xs) auto

lemma map_own_rows:
  assumes "\<And>r. P (f r) = P r"
  shows "filter P (map (\<lambda>r. if P r \<and> Q r then f r else r) xs) = map (\<lambda>r. if P r \<and> Q r then f r else r) (filter P xs)"
  using assms by (induction xs) auto

lemma filter_not_own: "filter P (filter (\<lambda>r. \<not> (P r \<and> Q r)) xs) = filter (\<lambda>r. \<not> (P r \<and> Q r)) (filter P xs)"
  by (induction xs) auto

lemma auth_view_fields [simp]:
  "refresh_tokens (auth_view s db) = filter (own_session s) (refresh_tokens db)"
  "recovery_codes (auth_view s db) = filter (own_code s) (recovery_codes db)" "user_ids (auth_view s db) = user_ids db"
  by (simp_all add: auth_view_def)

lemma auth_view_updates:
  "auth_view s (db\<lparr>refresh_tokens := ts\<rparr>) = (auth_view s db)\<lparr>refresh_tokens := filter (own_session s) ts\<rparr>"
  "auth_view s (db\<lparr>recovery_codes := cs\<rparr>) = (auth_view s db)\<lparr>recovery_codes := filter (own_code s) cs\<rparr>"
  by (simp_all add: auth_view_def)

lemma own_updates [simp]:
  "own_session s (r\<lparr>revoked_at := x\<rparr>) = own_session s r" "own_session s (r\<lparr>replaced_by := y\<rparr>) = own_session s r"
  "own_code s (q\<lparr>used_at := x\<rparr>) = own_code s q"
  by (simp_all add: own_session_def own_code_def)

lemmas own_rows = find_own filter_own_rows map_own_rows filter_not_own auth_view_updates

text \<open>C19: To a scope, a user or none, the token and code tables hold that user's rows only: every method
  answers, fails and writes as it would if nobody else's rows existed. The exceptions are what a
  constraint sees: a unique key of somebody else's row, and a back-pointer to somebody else's token.\<close>

theorem auth_scope_sees_its_own_rows:
  "map_sum id (apsnd (auth_view s)) (auth_statement now q s db) = auth_statement now q s (auth_view s db)
    \<or> (\<exists>k. auth_statement now q s db = Inl (UniqueViolation k))
    \<or> (\<exists>i j r. q = AQ_SetRefreshTokenReplacedBy i j \<and> r \<in> set (refresh_tokens db) \<and> rt_id r = j \<and> \<not> own_session s r)"
proof (cases q)
  case (AQ_InsertRefreshToken i u h fam e)
  then show ?thesis by (auto simp: auth_answered_def auth_sql_defs auth_view_updates own_session_def)
next
  case (AQ_SetRefreshTokenReplacedBy i j)
  then show ?thesis by (auto simp: auth_answered_def auth_sql_defs own_rows simp del: filter_filter)
next
  case (AQ_InsertRecoveryCode i u h)
  then show ?thesis by (auto simp: auth_answered_def auth_sql_defs auth_view_updates own_code_def)
qed (simp_all add: auth_answered_def auth_sql_defs own_rows del: filter_filter de_Morgan_conj)

section \<open>Worked example\<close>

text \<open>Two users, each with a live session; the first ends every session of its family.\<close>

definition two_sessions :: authdb where
  "two_sessions = \<lparr>refresh_tokens = [new_token_row 1 7 ''a'' 5 900 10, new_token_row 2 8 ''b'' 6 900 10],
     recovery_codes = [new_code_row 3 8 ''h'' 10], user_ids = [7, 8]\<rparr>"

definition end_family :: "uuid \<Rightarrow> (db_err, nat) auth_prog" where
  "end_family fam = Auth_Call (AQ_RevokeRefreshTokenFamily fam)
     (\<lambda>a. Auth_Finish (case a of Inr (AA_affected n) \<Rightarrow> Inr n | Inl e \<Rightarrow> Inl e | _ \<Rightarrow> Inr 0))"

lemma end_family_runs: "refresh_tokens (data (auth_calls uuid_text uuid_of_text [(7, end_family 5)] (idle_conn two_sessions 50 [])))
    = [(new_token_row 1 7 ''a'' 5 900 10)\<lparr>revoked_at := Some 50\<rparr>, new_token_row 2 8 ''b'' 6 900 10]"
  by (simp add: end_family_def WithAuthUser_def deferred_rollback_def run_and_commit_def as_callback_def
      auth_answering_def RevokeRefreshTokenFamily_def auth_sql_defs run_auth_def run_stmt_def auth_scope_def
      current_setting_def guc_value_def nullif_empty_def pg_driver_def pg_begin_def pg_exec_config_def pg_commit_def
      take_fault_def close_tx_def idle_conn_def setAuthScopeSQL_def uuid_nil_def own_session_def two_sessions_def)

theorem auth_transactions_isolated_witness:
  "map revoked_at (refresh_tokens (data (auth_calls uuid_text uuid_of_text [(7, end_family 5)] (idle_conn two_sessions 50 []))))
      = [Some 50, None]
    \<and> forward {7} two_sessions (data (auth_calls uuid_text uuid_of_text [(7, end_family 5)] (idle_conn two_sessions 50 [])))"
  using auth_transactions_isolated [where str = uuid_text and cast = uuid_of_text and calls = "[(7, end_family 5)]"
      and c = "idle_conn two_sessions 50 [] :: authdb pgconn", OF _ canonical.str_nonempty canonical.parse_str] end_family_runs
  by (simp add: pg_idle_def idle_conn_def new_token_row_def)

end
