(* ===== verification/Spec2Isabelle.thy ===== *)
theory Spec2Isabelle imports TxProps SessionProps SessionCookie RecoveryProps Token Envelope Totp Password
  MiddlewareProps Origins Config Router Email PoolConf SessionConc TenantInv TenantProps
  AbCheck RoleGuard Bootstrap Migrate Doctor OpenApi Harness EngramIndex AuthQuerier
begin

text \<open>
  Verification library of the MascotApp API (\<^verbatim>\<open>apps/api\<close>), a multi-tenant service for animal shelters
  written in Go on PostgreSQL, and of the two session commands under \<^verbatim>\<open>scripts\<close>.

  \<^bold>\<open>The program.\<close> A request passes the router and its middleware (\<^verbatim>\<open>internal/httpapi\<close>), which verifies
  the bearer token (\<^verbatim>\<open>internal/auth\<close>), agrees on the shelter, and runs the handler in one transaction
  scoped to that shelter (\<^verbatim>\<open>internal/db/tenant.go\<close>). Inside it the generated query layer
  (\<^verbatim>\<open>internal/db/sqlcgen\<close>) runs statements that name no shelter: row-level security compares every row
  with the transaction's scope. A second door (\<^verbatim>\<open>internal/db/auth.go\<close>) scopes transactions to a user, for
  refresh sessions and recovery codes; a third reads the public catalog without a scope. Around them
  are the configuration, the pools, the email port, the role bootstrap, the migration runner, the
  checks that keep the schema isolating with the harness that gives them a database
  (\<^verbatim>\<open>internal/db/rlstest\<close>, \<^verbatim>\<open>internal/db/dbtest\<close>), the preflight and the generator of the memory index.

  \<^bold>\<open>Representation.\<close> A byte is a \<open>char\<close>, a string a list of bytes, an identifier a 128-bit word, a
  fallible call a sum, and an effect an explicit state passed along; a panic and a nil error are two
  values of \<open>call\<close>. The data of a connection is its committed rows, the rows its transaction sees, its
  settings at session and transaction level, its locks, its clock and the faults still to come: any
  statement, begin or commit may fail, and a commit may succeed with its answer lost.

  \<^bold>\<open>Foundations\<close>
  \<^item> \<open>Prelude\<close>: bytes, words, digits, and lemmas on lists and maps. \<open>GoStrings\<close>, \<open>GoText\<close>, \<open>Encodings\<close>, \<open>UrlEscape\<close>,
    \<open>GoFmt\<close>, \<open>UuidLib\<close>, \<open>NetIp\<close>, \<open>UrlParse\<close>, \<open>Http\<close>, \<open>JwtLib\<close>: what the code uses of Go's standard library and,
    as locales with their documented laws, of the uuid and JWT libraries.
  \<^item> \<open>PgConn\<close>: a pgx connection, the provider of the interface \<open>tx_driver\<close> of \<open>TxScope\<close>. \<open>SqlLib\<close>: roles, the
    doors they open, the order constraints are checked in, ORDER BY, running a statement. What
    PostgreSQL computes on values (casts, jsonb, citext, collation) is the parameter \<open>sql_env\<close>.

  \<^bold>\<open>Transactions and stores\<close>
  \<^item> \<open>TxScope\<close>, \<open>TxProps\<close> (\<^verbatim>\<open>db/tenant.go\<close>, \<^verbatim>\<open>db/auth.go\<close>): the four wrappers over an abstract driver; their
    contract is proved once in the locale and holds of \<open>PgConn\<close> by interpretation. A pooled connection
    carries no scope into its next use, whatever happened before.
  \<^item> \<open>AuthStore\<close>, \<open>AuthStmts\<close> (\<^verbatim>\<open>sqlcgen/auth.sql.go\<close>, migrations 00013, 00014, 00017): refresh tokens and
    recovery codes with their policies and constraints, and how statements compose. \<open>AuthQuerier\<close>: these
    methods as data; whatever programs of them do inside \<^verbatim>\<open>WithAuthUser\<close> stays with the user, a revocation
    is final, and a scope sees a database of its own. The operations of \<^verbatim>\<open>auth\<close> are such programs.
  \<^item> \<open>TenantDb\<close>, \<open>PetStmts\<close>, \<open>ShelterStmts\<close>, \<open>Querier\<close> (\<^verbatim>\<open>sqlcgen/*.sql.go\<close>, \<^verbatim>\<open>models.go\<close>, \<^verbatim>\<open>querier.go\<close>, migrations
    00002 to 00016): every row type, policy and key, one definition per SQL statement (\<open>sql_X\<close>) and one
    per method (\<open>X\<close>), and the interface as data, so that a callback is a program over it (\<open>prog\<close>).
  \<^item> \<open>TenantViews\<close>, \<open>TenantInv\<close>, \<open>TenantProps\<close>, \<open>TenantDemo\<close>: every statement commutes with the view of its
    shelter, so a shelter's session is a session on a database of its own; a transaction leaves
    everybody else's rows alone; references never leave their shelter; a submission keeps its form
    version; the public door answers from the catalog; a case is assigned to an active member only.

  \<^bold>\<open>Authentication\<close>
  \<^item> \<open>Session\<close>, \<open>SessionSpec\<close>, \<open>SessionProps\<close>, \<open>SessionCookie\<close> (\<^verbatim>\<open>auth/session.go\<close>): the cookie, issuing,
    rotation with reuse detection; rotation refines an abstract specification on the table, from which
    single use and the death of a burned family follow over any sequence of calls.
  \<^item> \<open>SessionConc\<close>: any number of rotations interleaved statement by statement under the family lock.
  \<^item> \<open>Recovery\<close>, \<open>RecoveryProps\<close> (\<^verbatim>\<open>auth/recovery.go\<close>); \<open>Token\<close> (\<^verbatim>\<open>auth/token.go\<close>); \<open>Envelope\<close>
    (\<^verbatim>\<open>auth/envelope.go\<close>); \<open>Totp\<close> (\<^verbatim>\<open>auth/totp.go\<close>); \<open>Password\<close> (\<^verbatim>\<open>auth/password.go\<close>). SHA-256, HMAC, AES-GCM and
    Argon2id are parameters; where a proof needs a law of one, it is a locale's.

  \<^bold>\<open>HTTP\<close>
  \<^item> \<open>Middleware\<close>, \<open>MiddlewareProps\<close> (\<^verbatim>\<open>httpapi/middleware_auth.go\<close>): the tenant boundary, alone and on top of
    \<^verbatim>\<open>WithTenant\<close> and the connection model. \<open>Cors\<close>, \<open>Origins\<close> (\<^verbatim>\<open>cors.go\<close>, \<^verbatim>\<open>csrf.go\<close>); \<open>ClientIP\<close> (\<^verbatim>\<open>clientip.go\<close>);
    \<open>Health\<close> (\<^verbatim>\<open>health.go\<close>), its concurrent checks as a step relation; \<open>Router\<close> (\<^verbatim>\<open>router.go\<close>, \<^verbatim>\<open>cmd/api/main.go\<close>).
  \<^item> \<open>OpenApi\<close> (\<^verbatim>\<open>api/openapi.gen.go\<close>): the server generated from the contract, with any writer and any
    middlewares; fed with the contract's objects it is the handwritten health endpoints.
  \<^item> \<open>Config\<close> (\<^verbatim>\<open>config/config.go\<close>); \<open>Email\<close> (\<^verbatim>\<open>email\<close>), the port as a locale; \<open>PoolConf\<close> (\<^verbatim>\<open>db/db.go\<close>).

  \<^bold>\<open>Operations\<close>
  \<^item> \<open>Bootstrap\<close> (\<^verbatim>\<open>db/bootstrap.go\<close>): setting a role's password; the statement the server assembles is
    read back, so no password changes what is executed. \<open>Migrate\<close> (\<^verbatim>\<open>db/migrate.go\<close>), over goose.
  \<^item> \<open>Catalog\<close> (\<^verbatim>\<open>rlstest/catalog.go\<close>), \<open>RoleGuard\<close> (\<^verbatim>\<open>dbtest/roles.go\<close>), \<open>AbCheck\<close> (\<^verbatim>\<open>dbtest/tenants.go\<close>): what a
    passing schema check, role guard and A/B check establish, exactly.
  \<^item> \<open>Harness\<close> (\<^verbatim>\<open>dbtest/container.go\<close>): when a test is skipped, the one shared start, the guarded pools, and
    the closers of an isolated start whichever step fails; its laws of the machine are a locale. \<open>Dsn\<close>:
    its connection strings, over \<open>UrlParse\<close>; new credentials are read back exactly.
  \<^item> \<open>Doctor\<close> (\<^verbatim>\<open>scripts/doctor.go\<close>): the preflight, its reading of the Makefile, its exit status. \<open>EngramIndex\<close>
    (\<^verbatim>\<open>scripts/engram-index.go\<close>): frontmatter, summaries, the page; it depends on the set of notes alone.

  \<^bold>\<open>Bounds.\<close> No definition takes fuel: loops recurse on their data or on a length that shrinks. Times
  are integers in the unit of the component (\<^verbatim>\<open>time.Duration\<close> never overflows in these uses); 32- and
  64-bit columns are words.

  \<^bold>\<open>Not modelled.\<close> \<^verbatim>\<open>apps/web\<close> is TypeScript. Libraries are parameters: pgx, goose, chi, the container
  runtime, the cryptography; so are the file system and processes of the two commands. Of the schema, what no statement of the query layer meets: deletions of tenant rows, TRUNCATE, down
  migrations, and the triggers that guard them. Serialization failures and deadlocks are faults of the
  connection; isolation between concurrent transactions is modelled where the code depends on it, for
  rotation.
\<close>

end
